(* ===== verification/Hub_Prelude.thy ===== *)
theory Hub_Prelude
  imports
    Main
    "HOL-Library.Word"
    "HOL-Library.AList"
    "HOL-Library.Char_ord"
    "HOL-Library.List_Lexorder"
begin

text \<open>
  The prelude of the lightspeed-hub development: what the source uses of the Go language and
  of its standard library (strings, strconv, maps, time values), the fact collections the
  component theories share, and generic lemmas on association lists.

  A Go \<open>string\<close> and a Go \<open>[]byte\<close> are both sequences of bytes, here \<open>string\<close> (a list of
  8-bit characters).  A Go \<open>map[string]V\<close> is an association list \<open>'v go_map\<close>; a map that may be
  \<open>nil\<close> and is written to by the code is an \<open>'v go_map option\<close>, since writing to a nil map
  panics.  Go iterates over a map in an unspecified order: every such loop of the source takes
  its order from an explicit parameter of the model.
\<close>

named_theorems hub_consts \<open>the defining equations of the constants of the source\<close>
named_theorems hub_ops \<open>the defining equations of small straight-line operations\<close>

section \<open>Strings\<close>

type_synonym bytes = string

definition HasPrefix :: "string \<Rightarrow> string \<Rightarrow> bool" where
  "HasPrefix s p \<longleftrightarrow> take (length p) s = p"

text \<open>
  \<open>strings.TrimSpace\<close> removes every leading and trailing Unicode white space.  The list holds
  the UTF-8 encodings of the white space runes of Go's \<open>unicode.IsSpace\<close>.
\<close>

definition space_runes :: "string list" where
  "space_runes =
    [[CHR 0x09], [CHR 0x0A], [CHR 0x0B], [CHR 0x0C], [CHR 0x0D], [CHR 0x20],
     [CHR 0xC2, CHR 0x85], [CHR 0xC2, CHR 0xA0], [CHR 0xE1, CHR 0x9A, CHR 0x80],
     [CHR 0xE2, CHR 0x80, CHR 0x80], [CHR 0xE2, CHR 0x80, CHR 0x81],
     [CHR 0xE2, CHR 0x80, CHR 0x82], [CHR 0xE2, CHR 0x80, CHR 0x83],
     [CHR 0xE2, CHR 0x80, CHR 0x84], [CHR 0xE2, CHR 0x80, CHR 0x85],
     [CHR 0xE2, CHR 0x80, CHR 0x86], [CHR 0xE2, CHR 0x80, CHR 0x87],
     [CHR 0xE2, CHR 0x80, CHR 0x88], [CHR 0xE2, CHR 0x80, CHR 0x89],
     [CHR 0xE2, CHR 0x80, CHR 0x8A], [CHR 0xE2, CHR 0x80, CHR 0xA8],
     [CHR 0xE2, CHR 0x80, CHR 0xA9], [CHR 0xE2, CHR 0x80, CHR 0xAF],
     [CHR 0xE2, CHR 0x81, CHR 0x9F], [CHR 0xE3, CHR 0x80, CHR 0x80]]"

fun trim_left :: "string list \<Rightarrow> string \<Rightarrow> string" where
  "trim_left rs [] = []"
| "trim_left rs (c # s) =
     (case find (\<lambda>r. r \<noteq> [] \<and> HasPrefix (c # s) r) rs of
        None \<Rightarrow> c # s
      | Some r \<Rightarrow> trim_left rs (drop (length r - 1) s))"

definition TrimSpace :: "string \<Rightarrow> string" where
  "TrimSpace s = rev (trim_left (map rev space_runes) (rev (trim_left space_runes s)))"

fun digits_of :: "nat \<Rightarrow> string" where
  "digits_of n =
     (if n < 10 then [char_of (48 + n)] else digits_of (n div 10) @ [char_of (48 + n mod 10)])"

declare digits_of.simps [simp del]

definition Itoa :: "int \<Rightarrow> string" where
  "Itoa i = (if i < 0 then CHR ''-'' # digits_of (nat (- i)) else digits_of (nat i))"

text \<open>
  \<open>%q\<close> (\<open>strconv.Quote\<close>) on a byte string: quotes, backslashes and ASCII control characters
  are escaped.  Bytes of multi-byte runes are kept; Go keeps them too when the rune is
  printable, and every name the source quotes is an ASCII name of the Kubernetes API.
\<close>

definition hex_digit :: "nat \<Rightarrow> char" where
  "hex_digit n = (if n < 10 then char_of (48 + n) else char_of (87 + n))"

definition quote_char :: "char \<Rightarrow> string" where
  "quote_char c =
    (if c = CHR 0x22 then [CHR 0x5C, CHR 0x22]
     else if c = CHR 0x5C then [CHR 0x5C, CHR 0x5C]
     else if c = CHR 0x07 then [CHR 0x5C, CHR ''a'']
     else if c = CHR 0x08 then [CHR 0x5C, CHR ''b'']
     else if c = CHR 0x0C then [CHR 0x5C, CHR ''f'']
     else if c = CHR 0x0A then [CHR 0x5C, CHR ''n'']
     else if c = CHR 0x0D then [CHR 0x5C, CHR ''r'']
     else if c = CHR 0x09 then [CHR 0x5C, CHR ''t'']
     else if c = CHR 0x0B then [CHR 0x5C, CHR ''v'']
     else let n = (of_char c :: nat) in
       if n < 32 \<or> n = 127 then [CHR 0x5C, CHR ''x'', hex_digit (n div 16), hex_digit (n mod 16)]
       else [c])"

definition Quote :: "string \<Rightarrow> string" where
  "Quote s = CHR 0x22 # concat (map quote_char s) @ [CHR 0x22]"

section \<open>Maps\<close>

type_synonym 'v go_map = "(string \<times> 'v) list"

text \<open>Reading a map that may be nil; \<open>go_str\<close> is the read with Go's zero value.\<close>

definition go_get :: "'v go_map option \<Rightarrow> string \<Rightarrow> 'v option" where
  "go_get m k = (case m of None \<Rightarrow> None | Some l \<Rightarrow> map_of l k)"

definition go_str :: "string go_map option \<Rightarrow> string \<Rightarrow> string" where
  "go_str m k = (case go_get m k of None \<Rightarrow> [] | Some v \<Rightarrow> v)"

text \<open>The zero-value read of a map that is never written through: a missing key gives no bytes.\<close>

definition data_at :: "bytes go_map \<Rightarrow> string \<Rightarrow> bytes" where
  "data_at m k = (case map_of m k of None \<Rightarrow> [] | Some v \<Rightarrow> v)"

text \<open>\<open>%v\<close> of a \<open>map[string]string\<close>: the entries in the order of the keys.\<close>

definition fmt_map :: "string go_map option \<Rightarrow> string" where
  "fmt_map m =
    ''map['' @ concat (case map (\<lambda>(k, v). k @ '':'' @ v)
        (sort_key fst (case m of None \<Rightarrow> [] | Some l \<Rightarrow> l)) of
      [] \<Rightarrow> [] | x # xs \<Rightarrow> x # map (\<lambda>y. '' '' @ y) xs) @ '']''"

lemma go_get_None [simp]: "go_get None k = None"
  by (simp add: go_get_def)

lemma go_get_Some [simp]: "go_get (Some l) k = map_of l k"
  by (simp add: go_get_def)

lemma map_of_update [simp]: "map_of (AList.update k v m) k' = (if k' = k then Some v else map_of m k')"
  by (simp add: update_conv')

lemma map_of_SomeI: "distinct (map fst m) \<Longrightarrow> (k, v) \<in> set m \<Longrightarrow> map_of m k = Some v"
  by simp

section \<open>Time\<close>

text \<open>
  An instant is a number of nanoseconds since the Unix epoch, a \<open>time.Duration\<close> a number of
  nanoseconds held in 64 bits; \<open>time.Until\<close> saturates there, as \<open>Time.Sub\<close> does.
\<close>

type_synonym time = int
type_synonym duration = int

definition zero_time :: time where
  "zero_time = - 62135596800 * 10 ^ 9"

definition Second :: duration where [hub_consts]: "Second = 10 ^ 9"
definition Hour :: duration where [hub_consts]: "Hour = 3600 * Second"
definition Minute :: duration where [hub_consts]: "Minute = 60 * Second"

definition time_Until :: "time \<Rightarrow> time \<Rightarrow> duration" where
  "time_Until now t = max (- (2 ^ 63)) (min (2 ^ 63 - 1) (t - now))"

lemma time_Until_gt_iff:
  "0 \<le> d \<Longrightarrow> d < 2 ^ 63 - 1 \<Longrightarrow> d < time_Until now t \<longleftrightarrow> now + d < t"
  by (auto simp: time_Until_def)

definition IsZero :: "time option \<Rightarrow> bool" where
  "IsZero t = (case t of None \<Rightarrow> True | Some x \<Rightarrow> x = zero_time)"

section \<open>Generic lemmas\<close>

lemma find_None_filter: "find P xs = None \<longleftrightarrow> filter P xs = []"
  by (induction xs) auto

lemma filter_False_eq: "(\<And>x. x \<in> set xs \<Longrightarrow> \<not> P x) \<Longrightarrow> filter P xs = []"
  by (induction xs) auto

end
