(* ===== verification/Go_Errors.thy ===== *)
theory Go_Errors
  imports Hub_Prelude
begin

text \<open>
  Error values.  The sentinel errors of the three packages are the constructors of three
  datatypes (each \<open>errors.New\<close> makes a value that is equal to itself only), with their texts.
  An error of the Kubernetes client libraries is what the code observes of it: its text and the
  reason that \<open>apierrors.IsNotFound\<close>, \<open>apierrors.IsAlreadyExists\<close> and \<open>meta.IsNoMatchError\<close>
  read.  \<open>fmt.Errorf\<close> keeps its wrapped operands (\<open>%w\<close>) beside the rendered text, and
  \<open>errors.Join\<close> its list.
\<close>

section \<open>Sentinel errors of the packages\<close>

datatype credential_err =
    ErrNoSecretSource | ErrReadingSecret | ErrMissingKubeconfigKey | ErrParsingKubeconfig
  | ErrCertFilePathUsed | ErrClientCertFilePathUsed | ErrTokenFileUsed | ErrUnsupportedAuth
  | ErrSerializingKubeconfig | ErrSettingOwnerRef

primrec credential_err_text :: "credential_err \<Rightarrow> string" where
  "credential_err_text ErrNoSecretSource = ''has no secret credential source''"
| "credential_err_text ErrReadingSecret = ''reading admin kubeconfig secret''"
| "credential_err_text ErrMissingKubeconfigKey =
     ''admin kubeconfig secret missing '' @ [CHR 0x27] @ ''kubeconfig'' @ [CHR 0x27] @ '' key''"
| "credential_err_text ErrParsingKubeconfig = ''parsing kubeconfig from secret''"
| "credential_err_text ErrCertFilePathUsed =
     ''certificate-authority file path; use '' @ [CHR 0x27] @ ''kubectl config view --flatten''
       @ [CHR 0x27] @ '' to convert to inline data''"
| "credential_err_text ErrClientCertFilePathUsed =
     ''client-certificate/key file paths; use '' @ [CHR 0x27] @ ''kubectl config view --flatten''
       @ [CHR 0x27] @ '' to convert to inline data''"
| "credential_err_text ErrTokenFileUsed =
     ''tokenFile which would read the hub pod'' @ [CHR 0x27]
       @ ''s SA token; use a static token instead''"
| "credential_err_text ErrUnsupportedAuth =
     ''must contain a token or client certificate; exec-based auth (e.g. oc login) is not supported''"
| "credential_err_text ErrSerializingKubeconfig = ''serializing standing kubeconfig''"
| "credential_err_text ErrSettingOwnerRef = ''setting controller reference''"

datatype provisioner_err =
    ErrCreatingNamespace | ErrCreatingServiceAccount | ErrCreatingClusterRoleBinding
  | ErrCreatingAdapterServiceAccount | ErrCreatingAdapterRoleBinding

primrec provisioner_err_text :: "provisioner_err \<Rightarrow> string" where
  "provisioner_err_text ErrCreatingNamespace = ''creating namespace''"
| "provisioner_err_text ErrCreatingServiceAccount = ''creating ServiceAccount''"
| "provisioner_err_text ErrCreatingClusterRoleBinding = ''creating ClusterRoleBinding''"
| "provisioner_err_text ErrCreatingAdapterServiceAccount = ''creating alert adapter ServiceAccount''"
| "provisioner_err_text ErrCreatingAdapterRoleBinding = ''creating alert adapter RoleBinding''"

datatype controller_err =
    ErrAddingFinalizer | ErrRemovingFinalizer | ErrUpdatingStatus
  | ErrGettingHubConfig
  | ErrCreatingDiscoveryClient | ErrCheckingServerVersion | ErrCreatingSpokeClient
  | ErrBuildingStandingKubeconfig | ErrCreatingStandingKubeconfig | ErrGettingStandingKubeconfig
  | ErrUpdatingStandingKubeconfig | ErrReadingStandingKubeconfig | ErrMissingStandingKubeconfigKey
  | ErrParsingStandingKubeconfig
  | ErrProvisioningAdapterResources | ErrRequestingAdapterToken | ErrDiscoveringAlertmanagerURL
  | ErrEnsuringAdapterCredential | ErrLabelingSpokeCluster | ErrRestartingAdapter
  | ErrCreatingAdapterCredential | ErrGettingAdapterCredential | ErrUpdatingAdapterCredential
  | ErrGettingSpokeCluster | ErrUpdatingSpokeCluster
  | ErrGettingAlertmanagerRoute | ErrMissingAlertmanagerHost
  | ErrTearingDownAdapterStack | ErrEnsuringAdapterStack
  | ErrCreatingAdapterResource | ErrGettingAdapterResource | ErrUpdatingAdapterResource
  | ErrDeletingAdapterResource | ErrCreatingAdapterDeployment | ErrGettingAdapterDeployment
  | ErrUpdatingAdapterDeployment | ErrGettingAdapterForRestart | ErrUpdatingAdapterForRestart

primrec controller_err_text :: "controller_err \<Rightarrow> string" where
  "controller_err_text ErrAddingFinalizer = ''adding finalizer''"
| "controller_err_text ErrRemovingFinalizer = ''removing finalizer''"
| "controller_err_text ErrUpdatingStatus = ''updating status''"
| "controller_err_text ErrGettingHubConfig = ''getting HubConfig''"
| "controller_err_text ErrCreatingDiscoveryClient = ''creating discovery client''"
| "controller_err_text ErrCheckingServerVersion = ''checking server version''"
| "controller_err_text ErrCreatingSpokeClient = ''creating spoke client''"
| "controller_err_text ErrBuildingStandingKubeconfig = ''building standing kubeconfig''"
| "controller_err_text ErrCreatingStandingKubeconfig = ''creating standing kubeconfig''"
| "controller_err_text ErrGettingStandingKubeconfig = ''getting existing standing kubeconfig''"
| "controller_err_text ErrUpdatingStandingKubeconfig = ''updating standing kubeconfig''"
| "controller_err_text ErrReadingStandingKubeconfig = ''reading standing kubeconfig''"
| "controller_err_text ErrMissingStandingKubeconfigKey = ''standing kubeconfig secret missing key''"
| "controller_err_text ErrParsingStandingKubeconfig = ''parsing standing kubeconfig''"
| "controller_err_text ErrProvisioningAdapterResources = ''provisioning adapter resources''"
| "controller_err_text ErrRequestingAdapterToken = ''requesting adapter SA token''"
| "controller_err_text ErrDiscoveringAlertmanagerURL = ''discovering AlertManager URL''"
| "controller_err_text ErrEnsuringAdapterCredential = ''ensuring adapter credential Secret''"
| "controller_err_text ErrLabelingSpokeCluster = ''labeling SpokeCluster''"
| "controller_err_text ErrRestartingAdapter = ''restarting adapter''"
| "controller_err_text ErrCreatingAdapterCredential = ''creating adapter credential Secret''"
| "controller_err_text ErrGettingAdapterCredential = ''getting existing adapter credential Secret''"
| "controller_err_text ErrUpdatingAdapterCredential = ''updating adapter credential Secret''"
| "controller_err_text ErrGettingSpokeCluster = ''getting SpokeCluster for label update''"
| "controller_err_text ErrUpdatingSpokeCluster = ''updating SpokeCluster labels''"
| "controller_err_text ErrGettingAlertmanagerRoute = ''getting alertmanager-main Route''"
| "controller_err_text ErrMissingAlertmanagerHost = ''alertmanager-main Route missing spec.host''"
| "controller_err_text ErrTearingDownAdapterStack = ''tearing down adapter stack''"
| "controller_err_text ErrEnsuringAdapterStack = ''ensuring adapter stack''"
| "controller_err_text ErrCreatingAdapterResource = ''creating adapter resource''"
| "controller_err_text ErrGettingAdapterResource = ''getting existing adapter resource''"
| "controller_err_text ErrUpdatingAdapterResource = ''updating adapter resource''"
| "controller_err_text ErrDeletingAdapterResource = ''deleting adapter resource''"
| "controller_err_text ErrCreatingAdapterDeployment = ''creating Deployment''"
| "controller_err_text ErrGettingAdapterDeployment = ''getting existing Deployment''"
| "controller_err_text ErrUpdatingAdapterDeployment = ''updating Deployment''"
| "controller_err_text ErrGettingAdapterForRestart = ''getting adapter Deployment for restart''"
| "controller_err_text ErrUpdatingAdapterForRestart = ''updating adapter Deployment for restart''"

section \<open>Error values and wrapping\<close>

datatype status_reason = NotFound | AlreadyExists | NoMatch | OtherReason

record api_error =
  err_reason :: status_reason
  err_text :: string

abbreviation IsNotFound :: "api_error \<Rightarrow> bool" where
  "IsNotFound e \<equiv> err_reason e = NotFound"

abbreviation IsAlreadyExists :: "api_error \<Rightarrow> bool" where
  "IsAlreadyExists e \<equiv> err_reason e = AlreadyExists"

abbreviation IsNoMatchError :: "api_error \<Rightarrow> bool" where
  "IsNoMatchError e \<equiv> err_reason e = NoMatch"

text \<open>The operands of a \<open>fmt.Errorf\<close>: rendered text, or an error under \<open>%w\<close>.\<close>

datatype 'e fmt_part = S string | W 'e

datatype go_error =
    CredErr credential_err
  | ProvErr provisioner_err
  | CtrlErr controller_err
  | ApiErr api_error
  | NewErr string
  | Errorf "go_error fmt_part list"
  | JoinErr "go_error list"

definition join_lines :: "string list \<Rightarrow> string" where
  "join_lines xs = concat (case xs of [] \<Rightarrow> [] | y # ys \<Rightarrow> y # map (\<lambda>z. CHR 0x0A # z) ys)"

text \<open>The method \<open>Error()\<close>.\<close>

primrec error_text :: "go_error \<Rightarrow> string" where
  "error_text (CredErr s) = credential_err_text s"
| "error_text (ProvErr s) = provisioner_err_text s"
| "error_text (CtrlErr s) = controller_err_text s"
| "error_text (ApiErr e) = err_text e"
| "error_text (NewErr s) = s"
| "error_text (Errorf ps) = concat (map (case_fmt_part id id) (map (map_fmt_part error_text) ps))"
| "error_text (JoinErr es) = join_lines (map error_text es)"

text \<open>\<open>errors.Is\<close>: the target is the error or one of those it wraps, at any depth.\<close>

primrec errors_Is :: "go_error \<Rightarrow> go_error \<Rightarrow> bool" where
  "errors_Is (CredErr s) t = (t = CredErr s)"
| "errors_Is (ProvErr s) t = (t = ProvErr s)"
| "errors_Is (CtrlErr s) t = (t = CtrlErr s)"
| "errors_Is (ApiErr e) t = (t = ApiErr e)"
| "errors_Is (NewErr s) t = (t = NewErr s)"
| "errors_Is (Errorf ps) t =
     (t = Errorf ps \<or>
      list_ex (\<lambda>p. case p of S s \<Rightarrow> False | W f \<Rightarrow> f t) (map (map_fmt_part errors_Is) ps))"
| "errors_Is (JoinErr es) t = (t = JoinErr es \<or> list_ex (\<lambda>f. f t) (map errors_Is es))"

text \<open>\<open>errors.Join\<close> of a list that holds no nil error: nil when there is nothing to join.\<close>

definition errors_Join :: "go_error list \<Rightarrow> go_error option" where
  "errors_Join es = (if es = [] then None else Some (JoinErr es))"

lemma errors_Join_None [simp]: "errors_Join es = None \<longleftrightarrow> es = []"
  by (simp add: errors_Join_def)

lemma errors_Is_Join_member: "e \<in> set es \<Longrightarrow> errors_Is e t \<Longrightarrow> errors_Is (JoinErr es) t"
  by (auto simp: list_ex_iff)

lemma errors_Is_Errorf_member:
  "W e \<in> set ps \<Longrightarrow> errors_Is e t \<Longrightarrow> errors_Is (Errorf ps) t"
  by (force simp: list_ex_iff)

end
