(* ===== verification/Kube_Objects.thy ===== *)
theory Kube_Objects
  imports Go_Errors
begin

text \<open>
  The data of the program: the API types of \<^verbatim>\<open>api/v1alpha1\<close>, and the objects of the
  Kubernetes API with the fields the code reads or writes.  Pointer fields are options; a
  \<open>map[string]string\<close> that the code may write to is an option of a \<open>go_map\<close> (nil or not).
\<close>

section \<open>Object metadata\<close>

record owner_reference =
  or_kind :: string
  or_name :: string
  or_uid :: string
  or_controller :: bool

record object_meta =
  m_name :: string
  m_namespace :: string
  m_labels :: "string go_map option"
  m_finalizers :: "string list"
  m_owners :: "owner_reference list"
  m_deletion :: "time option"
  m_generation :: int
  m_version :: string
  m_uid :: string

definition new_meta :: "string \<Rightarrow> string \<Rightarrow> object_meta" where
  "new_meta ns n = \<lparr>m_name = n, m_namespace = ns, m_labels = None, m_finalizers = [],
     m_owners = [], m_deletion = None, m_generation = 0, m_version = [], m_uid = []\<rparr>"

lemma new_meta_sel [simp]:
  "m_name (new_meta ns n) = n" "m_namespace (new_meta ns n) = ns"
  "m_labels (new_meta ns n) = None" "m_finalizers (new_meta ns n) = []"
  "m_owners (new_meta ns n) = []" "m_deletion (new_meta ns n) = None"
  "m_generation (new_meta ns n) = 0" "m_version (new_meta ns n) = []" "m_uid (new_meta ns n) = []"
  by (simp_all add: new_meta_def)

section \<open>Status conditions\<close>

datatype condition_status = ConditionTrue | ConditionFalse | ConditionUnknown

record condition =
  c_type :: string
  c_status :: condition_status
  c_reason :: string
  c_message :: string
  c_observed :: int
  c_transition :: time

section \<open>SpokeCluster and HubConfig\<close>

record secret_credential_source =
  scs_name :: string
  scs_namespace :: string

record mce_credential_source =
  mcs_managedClusterName :: string

record credential_source_spec =
  cs_secret :: "secret_credential_source option"
  cs_mce :: "mce_credential_source option"

record spokecluster_spec =
  sp_apiServer :: string
  sp_credentialSource :: credential_source_spec

record spokecluster =
  sc_meta :: object_meta
  sc_spec :: spokecluster_spec
  sc_conditions :: "condition list"

abbreviation sc_name :: "spokecluster \<Rightarrow> string" where
  "sc_name sc \<equiv> m_name (sc_meta sc)"

abbreviation sc_secret :: "spokecluster \<Rightarrow> secret_credential_source option" where
  "sc_secret sc \<equiv> cs_secret (sp_credentialSource (sc_spec sc))"

abbreviation sc_mce :: "spokecluster \<Rightarrow> mce_credential_source option" where
  "sc_mce sc \<equiv> cs_mce (sp_credentialSource (sc_spec sc))"

definition ClusterRegistryModeSecret :: string where
  [hub_consts]: "ClusterRegistryModeSecret = ''secret''"

definition ClusterRegistryModeMCE :: string where
  [hub_consts]: "ClusterRegistryModeMCE = ''mce''"

record mce_selector =
  ms_matchLabels :: "string go_map option"

record mce_config =
  mc_selector :: "mce_selector option"

record hubconfig_spec =
  hs_mode :: string
  hs_mce :: "mce_config option"

record hubconfig =
  hc_meta :: object_meta
  hc_spec :: hubconfig_spec

text \<open>The validation markers of the CRDs, as the API server enforces them on admission.\<close>

definition spokecluster_valid :: "spokecluster \<Rightarrow> bool" where
  "spokecluster_valid sc \<longleftrightarrow>
     sp_apiServer (sc_spec sc) \<noteq> [] \<and>
     (sc_secret sc \<noteq> None) \<noteq> (sc_mce sc \<noteq> None) \<and>
     (\<forall>r \<in> set_option (sc_secret sc). scs_name r \<noteq> [] \<and> scs_namespace r \<noteq> []) \<and>
     (\<forall>r \<in> set_option (sc_mce sc). mcs_managedClusterName r \<noteq> [])"

definition hubconfig_valid :: "hubconfig \<Rightarrow> bool" where
  "hubconfig_valid hc \<longleftrightarrow>
     m_name (hc_meta hc) = ''cluster'' \<and>
     hs_mode (hc_spec hc) \<in> {ClusterRegistryModeSecret, ClusterRegistryModeMCE}"

section \<open>Core, RBAC and apps objects\<close>

record secret =
  s_meta :: object_meta
  s_data :: "bytes go_map"

record configmap =
  cm_meta :: object_meta
  cm_data :: "string go_map"

record service_port =
  port_name :: string
  port_port :: "32 word"

record service =
  svc_meta :: object_meta
  svc_ports :: "service_port list"

record policy_rule =
  pr_apiGroups :: "string list"
  pr_resources :: "string list"
  pr_resourceNames :: "string list"
  pr_verbs :: "string list"

record role_ref =
  rr_apiGroup :: string
  rr_kind :: string
  rr_name :: string

record subject =
  sub_kind :: string
  sub_name :: string
  sub_namespace :: string

record role =
  role_meta :: object_meta
  role_rules :: "policy_rule list"

record binding =
  b_meta :: object_meta
  b_roleRef :: role_ref
  b_subjects :: "subject list"

datatype env_value = EnvValue string | EnvFieldRef string

record container =
  ctr_name :: string
  ctr_image :: string
  ctr_args :: "string list"
  ctr_requests :: "string go_map"
  ctr_allowPrivilegeEscalation :: "bool option"
  ctr_readOnlyRootFilesystem :: "bool option"
  ctr_dropCapabilities :: "string list"
  ctr_volumeMounts :: "(string \<times> string \<times> bool) list"
  ctr_env :: "(string \<times> env_value) list"

record pod_template =
  pt_labels :: "string go_map option"
  pt_annotations :: "string go_map option"
  pt_serviceAccountName :: string
  pt_runAsNonRoot :: "bool option"
  pt_configMapVolumes :: "(string \<times> string) list"
  pt_containers :: "container list"

record deployment =
  d_meta :: object_meta
  d_replicas :: "32 word option"
  d_selector :: "string go_map"
  d_template :: pod_template

section \<open>Unstructured objects\<close>

text \<open>
  The content of an \<open>unstructured.Unstructured\<close>, and of the manifests the code builds from
  \<open>map[string]interface{}\<close> literals.
\<close>

datatype json =
    JNull
  | JBool bool
  | JInt int
  | JStr string
  | JArr "json list"
  | JObj "(string \<times> json) list"

text \<open>\<open>reflect.DeepEqual\<close> on such values: slices elementwise, maps by their keys.\<close>

primrec deep_equal :: "json \<Rightarrow> json \<Rightarrow> bool" where
  "deep_equal JNull y = (y = JNull)"
| "deep_equal (JBool a) y = (y = JBool a)"
| "deep_equal (JInt a) y = (y = JInt a)"
| "deep_equal (JStr a) y = (y = JStr a)"
| "deep_equal (JArr xs) y =
     (case y of
        JArr ys \<Rightarrow> list_all2 (\<lambda>eq b. eq b) (map deep_equal xs) ys
      | _ \<Rightarrow> False)"
| "deep_equal (JObj m) y =
     (case y of
        JObj n \<Rightarrow> length m = length n \<and>
          list_all (\<lambda>(k, eq). case map_of n k of None \<Rightarrow> False | Some b \<Rightarrow> eq b)
            (map (map_prod id deep_equal) m)
      | _ \<Rightarrow> False)"

text \<open>The representation of Go maps holds one entry for each key, at every level.\<close>

fun json_wf :: "json \<Rightarrow> bool" where
  "json_wf (JArr xs) = list_all json_wf xs"
| "json_wf (JObj m) = (distinct (map fst m) \<and> list_all (\<lambda>(k, a). json_wf a) m)"
| "json_wf _ = True"

lemma deep_equal_refl: "json_wf x \<Longrightarrow> deep_equal x x"
proof (induction x rule: json_wf.induct)
  case (1 xs)
  then show ?case by (auto simp: list_all_iff list_all2_conv_all_nth)
next
  case (2 m)
  then show ?case by (fastforce simp: list_all_iff)
qed auto

record gvk =
  g_group :: string
  g_version :: string
  g_kind :: string

record unstructured =
  u_gvk :: gvk
  u_meta :: object_meta
  u_object :: json

section \<open>Objects of any kind\<close>

datatype kind =
    KSecret | KConfigMap | KService | KServiceAccount | KNamespace | KRole | KRoleBinding
  | KClusterRole | KClusterRoleBinding | KDeployment | KSpokeCluster | KHubConfig
  | KUnstructured gvk

datatype obj =
    OSecret secret
  | OConfigMap configmap
  | OService service
  | OServiceAccount object_meta
  | ONamespace object_meta
  | ORole role
  | ORoleBinding binding
  | OClusterRole role
  | OClusterRoleBinding binding
  | ODeployment deployment
  | OSpokeCluster spokecluster
  | OHubConfig hubconfig
  | OUnstructured unstructured

primrec obj_kind :: "obj \<Rightarrow> kind" where
  "obj_kind (OSecret x) = KSecret"
| "obj_kind (OConfigMap x) = KConfigMap"
| "obj_kind (OService x) = KService"
| "obj_kind (OServiceAccount x) = KServiceAccount"
| "obj_kind (ONamespace x) = KNamespace"
| "obj_kind (ORole x) = KRole"
| "obj_kind (ORoleBinding x) = KRoleBinding"
| "obj_kind (OClusterRole x) = KClusterRole"
| "obj_kind (OClusterRoleBinding x) = KClusterRoleBinding"
| "obj_kind (ODeployment x) = KDeployment"
| "obj_kind (OSpokeCluster x) = KSpokeCluster"
| "obj_kind (OHubConfig x) = KHubConfig"
| "obj_kind (OUnstructured x) = KUnstructured (u_gvk x)"

primrec obj_meta :: "obj \<Rightarrow> object_meta" where
  "obj_meta (OSecret x) = s_meta x"
| "obj_meta (OConfigMap x) = cm_meta x"
| "obj_meta (OService x) = svc_meta x"
| "obj_meta (OServiceAccount x) = x"
| "obj_meta (ONamespace x) = x"
| "obj_meta (ORole x) = role_meta x"
| "obj_meta (ORoleBinding x) = b_meta x"
| "obj_meta (OClusterRole x) = role_meta x"
| "obj_meta (OClusterRoleBinding x) = b_meta x"
| "obj_meta (ODeployment x) = d_meta x"
| "obj_meta (OSpokeCluster x) = sc_meta x"
| "obj_meta (OHubConfig x) = hc_meta x"
| "obj_meta (OUnstructured x) = u_meta x"

primrec map_meta :: "(object_meta \<Rightarrow> object_meta) \<Rightarrow> obj \<Rightarrow> obj" where
  "map_meta f (OSecret x) = OSecret (x\<lparr>s_meta := f (s_meta x)\<rparr>)"
| "map_meta f (OConfigMap x) = OConfigMap (x\<lparr>cm_meta := f (cm_meta x)\<rparr>)"
| "map_meta f (OService x) = OService (x\<lparr>svc_meta := f (svc_meta x)\<rparr>)"
| "map_meta f (OServiceAccount x) = OServiceAccount (f x)"
| "map_meta f (ONamespace x) = ONamespace (f x)"
| "map_meta f (ORole x) = ORole (x\<lparr>role_meta := f (role_meta x)\<rparr>)"
| "map_meta f (ORoleBinding x) = ORoleBinding (x\<lparr>b_meta := f (b_meta x)\<rparr>)"
| "map_meta f (OClusterRole x) = OClusterRole (x\<lparr>role_meta := f (role_meta x)\<rparr>)"
| "map_meta f (OClusterRoleBinding x) = OClusterRoleBinding (x\<lparr>b_meta := f (b_meta x)\<rparr>)"
| "map_meta f (ODeployment x) = ODeployment (x\<lparr>d_meta := f (d_meta x)\<rparr>)"
| "map_meta f (OSpokeCluster x) = OSpokeCluster (x\<lparr>sc_meta := f (sc_meta x)\<rparr>)"
| "map_meta f (OHubConfig x) = OHubConfig (x\<lparr>hc_meta := f (hc_meta x)\<rparr>)"
| "map_meta f (OUnstructured x) = OUnstructured (x\<lparr>u_meta := f (u_meta x)\<rparr>)"

text \<open>A \<open>client.ObjectKey\<close>, and the key of an object.\<close>

record object_key =
  k_namespace :: string
  k_name :: string

abbreviation ObjectKey :: "string \<Rightarrow> string \<Rightarrow> object_key" where
  "ObjectKey ns n \<equiv> \<lparr>k_namespace = ns, k_name = n\<rparr>"

definition ObjectKeyFromObject :: "obj \<Rightarrow> object_key" where
  "ObjectKeyFromObject x = ObjectKey (m_namespace (obj_meta x)) (m_name (obj_meta x))"

lemma map_meta_kind [simp]: "obj_kind (map_meta f x) = obj_kind x"
  by (cases x) simp_all

lemma map_meta_meta [simp]: "obj_meta (map_meta f x) = f (obj_meta x)"
  by (cases x) simp_all

lemma map_meta_comp [simp]: "map_meta f (map_meta g x) = map_meta (\<lambda>m. f (g m)) x"
  by (cases x) simp_all

lemma map_meta_id: "f (obj_meta x) = obj_meta x \<Longrightarrow> map_meta f x = x"
  by (cases x) simp_all

section \<open>Client configurations\<close>

text \<open>\<open>rest.Config\<close> and \<open>clientcmdapi.Config\<close>, with the fields the code reads or writes.\<close>

record rest_config =
  rc_Host :: string
  rc_BearerToken :: string
  rc_CAData :: bytes
  rc_CertData :: bytes
  rc_KeyData :: bytes
  rc_Insecure :: bool
  rc_Timeout :: duration

record kube_cluster =
  cl_Server :: string
  cl_CertificateAuthority :: string
  cl_CertificateAuthorityData :: bytes
  cl_InsecureSkipTLSVerify :: bool

record kube_auth_info =
  au_Token :: string
  au_TokenFile :: string
  au_ClientCertificate :: string
  au_ClientCertificateData :: bytes
  au_ClientKey :: string
  au_ClientKeyData :: bytes

record kube_context =
  cx_Cluster :: string
  cx_AuthInfo :: string

record kube_config =
  kc_Clusters :: "kube_cluster go_map"
  kc_AuthInfos :: "kube_auth_info go_map"
  kc_Contexts :: "kube_context go_map"
  kc_CurrentContext :: string

end
