(* ===== verification/Kube_Interaction.thy ===== *)
theory Kube_Interaction
  imports Kube_Objects
begin

text \<open>
  Programs that talk to API servers.  The clusters, the network and the clock are not code of
  the repository: an operation of the source is a tree that issues one request at a time and
  continues with whatever response comes back.  Nothing is fixed about the responses: stale
  reads, failures and the effects of concurrent writers are all among them.  \<open>exec\<close> relates a
  program to its finished runs (requests with their responses, and the outcome), \<open>valid\<close> says
  that every run meets a postcondition, and \<open>run\<close> runs a program against a given server.
\<close>

section \<open>Requests and responses\<close>

text \<open>The hub, or the spoke that a client configuration leads to.\<close>

datatype target = Hub | Spoke rest_config

datatype req =
    Get target kind object_key
  | ListObjs kind "string go_map"  \<comment> \<open>with \<open>client.MatchingLabels\<close>\<close>
  | ApiReaderList kind  \<comment> \<open>the uncached reader\<close>
  | Create target obj
  | Update target obj
  | Delete target kind object_key
  | StatusPatch spokecluster spokecluster  \<comment> \<open>\<open>Status().Patch(new, MergeFrom(base))\<close>: base, new\<close>
  | NewClient rest_config
  | NewDiscoveryClient rest_config
  | ServerVersion rest_config
  | NewClientset rest_config
  | CreateToken rest_config string string int  \<comment> \<open>namespace, service account, seconds\<close>
  | Eventf string string string string  \<comment> \<open>object, type, reason, message\<close>
  | RegisterWatch gvk
  | Now

datatype resp =
    ROk
  | RErr api_error
  | RObj obj
  | RList "obj list"
  | RTime time
  | RToken string time

type_synonym event = "req \<times> resp"

text \<open>Whether a request can change a cluster.\<close>

primrec is_write :: "req \<Rightarrow> bool" where
  "is_write (Get c k key) = False"
| "is_write (ListObjs k ls) = False"
| "is_write (ApiReaderList k) = False"
| "is_write (Create c x) = True"
| "is_write (Update c x) = True"
| "is_write (Delete c k key) = True"
| "is_write (StatusPatch b n) = True"
| "is_write (NewClient cfg) = False"
| "is_write (NewDiscoveryClient cfg) = False"
| "is_write (ServerVersion cfg) = False"
| "is_write (NewClientset cfg) = False"
| "is_write (CreateToken cfg ns sa n) = True"
| "is_write (Eventf a b c d) = True"
| "is_write (RegisterWatch g) = False"
| "is_write Now = False"

section \<open>Programs\<close>

datatype 'a prog =
    Ret 'a
  | Panic string
  | Vis req "resp \<Rightarrow> 'a prog"

datatype 'a outcome = Done 'a | Panicked string

primrec and_then :: "'a prog \<Rightarrow> ('a \<Rightarrow> 'b prog) \<Rightarrow> 'b prog" where
  "and_then (Ret x) f = f x"
| "and_then (Panic s) f = Panic s"
| "and_then (Vis q k) f = Vis q (\<lambda>r. and_then (k r) f)"

lemma and_then_assoc [simp]: "and_then (and_then p f) g = and_then p (\<lambda>x. and_then (f x) g)"
  by (induction p) auto

lemma and_then_Ret [simp]: "and_then p Ret = p"
  by (induction p) auto

subsection \<open>Runs\<close>

inductive exec :: "'a prog \<Rightarrow> event list \<Rightarrow> 'a outcome \<Rightarrow> bool" where
  exec_Ret: "exec (Ret x) [] (Done x)"
| exec_Panic: "exec (Panic s) [] (Panicked s)"
| exec_Vis: "exec (k r) t z \<Longrightarrow> exec (Vis q k) ((q, r) # t) z"

inductive_simps exec_Ret_iff [simp]: "exec (Ret x) t z"
inductive_simps exec_Panic_iff [simp]: "exec (Panic s) t z"
inductive_simps exec_Vis_iff: "exec (Vis q k) t z"

lemma exec_and_then_Done:
  "exec (and_then p f) t z \<longleftrightarrow>
     (\<exists>t1 t2 x. t = t1 @ t2 \<and> exec p t1 (Done x) \<and> exec (f x) t2 z) \<or>
     (\<exists>s. exec p t (Panicked s) \<and> z = Panicked s)"
proof (induction p arbitrary: t)
  case (Vis q k)
  show ?case (is "?l \<longleftrightarrow> ?r")
  proof
    assume ?l
    then obtain r t' where t: "t = (q, r) # t'" and e: "exec (and_then (k r) f) t' z"
      by (auto simp: exec_Vis_iff)
    from e Vis.IH [OF rangeI, of r t'] consider
        t1 t2 x where "t' = t1 @ t2" "exec (k r) t1 (Done x)" "exec (f x) t2 z"
      | s where "exec (k r) t' (Panicked s)" "z = Panicked s" by blast
    then show ?r
    proof cases
      case 1
      with t have "t = ((q, r) # t1) @ t2" "exec (Vis q k) ((q, r) # t1) (Done x)"
        by (auto intro: exec.intros)
      with 1 show ?thesis by blast
    next
      case 2
      with t show ?thesis by (auto intro: exec.intros)
    qed
  next
    assume ?r
    then consider
        t1 t2 x where "t = t1 @ t2" "exec (Vis q k) t1 (Done x)" "exec (f x) t2 z"
      | s where "exec (Vis q k) t (Panicked s)" "z = Panicked s" by blast
    then show ?l
    proof cases
      case 1
      then obtain r t' where t1: "t1 = (q, r) # t'" and "exec (k r) t' (Done x)"
        by (auto simp: exec_Vis_iff)
      with 1(3) have "exec (and_then (k r) f) (t' @ t2) z"
        using Vis.IH [OF rangeI, of r "t' @ t2"] by blast
      then show ?thesis by (simp add: 1(1) t1 exec.intros)
    next
      case 2
      then show ?thesis
        using Vis.IH [OF rangeI] by (auto simp: exec_Vis_iff)
    qed
  qed
qed auto

lemma exec_exists: "\<exists>t z. exec p t z"
proof (induction p)
  case (Vis q k)
  then obtain t z where "exec (k ROk) t z" by blast
  then show ?case by (blast intro: exec.intros)
qed (auto intro: exec.intros)

subsection \<open>Postconditions of all runs\<close>

definition valid :: "'a prog \<Rightarrow> (event list \<Rightarrow> 'a outcome \<Rightarrow> bool) \<Rightarrow> bool" where
  "valid p Q \<longleftrightarrow> (\<forall>t z. exec p t z \<longrightarrow> Q t z)"

lemma valid_Ret [simp]: "valid (Ret x) Q \<longleftrightarrow> Q [] (Done x)"
  by (simp add: valid_def)

lemma valid_Panic [simp]: "valid (Panic s) Q \<longleftrightarrow> Q [] (Panicked s)"
  by (simp add: valid_def)

lemma valid_Vis [simp]: "valid (Vis q k) Q \<longleftrightarrow> (\<forall>r. valid (k r) (\<lambda>t. Q ((q, r) # t)))"
  by (auto simp: valid_def exec_Vis_iff)

lemma valid_and_then:
  "valid (and_then p f) Q \<longleftrightarrow>
     valid p (\<lambda>t z. case z of
       Done x \<Rightarrow> valid (f x) (\<lambda>t'. Q (t @ t'))
     | Panicked s \<Rightarrow> Q t (Panicked s))"
  unfolding valid_def exec_and_then_Done by (fastforce split: outcome.splits)

lemma valid_mono: "valid p Q \<Longrightarrow> (\<And>t z. Q t z \<Longrightarrow> R t z) \<Longrightarrow> valid p R"
  by (auto simp: valid_def)

lemma valid_conj: "valid p (\<lambda>t z. Q t z \<and> R t z) \<longleftrightarrow> valid p Q \<and> valid p R"
  by (auto simp: valid_def)

lemma validD: "valid p Q \<Longrightarrow> exec p t z \<Longrightarrow> Q t z"
  by (simp add: valid_def)

lemma valid_seq:
  assumes "valid p P"
    and "\<And>t x. P t (Done x) \<Longrightarrow> valid (f x) (\<lambda>t'. Q (t @ t'))"
    and "\<And>t s. P t (Panicked s) \<Longrightarrow> Q t (Panicked s)"
  shows "valid (and_then p f) Q"
  unfolding valid_and_then by (rule valid_mono [OF assms(1)]) (auto split: outcome.split intro: assms(2,3))

subsection \<open>Which requests a program can issue, and whether it can panic\<close>

primrec all_reqs :: "(req \<Rightarrow> bool) \<Rightarrow> 'a prog \<Rightarrow> bool" where
  "all_reqs P (Ret x) = True"
| "all_reqs P (Panic s) = True"
| "all_reqs P (Vis q k) = (P q \<and> (\<forall>r. all_reqs P (k r)))"

primrec never_panics :: "'a prog \<Rightarrow> bool" where
  "never_panics (Ret x) = True"
| "never_panics (Panic s) = False"
| "never_panics (Vis q k) = (\<forall>r. never_panics (k r))"

abbreviation read_only :: "'a prog \<Rightarrow> bool" where
  "read_only p \<equiv> all_reqs (\<lambda>q. \<not> is_write q) p"

lemma all_reqs_and_then: "all_reqs P p \<Longrightarrow> (\<And>x. all_reqs P (f x)) \<Longrightarrow> all_reqs P (and_then p f)"
  by (induction p) auto

lemma all_reqs_seq:
  "all_reqs P p \<Longrightarrow> (\<And>t x. exec p t (Done x) \<Longrightarrow> all_reqs P (f x)) \<Longrightarrow> all_reqs P (and_then p f)"
proof (induction p)
  case (Vis q k)
  have "all_reqs P (and_then (k a) f)" for a
    by (rule Vis.IH [OF rangeI]) (use Vis.prems(1) in simp, rule Vis.prems(2), erule exec_Vis)
  with Vis.prems show ?case by simp
qed (auto intro: exec_Ret)

lemma never_panics_and_then:
  "never_panics p \<Longrightarrow> (\<And>x. never_panics (f x)) \<Longrightarrow> never_panics (and_then p f)"
  by (induction p) auto

lemma all_reqs_mono: "all_reqs P p \<Longrightarrow> (\<And>q. P q \<Longrightarrow> R q) \<Longrightarrow> all_reqs R p"
  by (induction p) auto

lemma all_reqs_exec: "exec p t z \<Longrightarrow> all_reqs P p \<Longrightarrow> (q, r) \<in> set t \<Longrightarrow> P q"
  by (induction rule: exec.induct) auto

lemma never_panics_exec: "never_panics p \<Longrightarrow> \<not> exec p t (Panicked s)"
  by (induction p arbitrary: t) (auto simp: exec_Vis_iff)

lemma never_panics_iff: "never_panics p \<longleftrightarrow> (\<forall>t s. \<not> exec p t (Panicked s))"
proof (induction p)
  case (Vis q k)
  then show ?case by (auto simp: exec_Vis_iff)
qed auto

lemma exec_seq:
  "never_panics p \<Longrightarrow> exec (and_then p f) t z \<longleftrightarrow>
    (\<exists>t1 t2 x. t = t1 @ t2 \<and> exec p t1 (Done x) \<and> exec (f x) t2 z)"
  using never_panics_exec [of p t] by (auto simp: exec_and_then_Done)

lemma exec_seq_Ret:
  "never_panics p \<Longrightarrow> exec (and_then p (\<lambda>x. Ret (f x))) t z \<longleftrightarrow> (\<exists>x. exec p t (Done x) \<and> z = Done (f x))"
  by (auto simp: exec_seq)

subsection \<open>Requests justified by what was seen before\<close>

text \<open>
  \<open>guarded ok S p\<close>: whatever the answers, each request of \<open>p\<close> satisfies \<open>ok\<close> relative to the events
  of \<open>S\<close> and those of the run before it.
\<close>

primrec guarded :: "(event set \<Rightarrow> req \<Rightarrow> bool) \<Rightarrow> event set \<Rightarrow> 'a prog \<Rightarrow> bool" where
  "guarded ok E (Ret x) = True"
| "guarded ok E (Panic s) = True"
| "guarded ok E (Vis q k) = (ok E q \<and> (\<forall>r. guarded ok (insert (q, r) E) (k r)))"

lemma guarded_exec:
  "exec p t z \<Longrightarrow> guarded ok E p \<Longrightarrow> t = t1 @ (q, r) # t2 \<Longrightarrow> ok (E \<union> set t1) q"
proof (induction arbitrary: E t1 rule: exec.induct)
  case (exec_Vis k r' t z q')
  show ?case
  proof (cases t1)
    case Nil
    with exec_Vis.prems show ?thesis by simp
  next
    case (Cons e t1')
    with exec_Vis.prems exec_Vis.IH [of "insert (q', r') E" t1'] show ?thesis by auto
  qed
qed simp_all

lemma guarded_seq:
  assumes "guarded ok E p" and "\<And>t x. exec p t (Done x) \<Longrightarrow> guarded ok (E \<union> set t) (f x)"
  shows "guarded ok E (and_then p f)"
  using assms
proof (induction p arbitrary: E)
  case (Ret x)
  from Ret.prems(2) [of "[]" x] show ?case by simp
next
  case (Vis q k)
  have "guarded ok (insert (q, r) E) (and_then (k r) f)" for r
  proof (rule Vis.IH [OF rangeI])
    show "guarded ok (insert (q, r) E) (k r)" using Vis.prems(1) by simp
    show "guarded ok (insert (q, r) E \<union> set t) (f x)" if "exec (k r) t (Done x)" for t x
      using Vis.prems(2) [of "(q, r) # t" x] that by (simp add: exec_Vis)
  qed
  with Vis.prems(1) show ?case by simp
qed simp

lemma guarded_mono_events:
  assumes "\<And>E E' q. E \<subseteq> E' \<Longrightarrow> ok E q \<Longrightarrow> ok E' q"
  shows "guarded ok E p \<Longrightarrow> E \<subseteq> E' \<Longrightarrow> guarded ok E' p"
proof (induction p arbitrary: E E')
  case (Vis q k)
  have "guarded ok (insert (q, r) E') (k r)" for r
    by (rule Vis.IH [OF rangeI, of "insert (q, r) E"]) (use Vis.prems in auto)
  moreover have "ok E' q" by (rule assms [OF Vis.prems(2)]) (use Vis.prems(1) in simp)
  ultimately show ?case by simp
qed simp_all

lemma guarded_weaken: "guarded ok E p \<Longrightarrow> (\<And>E q. ok E q \<Longrightarrow> ok' E q) \<Longrightarrow> guarded ok' E p"
  by (induction p arbitrary: E) auto

lemma guarded_all_reqs: "all_reqs P p \<Longrightarrow> (\<And>E q. P q \<Longrightarrow> ok E q) \<Longrightarrow> guarded ok E p"
  by (induction p arbitrary: E) auto

lemmas prog_safe_intros = all_reqs_and_then never_panics_and_then

subsection \<open>Running against a server\<close>

primrec run :: "('w \<Rightarrow> req \<Rightarrow> resp \<times> 'w) \<Rightarrow> 'a prog \<Rightarrow> 'w \<Rightarrow> 'a outcome \<times> 'w" where
  "run H (Ret x) w = (Done x, w)"
| "run H (Panic s) w = (Panicked s, w)"
| "run H (Vis q k) w = (case H w q of (r, w') \<Rightarrow> run H (k r) w')"

lemma run_and_then [simp]:
  "run H (and_then p f) w =
     (case run H p w of
        (Done x, w') \<Rightarrow> run H (f x) w'
      | (Panicked s, w') \<Rightarrow> (Panicked s, w'))"
  by (induction p arbitrary: w) (auto split: prod.split)

text \<open>A run against a server is one of the runs.\<close>

primrec run_trace :: "('w \<Rightarrow> req \<Rightarrow> resp \<times> 'w) \<Rightarrow> 'a prog \<Rightarrow> 'w \<Rightarrow> event list" where
  "run_trace H (Ret x) w = []"
| "run_trace H (Panic s) w = []"
| "run_trace H (Vis q k) w = (case H w q of (r, w') \<Rightarrow> (q, r) # run_trace H (k r) w')"

lemma exec_run: "exec p (run_trace H p w) (fst (run H p w))"
  by (induction p arbitrary: w) (auto intro: exec.intros split: prod.split)

lemma run_trace_and_then [simp]:
  "run_trace H (and_then p f) w =
     run_trace H p w @ (case run H p w of (Done x, w') \<Rightarrow> run_trace H (f x) w' | _ \<Rightarrow> [])"
  by (induction p arbitrary: w) (auto split: prod.split)

section \<open>The operations of the client libraries\<close>

text \<open>
  Each wrapper is one request whose response is read the way the typed client does: an object of
  another type than the one asked for is a decoding error.
\<close>

definition decode_error :: api_error where
  "decode_error = \<lparr>err_reason = OtherReason, err_text = ''cannot decode the response''\<rparr>"

primrec resp_error :: "resp \<Rightarrow> api_error option" where
  "resp_error (RErr e) = Some e"
| "resp_error ROk = None"
| "resp_error (RObj x) = None"
| "resp_error (RList xs) = None"
| "resp_error (RTime t) = None"
| "resp_error (RToken s t) = None"

definition resp_obj :: "(obj \<Rightarrow> 'a option) \<Rightarrow> resp \<Rightarrow> api_error + 'a" where
  "resp_obj dec r =
    (case r of
       RErr e \<Rightarrow> Inl e
     | RObj x \<Rightarrow> (case dec x of Some a \<Rightarrow> Inr a | None \<Rightarrow> Inl decode_error)
     | _ \<Rightarrow> Inl decode_error)"

definition resp_list :: "(obj \<Rightarrow> 'a option) \<Rightarrow> resp \<Rightarrow> api_error + 'a list" where
  "resp_list dec r =
    (case r of
       RErr e \<Rightarrow> Inl e
     | RList xs \<Rightarrow> (case those (map dec xs) of Some l \<Rightarrow> Inr l | None \<Rightarrow> Inl decode_error)
     | _ \<Rightarrow> Inl decode_error)"

text \<open>The typed decodings.\<close>

definition as_secret :: "obj \<Rightarrow> secret option" where
  "as_secret x = (case x of OSecret s \<Rightarrow> Some s | _ \<Rightarrow> None)"
definition as_configmap :: "obj \<Rightarrow> configmap option" where
  "as_configmap x = (case x of OConfigMap s \<Rightarrow> Some s | _ \<Rightarrow> None)"
definition as_service :: "obj \<Rightarrow> service option" where
  "as_service x = (case x of OService s \<Rightarrow> Some s | _ \<Rightarrow> None)"
definition as_deployment :: "obj \<Rightarrow> deployment option" where
  "as_deployment x = (case x of ODeployment s \<Rightarrow> Some s | _ \<Rightarrow> None)"
definition as_spokecluster :: "obj \<Rightarrow> spokecluster option" where
  "as_spokecluster x = (case x of OSpokeCluster s \<Rightarrow> Some s | _ \<Rightarrow> None)"
definition as_hubconfig :: "obj \<Rightarrow> hubconfig option" where
  "as_hubconfig x = (case x of OHubConfig s \<Rightarrow> Some s | _ \<Rightarrow> None)"
definition as_unstructured :: "obj \<Rightarrow> unstructured option" where
  "as_unstructured x = (case x of OUnstructured s \<Rightarrow> Some s | _ \<Rightarrow> None)"
text \<open>Reading into an unstructured object that already has its type.\<close>

definition as_gvk :: "gvk \<Rightarrow> obj \<Rightarrow> unstructured option" where
  "as_gvk g x = (case x of OUnstructured s \<Rightarrow> if u_gvk s = g then Some s else None | _ \<Rightarrow> None)"
definition as_kind :: "kind \<Rightarrow> obj \<Rightarrow> obj option" where
  "as_kind k x = (if obj_kind x = k then Some x else None)"

lemmas decodings = as_secret_def as_configmap_def as_service_def as_deployment_def
  as_spokecluster_def as_hubconfig_def as_unstructured_def as_gvk_def as_kind_def

definition client_get :: "target \<Rightarrow> kind \<Rightarrow> (obj \<Rightarrow> 'a option) \<Rightarrow> object_key \<Rightarrow> (api_error + 'a) prog" where
  "client_get c k dec key = Vis (Get c k key) (\<lambda>r. Ret (resp_obj dec r))"

definition get_secret :: "object_key \<Rightarrow> (api_error + secret) prog" where
  [hub_ops]: "get_secret key = client_get Hub KSecret as_secret key"

definition get_spokecluster :: "object_key \<Rightarrow> (api_error + spokecluster) prog" where
  [hub_ops]: "get_spokecluster key = client_get Hub KSpokeCluster as_spokecluster key"

definition get_hubconfig :: "object_key \<Rightarrow> (api_error + hubconfig) prog" where
  [hub_ops]: "get_hubconfig key = client_get Hub KHubConfig as_hubconfig key"

definition get_deployment :: "object_key \<Rightarrow> (api_error + deployment) prog" where
  [hub_ops]: "get_deployment key = client_get Hub KDeployment as_deployment key"

definition get_unstructured :: "target \<Rightarrow> gvk \<Rightarrow> object_key \<Rightarrow> (api_error + unstructured) prog" where
  [hub_ops]: "get_unstructured c g key = client_get c (KUnstructured g) (as_gvk g) key"

definition client_list :: "kind \<Rightarrow> (obj \<Rightarrow> 'a option) \<Rightarrow> string go_map \<Rightarrow> (api_error + 'a list) prog" where
  "client_list k dec ls = Vis (ListObjs k ls) (\<lambda>r. Ret (resp_list dec r))"

definition api_reader_list :: "kind \<Rightarrow> (obj \<Rightarrow> 'a option) \<Rightarrow> (api_error + 'a list) prog" where
  "api_reader_list k dec = Vis (ApiReaderList k) (\<lambda>r. Ret (resp_list dec r))"

text \<open>\<open>Create\<close> and \<open>Delete\<close>: nil or the error.\<close>

definition client_create :: "target \<Rightarrow> obj \<Rightarrow> (api_error option) prog" where
  "client_create c x = Vis (Create c x) (\<lambda>r. Ret (resp_error r))"

definition client_delete :: "target \<Rightarrow> kind \<Rightarrow> object_key \<Rightarrow> (api_error option) prog" where
  "client_delete c k key = Vis (Delete c k key) (\<lambda>r. Ret (resp_error r))"

text \<open>
  \<open>Update\<close> writes the server's answer back into its argument: the error, or the object as it is
  after the call.
\<close>

definition client_update :: "target \<Rightarrow> obj \<Rightarrow> (api_error + obj) prog" where
  "client_update c x = Vis (Update c x) (\<lambda>r. Ret
     (case r of RErr e \<Rightarrow> Inl e | RObj y \<Rightarrow> (if obj_kind y = obj_kind x then Inr y else Inr x)
      | _ \<Rightarrow> Inr x))"

definition client_status_patch :: "spokecluster \<Rightarrow> spokecluster \<Rightarrow> (api_error option) prog" where
  "client_status_patch base x = Vis (StatusPatch base x) (\<lambda>r. Ret (resp_error r))"

definition get_now :: "time prog" where
  "get_now = Vis Now (\<lambda>r. Ret (case r of RTime t \<Rightarrow> t | _ \<Rightarrow> zero_time))"

lemmas client_ops = client_get_def client_list_def api_reader_list_def client_create_def client_delete_def
  client_update_def client_status_patch_def get_now_def

text \<open>Writing to a map that may be nil, and following a pointer that may be nil.\<close>

definition map_put :: "'v go_map option \<Rightarrow> string \<Rightarrow> 'v \<Rightarrow> ('v go_map option) prog" where
  "map_put m k v =
    (case m of
       None \<Rightarrow> Panic ''assignment to entry in nil map''
     | Some l \<Rightarrow> Ret (Some (AList.update k v l)))"

definition deref :: "'a option \<Rightarrow> 'a prog" where
  "deref p = (case p of None \<Rightarrow> Panic ''nil pointer dereference'' | Some x \<Rightarrow> Ret x)"

lemma map_put_Some [simp]: "map_put (Some l) k v = Ret (Some (AList.update k v l))"
  by (simp add: map_put_def)

lemma deref_Some [simp]: "deref (Some x) = Ret x"
  by (simp add: deref_def)

lemma never_panics_clients [simp]:
  "never_panics (client_get c k dec key)" "never_panics (client_list k dec' ls)"
  "never_panics (client_create c x)" "never_panics (client_delete c k key)"
  "never_panics (client_update c x)" "never_panics (client_status_patch b n)"
  "never_panics get_now" "never_panics (api_reader_list k dec')"
  by (simp_all add: client_ops)

lemma all_reqs_clients [simp]:
  "all_reqs P (client_get c k dec key) \<longleftrightarrow> P (Get c k key)"
  "all_reqs P (client_list k dec' ls) \<longleftrightarrow> P (ListObjs k ls)"
  "all_reqs P (client_create c x) \<longleftrightarrow> P (Create c x)"
  "all_reqs P (client_delete c k key) \<longleftrightarrow> P (Delete c k key)"
  "all_reqs P (client_update c x) \<longleftrightarrow> P (Update c x)"
  "all_reqs P (client_status_patch b n) \<longleftrightarrow> P (StatusPatch b n)"
  "all_reqs P get_now \<longleftrightarrow> P Now"
  "all_reqs P (api_reader_list k dec') \<longleftrightarrow> P (ApiReaderList k)"
  by (simp_all add: client_ops)

lemma guarded_clients [simp]:
  "guarded ok E (and_then (client_get c k dec key) f) \<longleftrightarrow>
    ok E (Get c k key) \<and> (\<forall>r. guarded ok (insert (Get c k key, r) E) (f (resp_obj dec r)))"
  "guarded ok E (and_then (client_list k dec' ls) f') \<longleftrightarrow>
    ok E (ListObjs k ls) \<and> (\<forall>r. guarded ok (insert (ListObjs k ls, r) E) (f' (resp_list dec' r)))"
  "guarded ok E (and_then (api_reader_list k dec') f') \<longleftrightarrow>
    ok E (ApiReaderList k) \<and> (\<forall>r. guarded ok (insert (ApiReaderList k, r) E) (f' (resp_list dec' r)))"
  "guarded ok E (and_then (client_create c x) g) \<longleftrightarrow>
    ok E (Create c x) \<and> (\<forall>r. guarded ok (insert (Create c x, r) E) (g (resp_error r)))"
  "guarded ok E (and_then (client_delete c k key) g) \<longleftrightarrow>
    ok E (Delete c k key) \<and> (\<forall>r. guarded ok (insert (Delete c k key, r) E) (g (resp_error r)))"
  "guarded ok E (and_then (client_status_patch b n) g) \<longleftrightarrow>
    ok E (StatusPatch b n) \<and> (\<forall>r. guarded ok (insert (StatusPatch b n, r) E) (g (resp_error r)))"
  by (simp_all add: client_ops)

lemma exec_get:
  "exec (and_then (client_get c k dec key) f) t z \<longleftrightarrow>
    (\<exists>r t'. t = (Get c k key, r) # t' \<and> exec (f (resp_obj dec r)) t' z)"
  by (auto simp: client_get_def exec_Vis_iff)

lemma exec_list:
  "exec (and_then (client_list k dec ls) f) t z \<longleftrightarrow>
    (\<exists>r t'. t = (ListObjs k ls, r) # t' \<and> exec (f (resp_list dec r)) t' z)"
  by (auto simp: client_list_def exec_Vis_iff)

lemma exec_api_reader_list:
  "exec (and_then (api_reader_list k dec) f) t z \<longleftrightarrow>
    (\<exists>r t'. t = (ApiReaderList k, r) # t' \<and> exec (f (resp_list dec r)) t' z)"
  by (auto simp: api_reader_list_def exec_Vis_iff)

lemma resp_obj_Inr: "resp_obj dec r = Inr a \<longleftrightarrow> (\<exists>x. r = RObj x \<and> dec x = Some a)"
  by (auto simp: resp_obj_def split: resp.splits option.splits)

lemma as_secret_Some [simp]: "as_secret x = Some s \<longleftrightarrow> x = OSecret s"
  by (cases x) (auto simp: as_secret_def)

lemma as_service_Some [simp]: "as_service x = Some s \<longleftrightarrow> x = OService s"
  by (cases x) (auto simp: as_service_def)

lemma as_configmap_Some [simp]: "as_configmap x = Some s \<longleftrightarrow> x = OConfigMap s"
  by (cases x) (auto simp: as_configmap_def)

lemma as_deployment_Some [simp]: "as_deployment x = Some s \<longleftrightarrow> x = ODeployment s"
  by (cases x) (auto simp: as_deployment_def)

lemma as_spokecluster_Some [simp]: "as_spokecluster x = Some s \<longleftrightarrow> x = OSpokeCluster s"
  by (cases x) (auto simp: as_spokecluster_def)

lemma as_hubconfig_Some [simp]: "as_hubconfig x = Some s \<longleftrightarrow> x = OHubConfig s"
  by (cases x) (auto simp: as_hubconfig_def)

lemma as_gvk_Some [simp]: "as_gvk g x = Some s \<longleftrightarrow> x = OUnstructured s \<and> u_gvk s = g"
  by (cases x) (auto simp: as_gvk_def)
lemma as_unstructured_Some [simp]: "as_unstructured x = Some s \<longleftrightarrow> x = OUnstructured s"
  by (cases x) (auto simp: as_unstructured_def)

lemma as_kind_Some [simp]: "as_kind k x = Some y \<longleftrightarrow> y = x \<and> obj_kind x = k"
  by (auto simp: as_kind_def)

lemma resp_obj_Inl: "resp_obj dec r = Inl e \<longleftrightarrow>
    r = RErr e \<or> (e = decode_error \<and> (\<forall>e'. r \<noteq> RErr e') \<and> (\<forall>x. r = RObj x \<longrightarrow> dec x = None))"
  by (auto simp: resp_obj_def split: resp.splits option.splits)

lemma resp_obj_simps [simp]:
  "resp_obj dec (RErr e) = Inl e"
  "resp_obj dec (RObj x) = (case dec x of Some a \<Rightarrow> Inr a | None \<Rightarrow> Inl decode_error)"
  by (simp_all add: resp_obj_def)

lemma decode_error_reason [simp]: "err_reason decode_error = OtherReason"
  by (simp add: decode_error_def)

lemma decode_hits [simp]:
  "as_secret (OSecret s) = Some s" "as_configmap (OConfigMap c) = Some c"
  "as_service (OService v) = Some v" "as_deployment (ODeployment d) = Some d"
  "as_spokecluster (OSpokeCluster p) = Some p" "as_hubconfig (OHubConfig h) = Some h"
  "as_unstructured (OUnstructured u) = Some u" "u_gvk u = g \<Longrightarrow> as_gvk g (OUnstructured u) = Some u"
  by simp_all

lemma resp_list_RList [simp]:
  "resp_list dec (RErr e) = Inl e"
  "resp_list dec (RList xs) = (case those (map dec xs) of Some l \<Rightarrow> Inr l | None \<Rightarrow> Inl decode_error)"
  by (simp_all add: resp_list_def)

lemma those_map_Some: "those (map dec xs) = Some l \<longleftrightarrow> list_all2 (\<lambda>x a. dec x = Some a) xs l"
  by (induction xs arbitrary: l) (auto simp: list_all2_Cons1 split: option.splits)

lemma resp_list_Inr:
  "resp_list dec r = Inr l \<longleftrightarrow> (\<exists>xs. r = RList xs \<and> list_all2 (\<lambda>x a. dec x = Some a) xs l)"
  by (auto simp: resp_list_def those_map_Some split: resp.splits option.splits)
     (auto simp: those_map_Some [symmetric])

section \<open>Case distinctions of a program\<close>

text \<open>
  Reading a run of a program that branches on a response: the collection \<open>exec_simps\<close> turns an
  assumption about the run into the branches it can have taken.
\<close>

lemma exec_case_sum:
  "exec (case s of Inl a \<Rightarrow> f a | Inr b \<Rightarrow> g b) t z \<longleftrightarrow>
    (\<exists>a. s = Inl a \<and> exec (f a) t z) \<or> (\<exists>b. s = Inr b \<and> exec (g b) t z)"
  by (cases s) auto

lemma exec_case_option:
  "exec (case s of None \<Rightarrow> f | Some b \<Rightarrow> g b) t z \<longleftrightarrow>
    (s = None \<and> exec f t z) \<or> (\<exists>b. s = Some b \<and> exec (g b) t z)"
  by (cases s) auto

lemma exec_case_list:
  "exec (case s of [] \<Rightarrow> f | x # xs \<Rightarrow> g x xs) t z \<longleftrightarrow>
    (s = [] \<and> exec f t z) \<or> (\<exists>x xs. s = x # xs \<and> exec (g x xs) t z)"
  by (cases s) auto

lemma exec_case_prod:
  "exec (case s of (a, b) \<Rightarrow> f a b) t z \<longleftrightarrow> (\<exists>a b. s = (a, b) \<and> exec (f a b) t z)"
  by (cases s) auto

lemma exec_if: "exec (if b then p else q) t z \<longleftrightarrow> (b \<and> exec p t z) \<or> (\<not> b \<and> exec q t z)"
  by simp

lemma and_then_case_sum:
  "and_then (case s of Inl a \<Rightarrow> f a | Inr b \<Rightarrow> g b) h =
    (case s of Inl a \<Rightarrow> and_then (f a) h | Inr b \<Rightarrow> and_then (g b) h)"
  by (cases s) auto

lemma and_then_case_option:
  "and_then (case s of None \<Rightarrow> f | Some b \<Rightarrow> g b) h =
    (case s of None \<Rightarrow> and_then f h | Some b \<Rightarrow> and_then (g b) h)"
  by (cases s) auto

lemma and_then_case_list:
  "and_then (case s of [] \<Rightarrow> f | x # xs \<Rightarrow> g x xs) h =
    (case s of [] \<Rightarrow> and_then f h | x # xs \<Rightarrow> and_then (g x xs) h)"
  by (cases s) auto

lemma and_then_if: "and_then (if b then p else q) h = (if b then and_then p h else and_then q h)"
  by simp

lemma exec_create:
  "exec (and_then (client_create c x) f) t z \<longleftrightarrow>
    (\<exists>r t'. t = (Create c x, r) # t' \<and> exec (f (resp_error r)) t' z)"
  by (auto simp: client_create_def exec_Vis_iff)

lemma exec_delete:
  "exec (and_then (client_delete c k key) f) t z \<longleftrightarrow>
    (\<exists>r t'. t = (Delete c k key, r) # t' \<and> exec (f (resp_error r)) t' z)"
  by (auto simp: client_delete_def exec_Vis_iff)

lemma exec_status_patch:
  "exec (and_then (client_status_patch b n) f) t z \<longleftrightarrow>
    (\<exists>r t'. t = (StatusPatch b n, r) # t' \<and> exec (f (resp_error r)) t' z)"
  by (auto simp: client_status_patch_def exec_Vis_iff)

definition update_result :: "obj \<Rightarrow> resp \<Rightarrow> api_error + obj" where
  "update_result x r =
     (case r of RErr e \<Rightarrow> Inl e | RObj y \<Rightarrow> (if obj_kind y = obj_kind x then Inr y else Inr x)
      | _ \<Rightarrow> Inr x)"

lemma exec_update:
  "exec (and_then (client_update c x) f) t z \<longleftrightarrow>
    (\<exists>r t'. t = (Update c x, r) # t' \<and> exec (f (update_result x r)) t' z)"
  by (auto simp: client_update_def update_result_def exec_Vis_iff)

lemma guarded_update [simp]:
  "guarded ok E (and_then (client_update c x) f) \<longleftrightarrow>
    ok E (Update c x) \<and> (\<forall>r. guarded ok (insert (Update c x, r) E) (f (update_result x r)))"
  by (simp add: client_update_def update_result_def)

lemma update_result_Inl [simp]: "update_result x r = Inl e \<longleftrightarrow> r = RErr e"
  by (auto simp: update_result_def split: resp.splits)

lemma exec_update_then:
  "exec (and_then (client_update c x) (\<lambda>u. case u of Inl e \<Rightarrow> Ret (f e) | Inr y \<Rightarrow> Ret v)) t z \<longleftrightarrow>
    (\<exists>a. t = [(Update c x, a)] \<and> z = Done (case resp_error a of Some e \<Rightarrow> f e | None \<Rightarrow> v))"
proof -
  have "exec (case update_result x a of Inl e \<Rightarrow> Ret (f e) | Inr y \<Rightarrow> Ret v) t z \<longleftrightarrow>
      t = [] \<and> z = Done (case resp_error a of Some e \<Rightarrow> f e | None \<Rightarrow> v)" for a t
    by (cases a) (auto simp: update_result_def)
  then show ?thesis by (auto simp: exec_update)
qed

lemma exec_now:
  "exec (and_then get_now f) t z \<longleftrightarrow>
    (\<exists>r t'. t = (Now, r) # t' \<and> exec (f (case r of RTime x \<Rightarrow> x | _ \<Rightarrow> zero_time)) t' z)"
  by (auto simp: get_now_def exec_Vis_iff)

lemma resp_error_Some [simp]: "resp_error r = Some e \<longleftrightarrow> r = RErr e"
  by (cases r) auto

lemma resp_error_None: "resp_error r = None \<longleftrightarrow> (\<forall>e. r \<noteq> RErr e)"
  by (cases r) auto

lemma update_result_Inr: "update_result x r = Inr y \<Longrightarrow> resp_error r = None"
  by (auto simp: update_result_def resp_error_None)

lemmas exec_simps = exec_get exec_list exec_api_reader_list exec_create exec_delete exec_update exec_status_patch exec_now
  exec_case_sum exec_case_option exec_case_list exec_case_prod exec_if
  and_then_case_sum and_then_case_option and_then_case_list and_then_if

end
