(* ===== verification/Kube_Library.thy ===== *)
theory Kube_Library
  imports Kube_Interaction "HOL-Library.Multiset"
begin

text \<open>
  The functions of third-party packages that compute without talking to a cluster
  (\<^verbatim>\<open>k8s.io/apimachinery\<close>, \<^verbatim>\<open>k8s.io/client-go/tools/clientcmd\<close>,
  \<^verbatim>\<open>sigs.k8s.io/controller-runtime\<close>), and the order in which Go ranges over a map.  They are the fields of a record \<open>k8s_lib\<close>, an argument of the
  definitions that use them; what the code relies on is the laws of the locales below, which
  state the documented behaviour.
\<close>

record k8s_lib =
  lib_Load :: "bytes \<Rightarrow> go_error + kube_config"
  lib_Write :: "kube_config \<Rightarrow> go_error + bytes"
  lib_RESTConfigFromKubeConfig :: "bytes \<Rightarrow> go_error + rest_config"
  lib_SetControllerReference :: "spokecluster \<Rightarrow> object_meta \<Rightarrow> go_error + object_meta"
  lib_SetStatusCondition :: "condition list \<Rightarrow> condition \<Rightarrow> condition list"
  lib_FindStatusCondition :: "condition list \<Rightarrow> string \<Rightarrow> condition option"
  lib_RemoveStatusCondition :: "condition list \<Rightarrow> string \<Rightarrow> condition list"
  lib_ContainsFinalizer :: "object_meta \<Rightarrow> string \<Rightarrow> bool"
  lib_AddFinalizer :: "object_meta \<Rightarrow> string \<Rightarrow> object_meta"
  lib_RemoveFinalizer :: "object_meta \<Rightarrow> string \<Rightarrow> object_meta"
  lib_NestedString :: "json \<Rightarrow> string list \<Rightarrow> go_error + string option"
  lib_NestedSlice :: "json \<Rightarrow> string list \<Rightarrow> go_error + json list option"
  lib_SetNestedField :: "json \<Rightarrow> json \<Rightarrow> string list \<Rightarrow> go_error + json"
  lib_SetNestedSlice :: "json \<Rightarrow> json list \<Rightarrow> string list \<Rightarrow> go_error + json"
  lib_GenerationChanged :: "object_meta \<Rightarrow> object_meta \<Rightarrow> bool"
  map_order :: "nat \<Rightarrow> string list \<Rightarrow> string list"

text \<open>
  Ranging over a map: each loop of the source has its own number, and the library says in which
  order that loop visits the keys.
\<close>

definition range_map :: "k8s_lib \<Rightarrow> nat \<Rightarrow> 'v go_map \<Rightarrow> (string \<times> 'v) list" where
  "range_map L i m = List.map_filter (\<lambda>k. map_option (Pair k) (map_of m k)) (map_order L i (map fst m))"

text \<open>A call whose error is discarded (\<open>_ = unstructured.SetNestedField(...)\<close>).\<close>

definition or_unchanged :: "json \<Rightarrow> go_error + json \<Rightarrow> json" where
  "or_unchanged j r = (case r of Inl e \<Rightarrow> j | Inr j' \<Rightarrow> j')"

text \<open>The fields of a condition but for the time of its last transition.\<close>

definition same_condition :: "condition \<Rightarrow> condition \<Rightarrow> bool" where
  "same_condition a b \<longleftrightarrow> c_type a = c_type b \<and> c_status a = c_status b \<and> c_reason a = c_reason b \<and>
     c_message a = c_message b \<and> c_observed a = c_observed b"

lemma same_condition_refl [simp]: "same_condition a a"
  by (simp add: same_condition_def)

lemma same_condition_sym: "same_condition a b \<Longrightarrow> same_condition b a"
  by (auto simp: same_condition_def)

lemma same_condition_trans: "same_condition a b \<Longrightarrow> same_condition b c \<Longrightarrow> same_condition a c"
  by (auto simp: same_condition_def)

text \<open>What a reconcile returns: \<open>ctrl.Result\<close> and an error or nil.\<close>

record ctrl_result =
  Requeue :: bool
  RequeueAfter :: duration

abbreviation no_requeue :: ctrl_result where
  "no_requeue \<equiv> \<lparr>Requeue = False, RequeueAfter = 0\<rparr>"

type_synonym reconcile_result = "ctrl_result \<times> go_error option"

section \<open>Documented behaviour\<close>

text \<open>
  \<open>meta.FindStatusCondition\<close>, \<open>meta.SetStatusCondition\<close> (the condition of that type gets all the
  fields of the new one, or the new one is appended) and \<open>meta.RemoveStatusCondition\<close>.
\<close>

locale status_conditions =
  fixes L :: k8s_lib
  assumes find_condition: "lib_FindStatusCondition L cs ty = find (\<lambda>c. c_type c = ty) cs"
    and remove_condition: "lib_RemoveStatusCondition L cs ty = filter (\<lambda>c. c_type c \<noteq> ty) cs"
    and set_types: "map c_type (lib_SetStatusCondition L cs c) =
      (if c_type c \<in> c_type ` set cs then map c_type cs else map c_type cs @ [c_type c])"
    and set_same: "\<exists>c'. find (\<lambda>x. c_type x = c_type c) (lib_SetStatusCondition L cs c) = Some c' \<and>
      same_condition c' c"
    and set_other: "ty \<noteq> c_type c \<Longrightarrow>
      find (\<lambda>x. c_type x = ty) (lib_SetStatusCondition L cs c) = find (\<lambda>x. c_type x = ty) cs"

text \<open>The finalizer helpers of \<open>controllerutil\<close> touch the list of finalizers only.\<close>

locale finalizers =
  fixes L :: k8s_lib
  assumes contains_finalizer: "lib_ContainsFinalizer L m f \<longleftrightarrow> f \<in> set (m_finalizers m)"
    and add_finalizer: "set (m_finalizers (lib_AddFinalizer L m f)) = insert f (set (m_finalizers m))"
    and add_finalizer_frame: "(lib_AddFinalizer L m f)\<lparr>m_finalizers := fs\<rparr> = m\<lparr>m_finalizers := fs\<rparr>"
    and remove_finalizer: "set (m_finalizers (lib_RemoveFinalizer L m f)) = set (m_finalizers m) - {f}"
    and remove_finalizer_frame:
      "(lib_RemoveFinalizer L m f)\<lparr>m_finalizers := fs\<rparr> = m\<lparr>m_finalizers := fs\<rparr>"

text \<open>Go visits every entry of a map exactly once, in an order it does not specify.\<close>

locale map_ranging =
  fixes L :: k8s_lib
  assumes map_order_mset: "mset (map_order L i ks) = mset ks"
begin

lemma set_map_order [simp]: "set (map_order L i ks) = set ks"
  using map_order_mset [of i ks] by (metis set_mset_mset)

lemma distinct_map_order [simp]: "distinct (map_order L i ks) \<longleftrightarrow> distinct ks"
  using map_order_mset [of i ks] by (metis mset_eq_imp_distinct_iff)

lemma set_range_map: "distinct (map fst m) \<Longrightarrow> set (range_map L i m) = set m"
  by (force simp: range_map_def List.map_filter_def)

lemma distinct_range_map: "distinct (map fst m) \<Longrightarrow> distinct (map fst (range_map L i m))"
proof -
  assume d: "distinct (map fst m)"
  have "map fst (List.map_filter (\<lambda>k. map_option (Pair k) (map_of m k)) ks) =
      filter (\<lambda>k. map_of m k \<noteq> None) ks" for ks
    by (induction ks) (auto simp: List.map_filter_def)
  with d show ?thesis by (simp add: range_map_def)
qed

end

text \<open>
  \<open>clientcmd.Write\<close> followed by \<open>clientcmd.RESTConfigFromKubeConfig\<close>: a kubeconfig whose current
  context names a cluster with a plain HTTPS server (host, port and path of ordinary characters) and a user with inline credentials leads to a
  client configuration with exactly those, if a client certificate and its key are both there or both
  missing; a certificate without a key is refused.
\<close>

definition plain_url_char :: "char \<Rightarrow> bool" where
  "plain_url_char c \<longleftrightarrow> (let n = (of_char c :: nat) in
     48 \<le> n \<and> n \<le> 57 \<or> 65 \<le> n \<and> n \<le> 90 \<or> 97 \<le> n \<and> n \<le> 122) \<or> c \<in> {CHR '':'', CHR ''/'', CHR ''.'', CHR ''-'', CHR ''_''}"

definition plain_https :: "string \<Rightarrow> bool" where
  "plain_https s \<longleftrightarrow> HasPrefix s ''https://'' \<and> drop 8 s \<noteq> [] \<and> hd (drop 8 s) \<noteq> CHR ''/'' \<and> list_all plain_url_char s"

locale kubeconfig_codec =
  fixes L :: k8s_lib
  assumes write_then_config:
    "lib_Write L k = Inr b \<Longrightarrow>
     map_of (kc_Contexts k) (kc_CurrentContext k) = Some cx \<Longrightarrow>
     map_of (kc_Clusters k) (cx_Cluster cx) = Some cl \<Longrightarrow>
     map_of (kc_AuthInfos k) (cx_AuthInfo cx) = Some au \<Longrightarrow>
     cl_CertificateAuthority cl = [] \<Longrightarrow> au_TokenFile au = [] \<Longrightarrow>
     au_ClientCertificate au = [] \<Longrightarrow> au_ClientKey au = [] \<Longrightarrow>
     au_ClientCertificateData au = [] \<longleftrightarrow> au_ClientKeyData au = [] \<Longrightarrow>
     plain_https (cl_Server cl) \<Longrightarrow>
     \<exists>cfg. lib_RESTConfigFromKubeConfig L b = Inr cfg \<and>
       rc_Host cfg = cl_Server cl \<and> rc_BearerToken cfg = au_Token au \<and>
       rc_CAData cfg = cl_CertificateAuthorityData cl \<and>
       rc_Insecure cfg = cl_InsecureSkipTLSVerify cl \<and>
       rc_CertData cfg = au_ClientCertificateData au \<and> rc_KeyData cfg = au_ClientKeyData au"
    and certificate_needs_key:
    "lib_Write L k = Inr b \<Longrightarrow>
     map_of (kc_Contexts k) (kc_CurrentContext k) = Some cx \<Longrightarrow>
     map_of (kc_AuthInfos k) (cx_AuthInfo cx) = Some au \<Longrightarrow>
     au_ClientCertificateData au \<noteq> [] \<Longrightarrow> au_ClientKey au = [] \<Longrightarrow> au_ClientKeyData au = [] \<Longrightarrow>
     \<exists>e. lib_RESTConfigFromKubeConfig L b = Inl e"

text \<open>
  \<open>controllerutil.SetControllerReference\<close>: on success the object is owned by the given owner, and
  nothing but its owner references has changed.
\<close>

locale controller_references =
  fixes L :: k8s_lib
  assumes owner_set: "lib_SetControllerReference L sc m = Inr m' \<Longrightarrow>
      \<exists>w \<in> set (m_owners m'). or_controller w \<and> or_name w = sc_name sc \<and> or_uid w = m_uid (sc_meta sc)"
    and owner_frame: "lib_SetControllerReference L sc m = Inr m' \<Longrightarrow>
      m'\<lparr>m_owners := os\<rparr> = m\<lparr>m_owners := os\<rparr>"

text \<open>The nested-field helpers of \<open>unstructured\<close>: a slice that was set is read back.\<close>

locale nested_fields =
  fixes L :: k8s_lib
  assumes set_then_slice: "lib_SetNestedSlice L j xs p = Inr j' \<Longrightarrow> lib_NestedSlice L j' p = Inr (Some xs)"

text \<open>\<open>predicate.GenerationChangedPredicate\<close> compares the generations.\<close>

locale event_predicates =
  fixes L :: k8s_lib
  assumes generation_changed: "lib_GenerationChanged L old new \<longleftrightarrow> m_generation old \<noteq> m_generation new"

text \<open>All of it together.\<close>

locale kube_library =
  status_conditions L + finalizers L + map_ranging L + kubeconfig_codec L +
  controller_references L + nested_fields L + event_predicates L
  for L :: k8s_lib

end
