(* ===== verification/Kube_Server.thy ===== *)
theory Kube_Server
  imports Kube_Library
begin

text \<open>
  What the operations rely on of an API server: the documented behaviour of get, create, update,
  delete, list and status patches on a server that is reachable and grants the operator its
  permissions.  The server is the parameter \<open>H\<close> (a function of its state and the request); the
  parameter \<open>store\<close> reads the objects out of its state.  Theorems about what is stored after an
  operation are proved inside the locale \<open>api_server\<close>; theorems about which requests are issued
  hold for every behaviour of the servers and do not need it.  The laws are about the server of the hub and about the one of a spoke alike, so
  a theorem under \<open>api_server\<close> that says what is stored on a spoke is about a spoke that can be reached.  What does not depend on the
  spoke is proved under \<open>hub_server\<close> (Progress), which assumes nothing of a spoke.
\<close>

type_synonym store = "target \<Rightarrow> kind \<Rightarrow> object_key \<Rightarrow> obj option"

abbreviation okey :: "obj \<Rightarrow> object_key" where
  "okey x \<equiv> ObjectKeyFromObject x"

definition store_put :: "store \<Rightarrow> target \<Rightarrow> kind \<Rightarrow> object_key \<Rightarrow> obj option \<Rightarrow> store" where
  "store_put st c k key v = st(c := (st c)(k := (st c k)(key := v)))"

lemma store_put_same [simp]: "store_put st c k key v c k key = v"
  by (simp add: store_put_def)

lemma store_put_other [simp]:
  "c' \<noteq> c \<or> k' \<noteq> k \<or> key' \<noteq> key \<Longrightarrow> store_put st c k key v c' k' key' = st c' k' key'"
  by (auto simp: store_put_def)

lemma store_put_apply:
  "store_put st c k key v c' k' key' = (if c' = c \<and> k' = k \<and> key' = key then v else st c' k' key')"
  by (simp add: store_put_def)

text \<open>
  The server fills in version, UID and generation of an object it stores, and nothing else that the model has.  (Servers also set
  fields that the operator never reads, which are outside the model: managed fields, the status of other kinds,
  the label \<open>kubernetes.io/metadata.name\<close> of a namespace.)
\<close>

definition admits :: "obj \<Rightarrow> obj \<Rightarrow> bool" where
  "admits x y \<longleftrightarrow> (\<exists>v u g. y = map_meta (\<lambda>m. m\<lparr>m_version := v, m_uid := u, m_generation := g\<rparr>) x)"

lemma admits_kind: "admits x y \<Longrightarrow> obj_kind y = obj_kind x"
  by (auto simp: admits_def)

lemma admits_meta:
  "admits x y \<Longrightarrow> m_name (obj_meta y) = m_name (obj_meta x) \<and> m_namespace (obj_meta y) = m_namespace (obj_meta x) \<and>
    m_labels (obj_meta y) = m_labels (obj_meta x) \<and> m_finalizers (obj_meta y) = m_finalizers (obj_meta x) \<and>
    m_owners (obj_meta y) = m_owners (obj_meta x) \<and> m_deletion (obj_meta y) = m_deletion (obj_meta x)"
  by (auto simp: admits_def)

lemma admits_key: "admits x y \<Longrightarrow> okey y = okey x"
  by (simp add: ObjectKeyFromObject_def admits_meta)

text \<open>
  Fields that cannot be changed once the object exists: the \<open>roleRef\<close> of a binding and the selector of a Deployment.  An update
  that changes one is refused.
\<close>

definition immutable_kept :: "obj \<Rightarrow> obj \<Rightarrow> bool" where
  "immutable_kept old new =
    (case (old, new) of
       (ORoleBinding a, ORoleBinding b) \<Rightarrow> b_roleRef a = b_roleRef b
     | (OClusterRoleBinding a, OClusterRoleBinding b) \<Rightarrow> b_roleRef a = b_roleRef b
     | (ODeployment a, ODeployment b) \<Rightarrow> map_of (d_selector a) = map_of (d_selector b)
     | _ \<Rightarrow> True)"

lemma immutable_kept_meta [simp]: "immutable_kept y (map_meta f x) \<longleftrightarrow> immutable_kept y x"
  by (cases x; cases y) (simp_all add: immutable_kept_def)

lemma immutable_kept_other [simp]:
  "immutable_kept (OSecret a) x" "immutable_kept (OSpokeCluster b) x"
  by (simp_all add: immutable_kept_def)

text \<open>
  A namespaced object can only be created where its namespace exists and is not being deleted
  (cluster-scoped objects have no namespace).
\<close>

definition live :: "obj option \<Rightarrow> bool" where
  "live v = (case v of None \<Rightarrow> False | Some x \<Rightarrow> m_deletion (obj_meta x) = None)"

definition namespace_ready :: "store \<Rightarrow> target \<Rightarrow> string \<Rightarrow> bool" where
  "namespace_ready st c ns \<longleftrightarrow> ns = [] \<or> live (st c KNamespace (ObjectKey [] ns))"

text \<open>After a successful delete the object is gone, or it waits for its finalizers.\<close>

definition deleted :: "obj option \<Rightarrow> bool" where
  "deleted v = (case v of None \<Rightarrow> True | Some x \<Rightarrow> m_deletion (obj_meta x) \<noteq> None)"

lemma deleted_None [simp]: "deleted None"
  by (simp add: deleted_def)

text \<open>
  Deleting a namespace deletes what is in it; deleting any other object touches nothing else.
\<close>

definition outside :: "kind \<Rightarrow> object_key \<Rightarrow> kind \<Rightarrow> object_key \<Rightarrow> bool" where
  "outside k key k' key' \<longleftrightarrow> (k', key') \<noteq> (k, key) \<and> (k = KNamespace \<longrightarrow> k_namespace key' \<noteq> k_name key)"

text \<open>\<open>client.MatchingLabels\<close>: every listed label is there with the listed value.\<close>

definition labels_match :: "string go_map \<Rightarrow> string go_map option \<Rightarrow> bool" where
  "labels_match ls m \<longleftrightarrow> (\<forall>(k, v) \<in> set ls. go_get m k = Some v)"

text \<open>
  The status of a SpokeCluster is a subresource: creating or updating the object ignores it, and a
  status patch changes nothing else.  A merge patch replaces the list of conditions as a whole
  when it differs between the two objects the patch was computed from.
\<close>

definition with_status :: "condition list \<Rightarrow> obj \<Rightarrow> obj" where
  "with_status cs x = (case x of OSpokeCluster s \<Rightarrow> OSpokeCluster (s\<lparr>sc_conditions := cs\<rparr>) | _ \<Rightarrow> x)"

definition status_of :: "obj \<Rightarrow> condition list" where
  "status_of x = (case x of OSpokeCluster s \<Rightarrow> sc_conditions s | _ \<Rightarrow> [])"

definition merge_conditions :: "spokecluster \<Rightarrow> spokecluster \<Rightarrow> condition list \<Rightarrow> condition list" where
  "merge_conditions base new cur = (if sc_conditions base = sc_conditions new then cur else sc_conditions new)"

lemma with_status_simps [simp]:
  "obj_kind (with_status cs x) = obj_kind x" "obj_meta (with_status cs x) = obj_meta x"
  "okey (with_status cs x) = okey x"
  by (cases x; simp add: with_status_def ObjectKeyFromObject_def)+

lemma with_status_id [simp]: "obj_kind x \<noteq> KSpokeCluster \<Longrightarrow> with_status cs x = x"
  by (cases x) (simp_all add: with_status_def)

text \<open>
  What a create that tolerates an existing object does at its key, and that nothing changes
  elsewhere.
\<close>

definition kept_or_created :: "obj \<Rightarrow> obj option \<Rightarrow> obj option \<Rightarrow> bool" where
  "kept_or_created x old new =
    (case old of Some y \<Rightarrow> new = Some y | None \<Rightarrow> (\<exists>y. new = Some y \<and> admits (with_status [] x) y))"

definition only_at :: "target \<Rightarrow> (kind \<times> object_key) set \<Rightarrow> store \<Rightarrow> store \<Rightarrow> bool" where
  "only_at c ids st st' \<longleftrightarrow> (\<forall>c' k key. c' \<noteq> c \<or> (k, key) \<notin> ids \<longrightarrow> st' c' k key = st c' k key)"

abbreviation okid :: "obj \<Rightarrow> kind \<times> object_key" where
  "okid x \<equiv> (obj_kind x, okey x)"

lemma only_at_trans:
  "only_at c ids st st1 \<Longrightarrow> only_at c ids' st1 st2 \<Longrightarrow> only_at c (ids \<union> ids') st st2"
  by (auto simp: only_at_def)

lemma only_at_refl [simp]: "only_at c ids st st"
  by (simp add: only_at_def)

lemma only_at_put: "only_at c {(k, key)} st (store_put st c k key v)"
  by (auto simp: only_at_def)

lemma only_at_same: "only_at c ids st st' \<Longrightarrow> (k, key) \<notin> ids \<Longrightarrow> st' c k key = st c k key"
  by (auto simp: only_at_def)

text \<open>
  A sequence of operations, one for each element of a list, that relate the object at the key of
  the element before and after by \<open>R\<close>, and change nothing elsewhere.
\<close>

definition changes :: "target \<Rightarrow> ('x \<Rightarrow> obj) \<Rightarrow> ('x \<Rightarrow> obj option \<Rightarrow> obj option \<Rightarrow> bool) \<Rightarrow> 'x list \<Rightarrow> store \<Rightarrow> store \<Rightarrow> bool" where
  "changes c f R xs st st' \<longleftrightarrow> only_at c (set (map (\<lambda>x. okid (f x)) xs)) st st' \<and>
    (\<forall>x \<in> set xs. R x (st c (obj_kind (f x)) (okey (f x))) (st' c (obj_kind (f x)) (okey (f x))))"

lemma fresh_id:
  assumes "okid (f x) \<notin> set (map (\<lambda>x. okid (f x)) xs)" "y \<in> set xs"
  shows "okid (f y) \<notin> {okid (f x)}"
proof
  assume "okid (f y) \<in> {okid (f x)}"
  then have e: "okid (f y) = okid (f x)" by (rule singletonD)
  have "okid (f y) \<in> set (map (\<lambda>x. okid (f x)) xs)" unfolding set_map using assms(2) by (rule imageI)
  with assms(1) show False unfolding e by contradiction
qed

lemma changes_Nil [simp]: "changes c f R [] st st"
  by (simp add: changes_def)

lemma changes_frame: "changes c f R [x] st st1 \<Longrightarrow> only_at c {okid (f x)} st st1"
  by (simp add: changes_def)

lemma changes_Cons:
  assumes "changes c f R [x] st st1" "changes c f R xs st1 st2" "okid (f x) \<notin> set (map (\<lambda>x. okid (f x)) xs)"
  shows "changes c f R (x # xs) st st2"
proof -
  have "only_at c ({okid (f x)} \<union> set (map (\<lambda>x. okid (f x)) xs)) st st2"
    using assms(1,2) unfolding changes_def by (intro only_at_trans [of c _ st st1]) simp_all
  moreover have "st2 c (obj_kind (f x)) (okey (f x)) = st1 c (obj_kind (f x)) (okey (f x))"
    using assms(2,3) unfolding changes_def by (auto intro: only_at_same)
  moreover have "st1 c (obj_kind (f y)) (okey (f y)) = st c (obj_kind (f y)) (okey (f y))" if "y \<in> set xs" for y
    by (rule only_at_same [OF changes_frame [OF assms(1)] fresh_id [of f, OF assms(3) that]])
  ultimately show ?thesis using assms(1,2) by (simp add: changes_def)
qed

lemma kept_or_created_live:
  "kept_or_created x old new \<Longrightarrow> old = None \<or> live old \<Longrightarrow> m_deletion (obj_meta x) = None \<Longrightarrow> live new"
  by (auto simp: kept_or_created_def live_def admits_meta split: option.splits)

lemma namespace_ready_only_at:
  "only_at c ids st st' \<Longrightarrow> (KNamespace, ObjectKey [] ns) \<notin> ids \<Longrightarrow> namespace_ready st c ns \<Longrightarrow> namespace_ready st' c ns"
  by (auto simp: namespace_ready_def only_at_def)

locale api_server =
  fixes H :: "'w \<Rightarrow> req \<Rightarrow> resp \<times> 'w"
    and store :: "'w \<Rightarrow> store"
  assumes store_wf: "store w c k key = Some x \<Longrightarrow> obj_kind x = k \<and> okey x = key"
    and get_found: "store w c k key = Some x \<Longrightarrow> \<exists>w'. H w (Get c k key) = (RObj x, w') \<and> store w' = store w"
    and get_missing: "store w c k key = None \<Longrightarrow>
      \<exists>e w'. H w (Get c k key) = (RErr e, w') \<and> IsNotFound e \<and> store w' = store w"
    and create_new: "store w c (obj_kind x) (okey x) = None \<Longrightarrow>
      namespace_ready (store w) c (m_namespace (obj_meta x)) \<Longrightarrow>
      \<exists>r y w'. H w (Create c x) = (r, w') \<and> resp_error r = None \<and> admits (with_status [] x) y \<and>
        store w' = store_put (store w) c (obj_kind x) (okey x) (Some y)"
    and create_existing: "store w c (obj_kind x) (okey x) \<noteq> None \<Longrightarrow>
      namespace_ready (store w) c (m_namespace (obj_meta x)) \<Longrightarrow>
      \<exists>e w'. H w (Create c x) = (RErr e, w') \<and> IsAlreadyExists e \<and> store w' = store w"
    and update_current: "store w c (obj_kind x) (okey x) = Some y \<Longrightarrow>
      m_version (obj_meta x) \<in> {[], m_version (obj_meta y)} \<Longrightarrow>
      \<not> (m_deletion (obj_meta y) \<noteq> None \<and> m_finalizers (obj_meta x) = []) \<Longrightarrow>
      immutable_kept y x \<Longrightarrow>
      \<exists>z w'. H w (Update c x) = (RObj z, w') \<and>
        admits (map_meta (\<lambda>m. m\<lparr>m_deletion := m_deletion (obj_meta y)\<rparr>) (with_status (status_of y) x)) z \<and>
        store w' = store_put (store w) c (obj_kind x) (okey x) (Some z)"
    and update_last_finalizer: "store w c (obj_kind x) (okey x) = Some y \<Longrightarrow>
      m_version (obj_meta x) \<in> {[], m_version (obj_meta y)} \<Longrightarrow>
      m_deletion (obj_meta y) \<noteq> None \<Longrightarrow> m_finalizers (obj_meta x) = [] \<Longrightarrow>
      immutable_kept y x \<Longrightarrow>
      \<exists>r w'. H w (Update c x) = (r, w') \<and> resp_error r = None \<and>
        store w' = store_put (store w) c (obj_kind x) (okey x) None"
    and update_refused: "store w c (obj_kind x) (okey x) = Some y \<Longrightarrow> \<not> immutable_kept y x \<Longrightarrow>
      \<exists>e w'. H w (Update c x) = (RErr e, w') \<and> store w' = store w"
    and delete_missing: "store w c k key = None \<Longrightarrow>
      \<exists>e w'. H w (Delete c k key) = (RErr e, w') \<and> IsNotFound e \<and> store w' = store w"
    and delete_present: "store w c k key = Some x \<Longrightarrow>
      \<exists>r w'. H w (Delete c k key) = (r, w') \<and> resp_error r = None \<and> deleted (store w' c k key) \<and>
        (m_finalizers (obj_meta x) = [] \<and> k \<noteq> KNamespace \<longrightarrow> store w' c k key = None) \<and>
        (\<forall>c' k' key'. store w' c' k' key' = store w c' k' key' \<or>
          (c' = c \<and> \<not> outside k key k' key' \<and> deleted (store w' c' k' key')))"
    and status_patch: "store w Hub KSpokeCluster (okey (OSpokeCluster n)) = Some (OSpokeCluster p) \<Longrightarrow>
      sc_meta b = sc_meta n \<Longrightarrow> sc_spec b = sc_spec n \<Longrightarrow>
      \<exists>r z w'. H w (StatusPatch b n) = (r, w') \<and> resp_error r = None \<and>
        admits (OSpokeCluster (p\<lparr>sc_conditions := merge_conditions b n (sc_conditions p)\<rparr>)) z \<and>
        m_generation (obj_meta z) = m_generation (sc_meta p) \<and>
        store w' = store_put (store w) Hub KSpokeCluster (okey (OSpokeCluster n)) (Some z)"
    and list_spokes: "\<exists>xs w'. H w (ListObjs KSpokeCluster ls) = (RList xs, w') \<and> store w' = store w \<and>
      distinct (map okey xs) \<and>
      set xs = {x. \<exists>key. store w Hub KSpokeCluster key = Some x \<and> labels_match ls (m_labels (obj_meta x))}"
    and other_requests: "(\<forall>c x. q \<noteq> Create c x) \<Longrightarrow> (\<forall>c x. q \<noteq> Update c x) \<Longrightarrow> (\<forall>c k key. q \<noteq> Delete c k key) \<Longrightarrow>
      (\<forall>b n. q \<noteq> StatusPatch b n) \<Longrightarrow> store (snd (H w q)) = store w"
begin

lemma run_create:
  assumes "namespace_ready (store w) c (m_namespace (obj_meta x))"
  obtains (created) r y w' where "H w (Create c x) = (r, w')" "resp_error r = None" "admits (with_status [] x) y"
      "store w c (obj_kind x) (okey x) = None"
      "store w' = store_put (store w) c (obj_kind x) (okey x) (Some y)"
  | (existed) e w' y where "H w (Create c x) = (RErr e, w')" "IsAlreadyExists e"
      "store w c (obj_kind x) (okey x) = Some y" "store w' = store w"
  using create_new [OF _ assms] create_existing [OF _ assms]
  by (cases "store w c (obj_kind x) (okey x)") fastforce+

subsection \<open>The client operations against such a server\<close>

lemma run_get_found:
  assumes "store w c k key = Some x"
  obtains w' where "run H (client_get c k dec key) w = (Done (resp_obj dec (RObj x)), w')" "store w' = store w"
  using get_found [OF assms] by (auto simp: client_get_def)

lemma run_get_missing:
  assumes "store w c k key = None"
  obtains e w' where "run H (client_get c k dec key) w = (Done (Inl e), w')" "IsNotFound e" "store w' = store w"
  using get_missing [OF assms] by (auto simp: client_get_def)

lemma run_client_create:
  assumes "namespace_ready (store w) c (m_namespace (obj_meta x))"
  obtains (created) y w' where "run H (client_create c x) w = (Done None, w')" "admits (with_status [] x) y"
      "store w c (obj_kind x) (okey x) = None"
      "store w' = store_put (store w) c (obj_kind x) (okey x) (Some y)"
  | (existed) e w' y where "run H (client_create c x) w = (Done (Some e), w')" "IsAlreadyExists e"
      "store w c (obj_kind x) (okey x) = Some y" "store w' = store w"
  using assms by (rule run_create) (auto simp: client_create_def)

lemma run_client_update:
  assumes "store w c (obj_kind x) (okey x) = Some y" "m_version (obj_meta x) \<in> {[], m_version (obj_meta y)}"
    "m_deletion (obj_meta y) = None \<or> m_finalizers (obj_meta x) \<noteq> []" "immutable_kept y x"
  obtains z w' where "run H (client_update c x) w = (Done (Inr z), w')"
    "admits (map_meta (\<lambda>m. m\<lparr>m_deletion := m_deletion (obj_meta y)\<rparr>) (with_status (status_of y) x)) z"
    "store w' = store_put (store w) c (obj_kind x) (okey x) (Some z)"
proof -
  obtain z w' where u: "H w (Update c x) = (RObj z, w')"
    and a: "admits (map_meta (\<lambda>m. m\<lparr>m_deletion := m_deletion (obj_meta y)\<rparr>) (with_status (status_of y) x)) z"
    and st: "store w' = store_put (store w) c (obj_kind x) (okey x) (Some z)"
    using update_current [OF assms(1,2) _ assms(4)] assms(3) by (elim meta_impE) auto
  from admits_kind [OF a] have "obj_kind z = obj_kind x" by simp
  with u a st show thesis by (intro that) (auto simp: client_update_def)
qed

lemma run_client_update_refused:
  assumes "store w c (obj_kind x) (okey x) = Some y" "\<not> immutable_kept y x"
  obtains e w' where "run H (client_update c x) w = (Done (Inl e), w')" "store w' = store w"
proof -
  obtain e w' where "H w (Update c x) = (RErr e, w')" "store w' = store w" using update_refused [OF assms] by blast
  then show thesis by (intro that [of e w']) (auto simp: client_update_def)
qed

lemma run_client_delete:
  obtains (missing) e w' where "run H (client_delete c k key) w = (Done (Some e), w')" "IsNotFound e"
      "store w c k key = None" "store w' = store w"
  | (present) w' x where "run H (client_delete c k key) w = (Done None, w')" "store w c k key = Some x"
      "deleted (store w' c k key)"
      "m_finalizers (obj_meta x) = [] \<Longrightarrow> k \<noteq> KNamespace \<Longrightarrow> store w' c k key = None"
      "\<And>c' k' key'. store w' c' k' key' = store w c' k' key' \<or>
        (c' = c \<and> \<not> outside k key k' key' \<and> deleted (store w' c' k' key'))"
proof (cases "store w c k key")
  case None
  from delete_missing [OF None] obtain e w' where "H w (Delete c k key) = (RErr e, w')" "IsNotFound e" "store w' = store w"
    by blast
  with None missing show thesis by (auto simp: client_delete_def)
next
  case (Some x)
  from delete_present [OF Some] obtain r w' where "H w (Delete c k key) = (r, w')" "resp_error r = None"
    "deleted (store w' c k key)" "m_finalizers (obj_meta x) = [] \<and> k \<noteq> KNamespace \<longrightarrow> store w' c k key = None"
    "\<forall>c' k' key'. store w' c' k' key' = store w c' k' key' \<or>
      (c' = c \<and> \<not> outside k key k' key' \<and> deleted (store w' c' k' key'))" by blast
  with Some present [of w' x] show thesis by (auto simp: client_delete_def)
qed

end

end
