(* ===== verification/Ref_Library.thy ===== *)
theory Ref_Library
  imports Kube_Library
begin

text \<open>
  A concrete instance of the library interface \<open>k8s_lib\<close> that meets all its laws.  It shows that the
  laws can hold together, and the witnesses of theorems under those laws are evaluated on it.
  Kubeconfigs are serialised in a self-delimiting format: an element of a sequence is announced by
  \<open>x\<close>, the end by \<open>e\<close>.
\<close>

section \<open>Kubeconfigs\<close>

fun put_list :: "('a \<Rightarrow> string) \<Rightarrow> 'a list \<Rightarrow> string" where
  "put_list f [] = ''e''"
| "put_list f (a # as) = CHR ''x'' # f a @ put_list f as"

fun take_chars :: "string \<Rightarrow> (string \<times> string) option" where
  "take_chars [] = None"
| "take_chars [c] = (if c = CHR ''e'' then Some ([], []) else None)"
| "take_chars (c # c' # s) =
     (if c = CHR ''e'' then Some ([], c' # s)
      else if c = CHR ''x'' then map_option (\<lambda>(t, r). (c' # t, r)) (take_chars s) else None)"

abbreviation put_str :: "string \<Rightarrow> string" where
  "put_str \<equiv> put_list (\<lambda>c. [c])"

lemma take_chars_put [simp]: "take_chars (put_str s @ r) = Some (s, r)"
  by (induction s) (cases r; simp)+

text \<open>A kubeconfig is written as the flat list of its strings, with the lengths of its maps in unary.\<close>

definition cluster_fields :: "kube_cluster \<Rightarrow> string list" where
  "cluster_fields c = [cl_Server c, cl_CertificateAuthority c, cl_CertificateAuthorityData c,
     if cl_InsecureSkipTLSVerify c then ''t'' else []]"

definition auth_fields :: "kube_auth_info \<Rightarrow> string list" where
  "auth_fields a = [au_Token a, au_TokenFile a, au_ClientCertificate a, au_ClientCertificateData a,
     au_ClientKey a, au_ClientKeyData a]"

definition context_fields :: "kube_context \<Rightarrow> string list" where
  "context_fields x = [cx_Cluster x, cx_AuthInfo x]"

definition cluster_of :: "string list \<Rightarrow> kube_cluster option" where
  "cluster_of fs = (case fs of [s, ca, d, i] \<Rightarrow> Some \<lparr>cl_Server = s, cl_CertificateAuthority = ca,
     cl_CertificateAuthorityData = d, cl_InsecureSkipTLSVerify = (i \<noteq> [])\<rparr> | _ \<Rightarrow> None)"

definition auth_of :: "string list \<Rightarrow> kube_auth_info option" where
  "auth_of fs = (case fs of [t, tf, c, cd, k, kd] \<Rightarrow> Some \<lparr>au_Token = t, au_TokenFile = tf,
     au_ClientCertificate = c, au_ClientCertificateData = cd, au_ClientKey = k, au_ClientKeyData = kd\<rparr>
     | _ \<Rightarrow> None)"

definition context_of :: "string list \<Rightarrow> kube_context option" where
  "context_of fs = (case fs of [c, a] \<Rightarrow> Some \<lparr>cx_Cluster = c, cx_AuthInfo = a\<rparr> | _ \<Rightarrow> None)"

fun put_strs :: "string list \<Rightarrow> string" where
  "put_strs [] = []"
| "put_strs (s # ss) = put_str s @ put_strs ss"

fun take_strs :: "nat \<Rightarrow> string \<Rightarrow> (string list \<times> string) option" where
  "take_strs 0 s = Some ([], s)"
| "take_strs (Suc n) s = (case take_chars s of None \<Rightarrow> None
     | Some (a, r) \<Rightarrow> map_option (\<lambda>(as, r'). (a # as, r')) (take_strs n r))"

lemma take_strs_put [simp]: "n = length ss \<Longrightarrow> take_strs n (put_strs ss @ r) = Some (ss, r)"
  by (induction ss arbitrary: n) auto

text \<open>A map: for each entry a mark, the key and the fields.\<close>

definition put_map :: "('v \<Rightarrow> string list) \<Rightarrow> 'v go_map \<Rightarrow> string" where
  "put_map f m = put_list (\<lambda>(k, v). put_strs (k # f v)) m"

function take_map :: "nat \<Rightarrow> (string list \<Rightarrow> 'v option) \<Rightarrow> string \<Rightarrow> ('v go_map \<times> string) option" where
  "take_map n g [] = None"
| "take_map n g (c # s) =
     (if c = CHR ''e'' then Some ([], s)
      else if c = CHR ''x'' then
        (case take_strs (Suc n) s of
           Some (k # fs, r) \<Rightarrow>
             if length r \<le> length s then
               (case g fs of None \<Rightarrow> None | Some v \<Rightarrow> map_option (\<lambda>(m, r'). ((k, v) # m, r')) (take_map n g r))
             else None
         | _ \<Rightarrow> None)
      else None)"
  by pat_completeness auto
termination by (relation "measure (\<lambda>(n, g, s). length s)") auto

lemma length_put_strs: "length r \<le> length (put_strs ss @ r)"
  by simp

lemma take_map_put:
  assumes "\<And>v. length (f v) = n" "\<And>v. g (f v) = Some v"
  shows "take_map n g (put_map f m @ r) = Some (m, r)"
proof (induction m)
  case Nil
  then show ?case by (simp add: put_map_def)
next
  case (Cons kv m)
  obtain k v where kv: "kv = (k, v)" by (cases kv)
  let ?r = "put_map f m @ r"
  have "take_strs (Suc n) (put_strs (k # f v) @ ?r) = Some (k # f v, ?r)"
    using assms(1) by (intro take_strs_put) simp
  moreover have "put_map f (kv # m) @ r = CHR ''x'' # put_strs (k # f v) @ ?r"
    by (simp add: put_map_def kv)
  ultimately show ?case using Cons.IH assms(2) length_put_strs [of ?r "k # f v"]
    by (simp add: kv del: put_strs.simps take_strs.simps)
qed

lemma fields_of [simp]:
  "cluster_of (cluster_fields c) = Some c" "auth_of (auth_fields a) = Some a" "context_of (context_fields x) = Some x"
  by (simp_all add: cluster_of_def cluster_fields_def auth_of_def auth_fields_def context_of_def context_fields_def)

definition ref_wf_config :: "kube_config \<Rightarrow> bool" where
  "ref_wf_config k \<longleftrightarrow> distinct (map fst (kc_Clusters k)) \<and> distinct (map fst (kc_AuthInfos k))"

definition ref_Write :: "kube_config \<Rightarrow> go_error + bytes" where
  "ref_Write k = (if ref_wf_config k then
     Inr (put_map cluster_fields (kc_Clusters k) @ put_map auth_fields (kc_AuthInfos k) @
       put_map context_fields (kc_Contexts k) @ put_str (kc_CurrentContext k))
     else Inl (NewErr ''duplicate name''))"

definition ref_load :: "bytes \<Rightarrow> kube_config option" where
  "ref_load b =
    (case take_map 4 cluster_of b of None \<Rightarrow> None | Some (cls, b1) \<Rightarrow>
    (case take_map 6 auth_of b1 of None \<Rightarrow> None | Some (aus, b2) \<Rightarrow>
    (case take_map 2 context_of b2 of None \<Rightarrow> None | Some (cxs, b3) \<Rightarrow>
    (case take_chars b3 of Some (cur, []) \<Rightarrow>
       if distinct (map fst cls) \<and> distinct (map fst aus) then
         Some \<lparr>kc_Clusters = cls, kc_AuthInfos = aus, kc_Contexts = cxs, kc_CurrentContext = cur\<rparr>
       else None
     | _ \<Rightarrow> None))))"

definition ref_Load :: "bytes \<Rightarrow> go_error + kube_config" where
  "ref_Load b = (case ref_load b of None \<Rightarrow> Inl (NewErr ''malformed kubeconfig'') | Some k \<Rightarrow> Inr k)"

definition client_config :: "kube_config \<Rightarrow> rest_config option" where
  "client_config k =
    (case map_of (kc_Contexts k) (kc_CurrentContext k) of None \<Rightarrow> None | Some cx \<Rightarrow>
    (case map_of (kc_Clusters k) (cx_Cluster cx) of None \<Rightarrow> None | Some cl \<Rightarrow>
    (case map_of (kc_AuthInfos k) (cx_AuthInfo cx) of None \<Rightarrow> None | Some au \<Rightarrow>
       if au_ClientCertificateData au \<noteq> [] \<and> au_ClientKeyData au = [] then None
       else Some \<lparr>rc_Host = cl_Server cl, rc_BearerToken = au_Token au, rc_CAData = cl_CertificateAuthorityData cl,
         rc_CertData = au_ClientCertificateData au, rc_KeyData = au_ClientKeyData au,
         rc_Insecure = cl_InsecureSkipTLSVerify cl, rc_Timeout = 0\<rparr>)))"

definition ref_RESTConfig :: "bytes \<Rightarrow> go_error + rest_config" where
  "ref_RESTConfig b =
    (case Option.bind (ref_load b) client_config of
       None \<Rightarrow> Inl (NewErr ''invalid configuration'') | Some c \<Rightarrow> Inr c)"

lemma take_chars_put_end [simp]: "take_chars (put_str s) = Some (s, [])"
  using take_chars_put [of s "[]"] by simp

lemma take_maps [simp]:
  "take_map 4 cluster_of (put_map cluster_fields m @ r) = Some (m, r)"
  "take_map 6 auth_of (put_map auth_fields m' @ r) = Some (m', r)"
  "take_map 2 context_of (put_map context_fields m'' @ r) = Some (m'', r)"
  by (rule take_map_put; simp add: cluster_fields_def auth_fields_def context_fields_def
      cluster_of_def auth_of_def context_of_def)+

lemma ref_load_Write: "ref_Write k = Inr b \<Longrightarrow> ref_load b = Some k"
  by (auto simp: ref_Write_def ref_load_def ref_wf_config_def split: if_splits)

lemma ref_Load_distinct: "ref_Load b = Inr k \<Longrightarrow> distinct (map fst (kc_Clusters k)) \<and> distinct (map fst (kc_AuthInfos k))"
  by (auto simp: ref_Load_def ref_load_def split: option.splits list.splits if_splits)

section \<open>Object metadata and conditions\<close>

definition ref_SetControllerReference :: "spokecluster \<Rightarrow> object_meta \<Rightarrow> go_error + object_meta" where
  "ref_SetControllerReference sc m =
    (let owner = \<lparr>or_kind = ''SpokeCluster'', or_name = sc_name sc, or_uid = m_uid (sc_meta sc), or_controller = True\<rparr>
     in if \<exists>x \<in> set (m_owners m). or_controller x \<and> or_uid x \<noteq> m_uid (sc_meta sc)
        then Inl (NewErr ''already owned by another controller'')
        else Inr (m\<lparr>m_owners := filter (\<lambda>x. or_uid x \<noteq> m_uid (sc_meta sc)) (m_owners m) @ [owner]\<rparr>))"

fun ref_SetStatusCondition :: "condition list \<Rightarrow> condition \<Rightarrow> condition list" where
  "ref_SetStatusCondition [] c = [c]"
| "ref_SetStatusCondition (x # xs) c =
     (if c_type x = c_type c
      then (if c_status x = c_status c then c\<lparr>c_transition := c_transition x\<rparr> else c) # xs
      else x # ref_SetStatusCondition xs c)"

lemma ref_set_condition:
  "map c_type (ref_SetStatusCondition cs c) =
     (if c_type c \<in> c_type ` set cs then map c_type cs else map c_type cs @ [c_type c])"
  "\<exists>c'. find (\<lambda>x. c_type x = c_type c) (ref_SetStatusCondition cs c) = Some c' \<and> same_condition c' c"
  "ty \<noteq> c_type c \<Longrightarrow>
     find (\<lambda>x. c_type x = ty) (ref_SetStatusCondition cs c) = find (\<lambda>x. c_type x = ty) cs"
  by (induction cs) (auto simp: same_condition_def)

section \<open>Nested fields\<close>

fun nested_field :: "json \<Rightarrow> string list \<Rightarrow> go_error + json option" where
  "nested_field j [] = Inr (Some j)"
| "nested_field j (f # fs) =
     (case j of
        JObj m \<Rightarrow> (case map_of m f of None \<Rightarrow> Inr None | Some v \<Rightarrow> nested_field v fs)
      | _ \<Rightarrow> Inl (NewErr ''accessor error: not a map''))"

definition ref_NestedString :: "json \<Rightarrow> string list \<Rightarrow> go_error + string option" where
  "ref_NestedString j p =
    (case nested_field j p of
       Inl e \<Rightarrow> Inl e | Inr None \<Rightarrow> Inr None | Inr (Some (JStr s)) \<Rightarrow> Inr (Some s)
     | _ \<Rightarrow> Inl (NewErr ''accessor error: not a string''))"

definition ref_NestedSlice :: "json \<Rightarrow> string list \<Rightarrow> go_error + json list option" where
  "ref_NestedSlice j p =
    (case nested_field j p of
       Inl e \<Rightarrow> Inl e | Inr None \<Rightarrow> Inr None | Inr (Some (JArr xs)) \<Rightarrow> Inr (Some xs)
     | _ \<Rightarrow> Inl (NewErr ''accessor error: not a slice''))"

fun ref_SetNestedField :: "json \<Rightarrow> json \<Rightarrow> string list \<Rightarrow> go_error + json" where
  "ref_SetNestedField j v [] = Inr v"
| "ref_SetNestedField j v (f # fs) =
     (case j of
        JObj m \<Rightarrow>
          (case ref_SetNestedField (case map_of m f of None \<Rightarrow> JObj [] | Some x \<Rightarrow> x) v fs of
             Inl e \<Rightarrow> Inl e | Inr x \<Rightarrow> Inr (JObj (AList.update f x m)))
      | _ \<Rightarrow> Inl (NewErr ''value cannot be set: not a map''))"

lemma nested_field_set: "ref_SetNestedField j v p = Inr j' \<Longrightarrow> nested_field j' p = Inr (Some v)"
  by (induction j v p arbitrary: j' rule: ref_SetNestedField.induct) (auto split: json.splits sum.splits)

section \<open>The instance\<close>

definition ref_lib :: k8s_lib where
  "ref_lib = \<lparr>
     lib_Load = ref_Load,
     lib_Write = ref_Write,
     lib_RESTConfigFromKubeConfig = ref_RESTConfig,
     lib_SetControllerReference = ref_SetControllerReference,
     lib_SetStatusCondition = ref_SetStatusCondition,
     lib_FindStatusCondition = (\<lambda>cs ty. find (\<lambda>c. c_type c = ty) cs),
     lib_RemoveStatusCondition = (\<lambda>cs ty. filter (\<lambda>c. c_type c \<noteq> ty) cs),
     lib_ContainsFinalizer = (\<lambda>m f. f \<in> set (m_finalizers m)),
     lib_AddFinalizer = (\<lambda>m f. if f \<in> set (m_finalizers m) then m else m\<lparr>m_finalizers := m_finalizers m @ [f]\<rparr>),
     lib_RemoveFinalizer = (\<lambda>m f. m\<lparr>m_finalizers := removeAll f (m_finalizers m)\<rparr>),
     lib_NestedString = ref_NestedString,
     lib_NestedSlice = ref_NestedSlice,
     lib_SetNestedField = ref_SetNestedField,
     lib_SetNestedSlice = (\<lambda>j xs. ref_SetNestedField j (JArr xs)),
     lib_GenerationChanged = (\<lambda>a b. m_generation a \<noteq> m_generation b),
     map_order = (\<lambda>i ks. ks)\<rparr>"

lemma ref_lib_sel [simp]:
  "lib_Load ref_lib = ref_Load" "lib_Write ref_lib = ref_Write"
  "lib_RESTConfigFromKubeConfig ref_lib = ref_RESTConfig"
  "lib_SetControllerReference ref_lib = ref_SetControllerReference"
  "lib_SetStatusCondition ref_lib = ref_SetStatusCondition"
  "lib_FindStatusCondition ref_lib cs ty = find (\<lambda>c. c_type c = ty) cs"
  "lib_RemoveStatusCondition ref_lib cs ty = filter (\<lambda>c. c_type c \<noteq> ty) cs"
  "lib_ContainsFinalizer ref_lib m f \<longleftrightarrow> f \<in> set (m_finalizers m)"
  "lib_AddFinalizer ref_lib m f = (if f \<in> set (m_finalizers m) then m else m\<lparr>m_finalizers := m_finalizers m @ [f]\<rparr>)"
  "lib_RemoveFinalizer ref_lib m f = m\<lparr>m_finalizers := removeAll f (m_finalizers m)\<rparr>"
  "lib_NestedString ref_lib = ref_NestedString" "lib_NestedSlice ref_lib = ref_NestedSlice"
  "lib_SetNestedField ref_lib = ref_SetNestedField"
  "lib_SetNestedSlice ref_lib j xs = ref_SetNestedField j (JArr xs)"
  "lib_GenerationChanged ref_lib m m' \<longleftrightarrow> m_generation m \<noteq> m_generation m'"
  "map_order ref_lib i ks = ks"
  by (simp_all add: ref_lib_def)

interpretation ref_library: kube_library ref_lib
proof unfold_locales
  fix k b cx cl au
  assume "lib_Write ref_lib k = Inr b" "map_of (kc_Contexts k) (kc_CurrentContext k) = Some cx"
    "map_of (kc_Clusters k) (cx_Cluster cx) = Some cl" "map_of (kc_AuthInfos k) (cx_AuthInfo cx) = Some au"
    "au_ClientCertificateData au = [] \<longleftrightarrow> au_ClientKeyData au = []"
  then show "\<exists>cfg. lib_RESTConfigFromKubeConfig ref_lib b = Inr cfg \<and>
      rc_Host cfg = cl_Server cl \<and> rc_BearerToken cfg = au_Token au \<and>
      rc_CAData cfg = cl_CertificateAuthorityData cl \<and> rc_Insecure cfg = cl_InsecureSkipTLSVerify cl \<and>
      rc_CertData cfg = au_ClientCertificateData au \<and> rc_KeyData cfg = au_ClientKeyData au"
    by (simp add: ref_RESTConfig_def ref_load_Write client_config_def)
next
  fix k b cx au
  assume "lib_Write ref_lib k = Inr b" "map_of (kc_Contexts k) (kc_CurrentContext k) = Some cx"
    "map_of (kc_AuthInfos k) (cx_AuthInfo cx) = Some au" "au_ClientCertificateData au \<noteq> []" "au_ClientKeyData au = []"
  then show "\<exists>e. lib_RESTConfigFromKubeConfig ref_lib b = Inl e"
    by (auto simp: ref_RESTConfig_def ref_load_Write client_config_def split: option.splits)
next
  fix cs c
  show "map c_type (lib_SetStatusCondition ref_lib cs c) =
      (if c_type c \<in> c_type ` set cs then map c_type cs else map c_type cs @ [c_type c])"
    using ref_set_condition(1) [of cs c] by simp
qed (use ref_set_condition in \<open>auto simp: ref_SetControllerReference_def Let_def ref_NestedSlice_def nested_field_set
      split: if_splits\<close>)

section \<open>Objects for the witnesses\<close>

definition spoke_config :: rest_config where
  "spoke_config = \<lparr>rc_Host = ''https://api.spoke:6443'', rc_BearerToken = ''secret'', rc_CAData = ''ca'',
     rc_CertData = [], rc_KeyData = [], rc_Insecure = False, rc_Timeout = 0\<rparr>"

lemma spoke_config_auth [simp]: "rc_CertData spoke_config = []" "rc_KeyData spoke_config = []"
  by (simp_all add: spoke_config_def)

definition edge_spoke :: spokecluster where
  "edge_spoke = \<lparr>sc_meta = (new_meta [] ''edge'')\<lparr>m_uid := ''u-1'', m_generation := 1, m_version := ''7''\<rparr>,
     sc_spec = \<lparr>sp_apiServer = ''https://api.spoke:6443'',
       sp_credentialSource = \<lparr>cs_secret = Some \<lparr>scs_name = ''edge-admin'', scs_namespace = ''vault''\<rparr>, cs_mce = None\<rparr>\<rparr>,
     sc_conditions = []\<rparr>"

end
