(* ===== verification/Ref_Server.thy ===== *)
theory Ref_Server
  imports Kube_Server Ref_Library
begin

text \<open>
  An in-memory API server: a list of objects per cluster, optimistic locking by resource version,
  finalizers, deletion of the content of a namespace, the status subresource and label selection.
  It meets the contract \<open>api_server\<close>, so that theorems under that contract speak about servers
  that exist, and it is what their witnesses run on.
\<close>

record cluster =
  objects :: "(target \<times> obj) list"
  serial :: nat
  clock :: time

definition lookup :: "(target \<times> obj) list \<Rightarrow> store" where
  "lookup xs c k key = map_option snd (find (\<lambda>(c', x). c' = c \<and> obj_kind x = k \<and> okey x = key) xs)"

abbreviation ref_store :: "cluster \<Rightarrow> store" where
  "ref_store w \<equiv> lookup (objects w)"

definition remove :: "target \<Rightarrow> kind \<Rightarrow> object_key \<Rightarrow> (target \<times> obj) list \<Rightarrow> (target \<times> obj) list" where
  "remove c k key xs = filter (\<lambda>(c', x). \<not> (c' = c \<and> obj_kind x = k \<and> okey x = key)) xs"

definition remove_content :: "target \<Rightarrow> string \<Rightarrow> (target \<times> obj) list \<Rightarrow> (target \<times> obj) list" where
  "remove_content c ns xs = filter (\<lambda>(c', x). \<not> (c' = c \<and> m_namespace (obj_meta x) = ns)) xs"

definition stamp :: "nat \<Rightarrow> obj \<Rightarrow> obj" where
  "stamp n x = map_meta (\<lambda>m. m\<lparr>m_version := digits_of n,
     m_uid := (if m_uid m = [] then ''uid-'' @ digits_of n else m_uid m)\<rparr>) x"

definition put :: "cluster \<Rightarrow> target \<Rightarrow> obj \<Rightarrow> obj \<times> cluster" where
  "put w c x = (let y = stamp (serial w) x in
     (y, w\<lparr>objects := (c, y) # remove c (obj_kind x) (okey x) (objects w), serial := Suc (serial w)\<rparr>))"

definition server_error :: "status_reason \<Rightarrow> string \<Rightarrow> resp" where
  "server_error rs s = RErr \<lparr>err_reason = rs, err_text = s\<rparr>"

definition ref_delete :: "cluster \<Rightarrow> target \<Rightarrow> kind \<Rightarrow> object_key \<Rightarrow> resp \<times> cluster" where
  "ref_delete w c k key =
    (case ref_store w c k key of
       None \<Rightarrow> (server_error NotFound ''not found'', w)
     | Some x \<Rightarrow>
         if m_finalizers (obj_meta x) \<noteq> [] then
           (if m_deletion (obj_meta x) = None
            then (ROk, snd (put w c (map_meta (\<lambda>m. m\<lparr>m_deletion := Some (clock w)\<rparr>) x)))
            else (ROk, w))
         else (ROk, w\<lparr>objects := (if k = KNamespace then remove_content c (k_name key) else id)
             (remove c k key (objects w))\<rparr>))"

definition ref_update :: "cluster \<Rightarrow> target \<Rightarrow> obj \<Rightarrow> resp \<times> cluster" where
  "ref_update w c x =
    (case ref_store w c (obj_kind x) (okey x) of
       None \<Rightarrow> (server_error NotFound ''not found'', w)
     | Some y \<Rightarrow>
         if m_version (obj_meta x) \<notin> {[], m_version (obj_meta y)} then (server_error OtherReason ''conflict'', w)
         else if \<not> immutable_kept y x then (server_error OtherReason ''field is immutable'', w)
         else if m_deletion (obj_meta y) \<noteq> None \<and> m_finalizers (obj_meta x) = []
         then (ROk, w\<lparr>objects := remove c (obj_kind x) (okey x) (objects w)\<rparr>)
         else (case put w c (map_meta (\<lambda>m. m\<lparr>m_deletion := m_deletion (obj_meta y)\<rparr>) (with_status (status_of y) x)) of
           (z, w') \<Rightarrow> (RObj z, w')))"

text \<open>A list kind names the kind of its items with the suffix \<open>List\<close>.\<close>

definition item_kind :: "kind \<Rightarrow> kind" where
  "item_kind k =
    (case k of
       KUnstructured g \<Rightarrow>
         if drop (length (g_kind g) - 4) (g_kind g) = ''List''
         then KUnstructured (g\<lparr>g_kind := take (length (g_kind g) - 4) (g_kind g)\<rparr>) else k
     | _ \<Rightarrow> k)"

definition ref_server :: "cluster \<Rightarrow> req \<Rightarrow> resp \<times> cluster" where
  "ref_server w q =
    (case q of
       Get c k key \<Rightarrow>
         (case ref_store w c k key of
            Some x \<Rightarrow> (RObj x, w)
          | None \<Rightarrow> (server_error NotFound ''not found'', w))
     | Create c x \<Rightarrow>
         if \<not> namespace_ready (ref_store w) c (m_namespace (obj_meta x))
         then (server_error OtherReason ''namespace not ready'', w)
         else (case ref_store w c (obj_kind x) (okey x) of
            Some y \<Rightarrow> (server_error AlreadyExists ''already exists'', w)
          | None \<Rightarrow> (case put w c (map_meta (m_generation_update (\<lambda>_. 1)) (with_status [] x)) of (y, w') \<Rightarrow> (RObj y, w')))
     | Update c x \<Rightarrow> ref_update w c x
     | Delete c k key \<Rightarrow> ref_delete w c k key
     | StatusPatch b n \<Rightarrow>
         (case ref_store w Hub KSpokeCluster (okey (OSpokeCluster n)) of
            Some (OSpokeCluster y) \<Rightarrow>
              (case put w Hub (OSpokeCluster (y\<lparr>sc_conditions := merge_conditions b n (sc_conditions y)\<rparr>)) of
                 (z, w') \<Rightarrow> (RObj z, w'))
          | _ \<Rightarrow> (server_error NotFound ''not found'', w))
     | ListObjs k ls \<Rightarrow>
         (RList (remdups (map snd (filter (\<lambda>(c, x). c = Hub \<and> obj_kind x = item_kind k \<and>
            labels_match ls (m_labels (obj_meta x)) \<and> ref_store w Hub (item_kind k) (okey x) = Some x) (objects w)))), w)
     | ApiReaderList k \<Rightarrow> (RList (map snd (filter (\<lambda>(c, x). c = Hub \<and> obj_kind x = item_kind k) (objects w))), w)
     | CreateToken cfg ns sa n \<Rightarrow> (RToken (''token-'' @ digits_of (serial w)) (clock w + n * Second),
         w\<lparr>serial := Suc (serial w)\<rparr>)
     | Now \<Rightarrow> (RTime (clock w), w)
     | _ \<Rightarrow> (ROk, w))"

lemma stamp_simps [simp]: "obj_kind (stamp n x) = obj_kind x" "okey (stamp n x) = okey x"
  by (simp_all add: stamp_def ObjectKeyFromObject_def)

lemma find_remove:
  "find (\<lambda>(c'', y). c'' = c' \<and> obj_kind y = k' \<and> okey y = key') (remove c k key xs) =
    (if c' = c \<and> k' = k \<and> key' = key then None
     else find (\<lambda>(c'', y). c'' = c' \<and> obj_kind y = k' \<and> okey y = key') xs)"
  by (induction xs) (auto simp: remove_def)

lemma lookup_remove: "lookup (remove c k key xs) = store_put (lookup xs) c k key None"
  by (intro ext) (simp add: lookup_def find_remove store_put_apply)

lemma lookup_Cons:
  "lookup ((c, x) # xs) = store_put (lookup xs) c (obj_kind x) (okey x) (Some x)"
  by (intro ext) (auto simp: lookup_def store_put_apply)

lemma store_put_put [simp]: "store_put (store_put st c k key v) c k key v' = store_put st c k key v'"
  by (intro ext) (simp add: store_put_apply)

lemma lookup_put:
  "put w c x = (y, w') \<Longrightarrow> lookup (objects w') = store_put (ref_store w) c (obj_kind x) (okey x) (Some y)"
  by (auto simp: put_def Let_def lookup_Cons lookup_remove)

lemma map_meta_cong: "f (obj_meta x) = g (obj_meta x) \<Longrightarrow> map_meta f x = map_meta g x"
  by (cases x) simp_all

lemma stamp_generation [simp]: "m_generation (obj_meta (stamp n x)) = m_generation (obj_meta x)"
  by (simp add: stamp_def)

lemma stamp_admits: "admits x (stamp n x)"
  unfolding admits_def stamp_def
  by (rule exI, rule exI, rule exI [of _ "m_generation (obj_meta x)"]) (rule map_meta_cong, simp)

lemma put_generation: "put w c x = (y, w') \<Longrightarrow> m_generation (obj_meta y) = m_generation (obj_meta x)"
  by (auto simp: put_def Let_def)

lemma admits_generation: "admits (map_meta (m_generation_update f) x) y \<Longrightarrow> admits x y"
proof -
  assume "admits (map_meta (m_generation_update f) x) y"
  then obtain v u g where "y = map_meta (\<lambda>m. m\<lparr>m_version := v, m_uid := u, m_generation := g\<rparr>) (map_meta (m_generation_update f) x)"
    by (auto simp: admits_def)
  also have "\<dots> = map_meta (\<lambda>m. m\<lparr>m_version := v, m_uid := u, m_generation := g\<rparr>) x" by (cases x) simp_all
  finally show ?thesis unfolding admits_def by blast
qed

lemma put_admits: "put w c x = (y, w') \<Longrightarrow> admits x y"
  by (auto simp: put_def Let_def stamp_admits)

lemma lookup_wf: "lookup xs c k key = Some x \<Longrightarrow> obj_kind x = k \<and> okey x = key \<and> (c, x) \<in> set xs"
  by (auto simp: lookup_def find_Some_iff) (metis nth_mem)

lemma lookup_remove_content:
  "lookup (remove_content c ns xs) c' k' key' =
    (if c' = c \<and> k_namespace key' = ns then None else lookup xs c' k' key')"
  by (induction xs) (auto simp: remove_content_def lookup_def ObjectKeyFromObject_def)

lemma ref_delete_present:
  assumes "ref_store w c k key = Some x"
  shows "\<exists>r w'. ref_delete w c k key = (r, w') \<and> resp_error r = None \<and> deleted (ref_store w' c k key) \<and>
    (m_finalizers (obj_meta x) = [] \<and> k \<noteq> KNamespace \<longrightarrow> ref_store w' c k key = None) \<and>
    (\<forall>c' k' key'. ref_store w' c' k' key' = ref_store w c' k' key' \<or>
      (c' = c \<and> \<not> outside k key k' key' \<and> deleted (ref_store w' c' k' key')))"
proof (cases "m_finalizers (obj_meta x) = []")
  case True
  with assms show ?thesis
    by (auto simp: ref_delete_def lookup_remove_content lookup_remove store_put_apply outside_def)
next
  case False
  note kind = lookup_wf [OF assms]
  let ?x = "map_meta (\<lambda>m. m\<lparr>m_deletion := Some (clock w)\<rparr>) x"
  obtain y w' where p: "put w c ?x = (y, w')" by (cases "put w c ?x")
  from put_admits [OF p] have "m_deletion (obj_meta y) \<noteq> None" by (simp add: admits_meta)
  moreover have "okey ?x = key" using kind by (simp add: ObjectKeyFromObject_def)
  ultimately show ?thesis
    using False assms kind lookup_put [OF p] p
    by (cases "m_deletion (obj_meta x)") (auto simp: ref_delete_def deleted_def store_put_apply outside_def)
qed

lemma ref_update_current:
  assumes "ref_store w c (obj_kind x) (okey x) = Some y" "m_version (obj_meta x) \<in> {[], m_version (obj_meta y)}"
    "\<not> (m_deletion (obj_meta y) \<noteq> None \<and> m_finalizers (obj_meta x) = [])" "immutable_kept y x"
  shows "\<exists>z w'. ref_update w c x = (RObj z, w') \<and>
    admits (map_meta (\<lambda>m. m\<lparr>m_deletion := m_deletion (obj_meta y)\<rparr>) (with_status (status_of y) x)) z \<and>
    ref_store w' = store_put (ref_store w) c (obj_kind x) (okey x) (Some z)"
proof -
  let ?x = "map_meta (\<lambda>m. m\<lparr>m_deletion := m_deletion (obj_meta y)\<rparr>) (with_status (status_of y) x)"
  obtain z w' where p: "put w c ?x = (z, w')" by (cases "put w c ?x")
  have "okey ?x = okey x" by (simp add: ObjectKeyFromObject_def)
  with p put_admits [OF p] lookup_put [OF p] assms show ?thesis
    by (auto simp: ref_update_def)
qed

lemma ref_create_new:
  assumes "ref_store w c (obj_kind x) (okey x) = None"
    and "namespace_ready (ref_store w) c (m_namespace (obj_meta x))"
  shows "\<exists>r y w'. ref_server w (Create c x) = (r, w') \<and> resp_error r = None \<and> admits (with_status [] x) y \<and>
    ref_store w' = store_put (ref_store w) c (obj_kind x) (okey x) (Some y)"
proof -
  let ?x = "map_meta (m_generation_update (\<lambda>_. 1)) (with_status [] x)"
  obtain y w' where p: "put w c ?x = (y, w')" by (cases "put w c ?x")
  have "okey ?x = okey x" by (simp add: ObjectKeyFromObject_def)
  with p admits_generation [OF put_admits [OF p]] lookup_put [OF p] assms show ?thesis
    by (intro exI [of _ "RObj y"] exI [of _ y] exI [of _ w']) (simp add: ref_server_def)
qed

lemma ref_status_patch:
  assumes "ref_store w Hub KSpokeCluster (okey (OSpokeCluster n)) = Some (OSpokeCluster p)"
  shows "\<exists>r z w'. ref_server w (StatusPatch b n) = (r, w') \<and> resp_error r = None \<and>
    admits (OSpokeCluster (p\<lparr>sc_conditions := merge_conditions b n (sc_conditions p)\<rparr>)) z \<and>
    m_generation (obj_meta z) = m_generation (sc_meta p) \<and>
    ref_store w' = store_put (ref_store w) Hub KSpokeCluster (okey (OSpokeCluster n)) (Some z)"
proof -
  let ?x = "OSpokeCluster (p\<lparr>sc_conditions := merge_conditions b n (sc_conditions p)\<rparr>)"
  obtain z w' where q: "put w Hub ?x = (z, w')" by (cases "put w Hub ?x")
  have "okey ?x = okey (OSpokeCluster n)"
    using lookup_wf [OF assms] by (simp add: ObjectKeyFromObject_def)
  with q put_admits [OF q] put_generation [OF q] lookup_put [OF q] assms show ?thesis
    by (intro exI [of _ "RObj z"] exI [of _ z] exI [of _ w']) (simp add: ref_server_def)
qed

lemma ref_list_spokes:
  "\<exists>xs w'. ref_server w (ListObjs KSpokeCluster ls) = (RList xs, w') \<and> ref_store w' = ref_store w \<and>
    distinct (map okey xs) \<and>
    set xs = {x. \<exists>key. ref_store w Hub KSpokeCluster key = Some x \<and> labels_match ls (m_labels (obj_meta x))}"
proof -
  let ?f = "filter (\<lambda>(c, x). c = Hub \<and> obj_kind x = KSpokeCluster \<and>
    labels_match ls (m_labels (obj_meta x)) \<and> ref_store w Hub KSpokeCluster (okey x) = Some x) (objects w)"
  let ?xs = "remdups (map snd ?f)"
  have m: "x \<in> set ?xs \<longleftrightarrow> (Hub, x) \<in> set (objects w) \<and> obj_kind x = KSpokeCluster \<and>
      labels_match ls (m_labels (obj_meta x)) \<and> ref_store w Hub KSpokeCluster (okey x) = Some x" for x
    by force
  have "x = y" if "x \<in> set ?xs" "y \<in> set ?xs" "okey x = okey y" for x y
    using that unfolding m by (metis option.inject)
  then have "inj_on okey (set ?xs)" by (intro inj_onI)
  then have "distinct (map okey ?xs)" unfolding distinct_map by (intro conjI distinct_remdups)
  moreover have "x \<in> set ?xs \<longleftrightarrow>
      (\<exists>key. ref_store w Hub KSpokeCluster key = Some x \<and> labels_match ls (m_labels (obj_meta x)))" for x
    unfolding m using lookup_wf by blast
  then have "set ?xs = {x. \<exists>key. ref_store w Hub KSpokeCluster key = Some x \<and> labels_match ls (m_labels (obj_meta x))}"
    by (intro equalityI subsetI) (simp_all only: mem_Collect_eq)
  moreover have "ref_server w (ListObjs KSpokeCluster ls) = (RList ?xs, w)"
    unfolding ref_server_def req.case item_kind_def kind.case ..
  ultimately show ?thesis by blast
qed

lemma ref_server_calls:
  "ref_server w (Update c x) = ref_update w c x" "ref_server w (Delete c k key) = ref_delete w c k key"
  by (simp_all add: ref_server_def)

interpretation ref: api_server ref_server ref_store
proof unfold_locales
  fix w and q :: req
  assume "\<forall>c x. q \<noteq> Create c x" "\<forall>c x. q \<noteq> Update c x" "\<forall>c k key. q \<noteq> Delete c k key" "\<forall>b n. q \<noteq> StatusPatch b n"
  then show "ref_store (snd (ref_server w q)) = ref_store w"
    by (cases q) (auto simp: ref_server_def split: option.split)
next
  fix w c x y
  assume "ref_store w c (obj_kind x) (okey x) = Some y" "m_version (obj_meta x) \<in> {[], m_version (obj_meta y)}"
    "m_deletion (obj_meta y) \<noteq> None" "m_finalizers (obj_meta x) = []" "immutable_kept y x"
  then show "\<exists>r w'. ref_server w (Update c x) = (r, w') \<and> resp_error r = None \<and>
      ref_store w' = store_put (ref_store w) c (obj_kind x) (okey x) None"
    by (auto simp: ref_server_calls ref_update_def lookup_remove)
next
  fix w c x y
  assume "ref_store w c (obj_kind x) (okey x) = Some y" "\<not> immutable_kept y x"
  then show "\<exists>e w'. ref_server w (Update c x) = (RErr e, w') \<and> ref_store w' = ref_store w"
    by (auto simp: ref_server_calls ref_update_def server_error_def)
next
  show "\<exists>e w'. ref_server w (Delete c k key) = (RErr e, w') \<and> IsNotFound e \<and> ref_store w' = ref_store w"
    if "ref_store w c k key = None" for w c k key
    using that by (simp add: ref_server_calls ref_delete_def server_error_def)
next
  show "\<exists>e w'. ref_server w (Create c x) = (RErr e, w') \<and> IsAlreadyExists e \<and> ref_store w' = ref_store w"
    if "ref_store w c (obj_kind x) (okey x) \<noteq> None"
      "namespace_ready (ref_store w) c (m_namespace (obj_meta x))" for w c x
    using that by (auto simp: ref_server_def server_error_def)
next
  show "\<exists>e w'. ref_server w (Get c k key) = (RErr e, w') \<and> IsNotFound e \<and> ref_store w' = ref_store w"
    if "ref_store w c k key = None" for w c k key
    using that by (simp add: ref_server_def server_error_def)
next
  show "\<exists>w'. ref_server w (Get c k key) = (RObj x, w') \<and> ref_store w' = ref_store w"
    if "ref_store w c k key = Some x" for w c k key x
    using that by (simp add: ref_server_def)
next
  show "obj_kind x = k \<and> okey x = key" if "ref_store w c k key = Some x" for w c k key x
    using lookup_wf [OF that] by simp
qed (simp_all only: ref_server_calls ref_create_new ref_delete_present ref_status_patch ref_list_spokes
    ref_update_current not_False_eq_True simp_thms)

text \<open>A hub and a spoke for the witnesses, with the namespaces that OpenShift has.\<close>

definition fresh_cluster :: cluster where
  "fresh_cluster = \<lparr>objects =
     [(Hub, ONamespace (new_meta [] ''lightspeed-hub'')), (Hub, ONamespace (new_meta [] ''openshift-monitoring'')),
      (Spoke spoke_config, ONamespace (new_meta [] ''openshift-monitoring''))],
     serial = 1, clock = 0\<rparr>"

end
