(* ===== verification/Provisioner.thy ===== *)
theory Provisioner
  imports Ref_Server
begin

text \<open>
  Package \<^verbatim>\<open>internal/provisioner\<close>: the resources the hub creates on a spoke
  (\<^verbatim>\<open>spoke.go\<close>) and those of the alerts adapter (\<^verbatim>\<open>adapter.go\<close>).  Each function of the source is
  a straight sequence of \<open>Create\<close> or \<open>Delete\<close> calls that treat their errors alike; the two loops
  \<open>create_each\<close> and \<open>delete_each\<close> are those sequences, over the list of the calls in source order.
\<close>

section \<open>Constants\<close>

definition ManagedNamespace :: string where
  [hub_consts]: "ManagedNamespace = ''openshift-lightspeed-managed''"
definition ServiceAccountName :: string where
  [hub_consts]: "ServiceAccountName = ''lightspeed-agent''"
definition ClusterRoleBindingClusterReader :: string where
  [hub_consts]: "ClusterRoleBindingClusterReader = ''lightspeed-hub:cluster-reader''"
definition ClusterRoleBindingMonitoringView :: string where
  [hub_consts]: "ClusterRoleBindingMonitoringView = ''lightspeed-hub:cluster-monitoring-view''"
definition MonitoringNamespace :: string where
  [hub_consts]: "MonitoringNamespace = ''openshift-monitoring''"
definition AlertAdapterServiceAccount :: string where
  [hub_consts]: "AlertAdapterServiceAccount = ''lightspeed-alert-adapter''"
definition AlertAdapterRoleBinding :: string where
  [hub_consts]: "AlertAdapterRoleBinding = ''lightspeed-hub:alert-adapter-monitoring-view''"
definition MonitoringAlertmanagerViewRole :: string where
  [hub_consts]: "MonitoringAlertmanagerViewRole = ''monitoring-alertmanager-view''"
definition rbac_GroupName :: string where
  [hub_consts]: "rbac_GroupName = ''rbac.authorization.k8s.io''"

section \<open>The calls\<close>

text \<open>
  \<open>if err := c.Create(ctx, x); err != nil { if !IsAlreadyExists(err) { return fmt.Errorf(...) } }\<close>
  for each object in turn; the first other error ends the sequence.
\<close>

fun create_each :: "target \<Rightarrow> (obj \<times> (go_error \<Rightarrow> go_error)) list \<Rightarrow> go_error option prog" where
  "create_each c [] = Ret None"
| "create_each c ((x, wrap) # rest) =
     and_then (client_create c x) (\<lambda>err.
     case err of
       Some e \<Rightarrow> if \<not> IsAlreadyExists e then Ret (Some (wrap (ApiErr e))) else create_each c rest
     | None \<Rightarrow> create_each c rest)"

text \<open>
  \<open>if err := c.Delete(ctx, x); err != nil { if !IsNotFound(err) { errs = append(errs, err) } }\<close>
  for each object in turn; every one is attempted, and the errors are joined.
\<close>

fun delete_each :: "target \<Rightarrow> (kind \<times> object_key) list \<Rightarrow> go_error list \<Rightarrow> go_error option prog" where
  "delete_each c [] errs = Ret (errors_Join errs)"
| "delete_each c ((k, key) # rest) errs =
     and_then (client_delete c k key) (\<lambda>err.
     case err of
       Some e \<Rightarrow> if \<not> IsNotFound e then delete_each c rest (errs @ [ApiErr e]) else delete_each c rest errs
     | None \<Rightarrow> delete_each c rest errs)"

section \<open>Spoke resources\<close>

definition agent_subject :: subject where
  "agent_subject = \<lparr>sub_kind = ''ServiceAccount'', sub_name = ServiceAccountName, sub_namespace = ManagedNamespace\<rparr>"

definition crb_for :: "string \<Rightarrow> string \<Rightarrow> binding" where
  "crb_for name clusterRole = \<lparr>b_meta = new_meta [] name,
     b_roleRef = \<lparr>rr_apiGroup = rbac_GroupName, rr_kind = ''ClusterRole'', rr_name = clusterRole\<rparr>,
     b_subjects = [agent_subject]\<rparr>"

definition provision_calls :: "(obj \<times> (go_error \<Rightarrow> go_error)) list" where
  "provision_calls =
    [(ONamespace (new_meta [] ManagedNamespace),
        \<lambda>e. Errorf [W (ProvErr ErrCreatingNamespace), S '': '', W e]),
     (OServiceAccount (new_meta ManagedNamespace ServiceAccountName),
        \<lambda>e. Errorf [W (ProvErr ErrCreatingServiceAccount), S '': '', W e]),
     (OClusterRoleBinding (crb_for ClusterRoleBindingClusterReader ''cluster-reader''),
        \<lambda>e. Errorf [W (ProvErr ErrCreatingClusterRoleBinding), S '' cluster-reader: '', W e]),
     (OClusterRoleBinding (crb_for ClusterRoleBindingMonitoringView ''cluster-monitoring-view''),
        \<lambda>e. Errorf [W (ProvErr ErrCreatingClusterRoleBinding), S '' cluster-monitoring-view: '', W e])]"

definition Provision :: "target \<Rightarrow> go_error option prog" where
  "Provision spokeClient = create_each spokeClient provision_calls"

definition deprovision_calls :: "(kind \<times> object_key) list" where
  "deprovision_calls =
    [(KClusterRoleBinding, ObjectKey [] ClusterRoleBindingMonitoringView),
     (KClusterRoleBinding, ObjectKey [] ClusterRoleBindingClusterReader),
     (KServiceAccount, ObjectKey ManagedNamespace ServiceAccountName),
     (KNamespace, ObjectKey [] ManagedNamespace)]"

definition Deprovision :: "target \<Rightarrow> go_error option prog" where
  "Deprovision spokeClient = delete_each spokeClient deprovision_calls []"

section \<open>Adapter resources\<close>

definition adapter_rb :: binding where
  "adapter_rb = \<lparr>b_meta = new_meta MonitoringNamespace AlertAdapterRoleBinding,
     b_roleRef = \<lparr>rr_apiGroup = rbac_GroupName, rr_kind = ''Role'', rr_name = MonitoringAlertmanagerViewRole\<rparr>,
     b_subjects = [\<lparr>sub_kind = ''ServiceAccount'', sub_name = AlertAdapterServiceAccount,
       sub_namespace = ManagedNamespace\<rparr>]\<rparr>"

definition provision_adapter_calls :: "(obj \<times> (go_error \<Rightarrow> go_error)) list" where
  "provision_adapter_calls =
    [(OServiceAccount (new_meta ManagedNamespace AlertAdapterServiceAccount),
        \<lambda>e. Errorf [W (ProvErr ErrCreatingAdapterServiceAccount), S '': '', W e]),
     (ORoleBinding adapter_rb,
        \<lambda>e. Errorf [W (ProvErr ErrCreatingAdapterRoleBinding), S '': '', W e])]"

definition ProvisionAdapter :: "target \<Rightarrow> go_error option prog" where
  "ProvisionAdapter spokeClient = create_each spokeClient provision_adapter_calls"

definition deprovision_adapter_calls :: "(kind \<times> object_key) list" where
  "deprovision_adapter_calls =
    [(KRoleBinding, ObjectKey MonitoringNamespace AlertAdapterRoleBinding),
     (KServiceAccount, ObjectKey ManagedNamespace AlertAdapterServiceAccount)]"

definition DeprovisionAdapter :: "target \<Rightarrow> go_error option prog" where
  "DeprovisionAdapter spokeClient = delete_each spokeClient deprovision_adapter_calls []"

lemmas provisioner_ops = Provision_def Deprovision_def ProvisionAdapter_def DeprovisionAdapter_def

section \<open>Runs\<close>

definition create_failure :: "resp \<Rightarrow> api_error option" where
  "create_failure r = (case r of RErr e \<Rightarrow> if IsAlreadyExists e then None else Some e | _ \<Rightarrow> None)"

definition delete_failure :: "resp \<Rightarrow> api_error option" where
  "delete_failure r = (case r of RErr e \<Rightarrow> if IsNotFound e then None else Some e | _ \<Rightarrow> None)"

definition opt_list :: "'a option \<Rightarrow> 'a list" where
  "opt_list x = (case x of None \<Rightarrow> [] | Some a \<Rightarrow> [a])"

definition delete_failures :: "event list \<Rightarrow> api_error list" where
  "delete_failures t = concat (map (\<lambda>(q, r). opt_list (delete_failure r)) t)"

lemma delete_failures_simps [simp]:
  "delete_failures [] = []"
  "delete_failures ((q, r) # t) = opt_list (delete_failure r) @ delete_failures t"
  by (simp_all add: delete_failures_def)

lemma delete_failures_Nil: "delete_failures t = [] \<longleftrightarrow> (\<forall>(q, r) \<in> set t. delete_failure r = None)"
  by (auto simp: delete_failures_def opt_list_def split: option.splits)

lemma never_panics_create_each [simp]: "never_panics (create_each c calls)"
  by (induction c calls rule: create_each.induct)
    (auto intro!: never_panics_and_then split: option.splits)

lemma never_panics_delete_each [simp]: "never_panics (delete_each c calls errs)"
  by (induction c calls errs rule: delete_each.induct)
    (auto intro!: never_panics_and_then split: option.splits)

lemma all_reqs_create_each:
  "\<forall>(x, w) \<in> set calls. P (Create c x) \<Longrightarrow> all_reqs P (create_each c calls)"
  by (induction c calls rule: create_each.induct)
    (auto intro!: all_reqs_and_then split: option.splits)

lemma all_reqs_delete_each:
  "\<forall>(k, key) \<in> set calls. P (Delete c k key) \<Longrightarrow> all_reqs P (delete_each c calls errs)"
  by (induction c calls errs rule: delete_each.induct)
    (auto intro!: all_reqs_and_then split: option.splits)

lemma create_each_step:
  "create_each c ((x, wrap) # rest) = Vis (Create c x) (\<lambda>r.
     case create_failure r of Some e \<Rightarrow> Ret (Some (wrap (ApiErr e))) | None \<Rightarrow> create_each c rest)"
proof -
  have "(case resp_error r of
       Some e \<Rightarrow> if \<not> IsAlreadyExists e then Ret (Some (wrap (ApiErr e))) else create_each c rest
     | None \<Rightarrow> create_each c rest) =
    (case create_failure r of Some e \<Rightarrow> Ret (Some (wrap (ApiErr e))) | None \<Rightarrow> create_each c rest)" for r
    by (cases r) (auto simp: create_failure_def)
  then show ?thesis by (simp add: client_create_def)
qed

lemma delete_each_step:
  "delete_each c ((k, key) # rest) errs = Vis (Delete c k key) (\<lambda>r.
     delete_each c rest (errs @ map ApiErr (opt_list (delete_failure r))))"
proof -
  have "(case resp_error r of
       Some e \<Rightarrow> if \<not> IsNotFound e then delete_each c rest (errs @ [ApiErr e]) else delete_each c rest errs
     | None \<Rightarrow> delete_each c rest errs) =
    delete_each c rest (errs @ map ApiErr (opt_list (delete_failure r)))" for r
    by (cases r) (auto simp: delete_failure_def opt_list_def)
  then show ?thesis by (simp add: client_delete_def)
qed

text \<open>
  A run of \<open>create_each\<close>: the calls are issued in order; either all were answered without a
  failure, or the run ends at the first failure.
\<close>

definition created_all :: "target \<Rightarrow> obj list \<Rightarrow> event list \<Rightarrow> bool" where
  "created_all c xs t \<longleftrightarrow> map fst t = map (Create c) xs \<and> (\<forall>(q, r) \<in> set t. create_failure r = None)"

lemma created_all_Cons [simp]:
  "created_all c (x # xs) ((q, r) # t) \<longleftrightarrow> q = Create c x \<and> create_failure r = None \<and> created_all c xs t"
  by (auto simp: created_all_def)

lemma created_all_Nil [simp]: "created_all c [] t \<longleftrightarrow> t = []"
  by (auto simp: created_all_def)

lemma exec_create_each:
  assumes "exec (create_each c calls) t z"
  obtains (ok) "z = Done None" "created_all c (map fst calls) t"
  | (failed) xs x wrap ys t' r e where "calls = xs @ (x, wrap) # ys" "t = t' @ [(Create c x, r)]"
      "created_all c (map fst xs) t'" "create_failure r = Some e" "z = Done (Some (wrap (ApiErr e)))"
  using assms
proof (induction calls arbitrary: t thesis)
  case (Cons cl rest)
  obtain x w where cl: "cl = (x, w)" by (cases cl)
  with Cons.prems(3) obtain r t' where t: "t = (Create c x, r) # t'"
    and k: "exec (case create_failure r of Some e \<Rightarrow> Ret (Some (w (ApiErr e))) | None \<Rightarrow> create_each c rest) t' z"
    by (auto simp: create_each_step exec_Vis_iff simp del: create_each.simps)
  show ?case
  proof (cases "create_failure r")
    case None
    with k have e: "exec (create_each c rest) t' z" by simp
    show ?thesis
    proof (rule Cons.IH [OF _ _ e])
      assume "z = Done None" "created_all c (map fst rest) t'"
      with Cons.prems(1) t cl None show ?thesis by simp
    next
      fix xs y wrap ys t'' r' e
      assume "rest = xs @ (y, wrap) # ys" "t' = t'' @ [(Create c y, r')]"
        "created_all c (map fst xs) t''" "create_failure r' = Some e" "z = Done (Some (wrap (ApiErr e)))"
      with Cons.prems(2) [of "(x, w) # xs" y wrap ys "(Create c x, r) # t''" r' e] t cl None
      show ?thesis by simp
    qed
  next
    case (Some e)
    with k Cons.prems(2) [of "[]" x w rest "[]" r e] t cl show ?thesis by simp
  qed
qed auto

lemma exec_delete_each:
  "exec (delete_each c calls errs) t z \<longleftrightarrow>
    map fst t = map (\<lambda>(k, key). Delete c k key) calls \<and>
    z = Done (errors_Join (errs @ map ApiErr (delete_failures t)))"
proof (induction calls arbitrary: t errs)
  case (Cons cl rest)
  obtain k key where "cl = (k, key)" by (cases cl)
  then show ?case
    by (auto simp: delete_each_step exec_Vis_iff Cons.IH map_eq_Cons_conv simp del: delete_each.simps)
qed auto

section \<open>Runs against a server\<close>

text \<open>
  Every object of a sequence finds its namespace: it is one of \<open>N\<close>, or an earlier object is that
  namespace.
\<close>

fun namespaces_in_order :: "string set \<Rightarrow> obj list \<Rightarrow> bool" where
  "namespaces_in_order N [] = True"
| "namespaces_in_order N (x # xs) =
     (m_namespace (obj_meta x) \<in> N \<and>
      namespaces_in_order (case x of ONamespace m \<Rightarrow> insert (m_name m) N | _ \<Rightarrow> N) xs)"

text \<open>A namespace of the sequence is not being deleted.\<close>

definition no_terminating_namespace :: "store \<Rightarrow> target \<Rightarrow> obj list \<Rightarrow> bool" where
  "no_terminating_namespace st c xs \<longleftrightarrow>
    (\<forall>m. ONamespace m \<in> set xs \<longrightarrow> m_namespace m = [] \<and> m_deletion m = None \<and>
      (st c KNamespace (ObjectKey [] (m_name m)) = None \<or> live (st c KNamespace (ObjectKey [] (m_name m)))))"

abbreviation create_spec :: "target \<Rightarrow> obj list \<Rightarrow> store \<Rightarrow> store \<Rightarrow> bool" where
  "create_spec c xs st st' \<equiv> changes c (\<lambda>x. x) kept_or_created xs st st'"

lemma create_spec_ready:
  assumes "create_spec c [x] st st1" "namespace_ready st c n"
  shows "namespace_ready st1 c n"
proof (cases "(KNamespace, ObjectKey [] n) \<in> {okid x}")
  case True
  with assms(1) have "kept_or_created x (st c KNamespace (ObjectKey [] n)) (st1 c KNamespace (ObjectKey [] n))"
    by (simp add: changes_def)
  with assms(2) show ?thesis
    by (auto simp: namespace_ready_def kept_or_created_def live_def split: option.splits)
next
  case False
  then show ?thesis by (rule namespace_ready_only_at [OF changes_frame [OF assms(1)] _ assms(2)])
qed

lemma create_spec_terminating:
  assumes "create_spec c [x] st st1" "no_terminating_namespace st c (x # xs)" "okid x \<notin> set (map okid xs)"
  shows "no_terminating_namespace st1 c xs"
proof -
  have "st1 c KNamespace (ObjectKey [] (m_name m)) = st c KNamespace (ObjectKey [] (m_name m))"
    if "ONamespace m \<in> set xs" "m_namespace m = []" for m
  proof -
    have "okid (ONamespace m) = (KNamespace, ObjectKey [] (m_name m))"
      using that(2) by (simp add: ObjectKeyFromObject_def)
    with fresh_id [of "\<lambda>x. x", OF assms(3) that(1)] have "(KNamespace, ObjectKey [] (m_name m)) \<notin> {okid x}" by (simp only:) simp
    then show ?thesis by (rule only_at_same [OF changes_frame [OF assms(1)]])
  qed
  with assms(2) show ?thesis by (auto simp: no_terminating_namespace_def)
qed

text \<open>A sequence of deletes.\<close>

definition delete_spec :: "target \<Rightarrow> (kind \<times> object_key) list \<Rightarrow> store \<Rightarrow> store \<Rightarrow> bool" where
  "delete_spec c ids st st' \<longleftrightarrow> (\<forall>(k, key) \<in> set ids. deleted (st' c k key)) \<and>
    (\<forall>c' k' key'. st' c' k' key' = st c' k' key' \<or>
      (c' = c \<and> (\<exists>(k, key) \<in> set ids. \<not> outside k key k' key') \<and> deleted (st' c' k' key')))"

lemma delete_spec_append:
  assumes "delete_spec c ids st st1" "delete_spec c ids' st1 st2"
  shows "delete_spec c (ids @ ids') st st2"
proof -
  have step: "st2 c' k' key' = st1 c' k' key' \<or>
      (c' = c \<and> (\<exists>(k, key) \<in> set ids'. \<not> outside k key k' key') \<and> deleted (st2 c' k' key'))" for c' k' key'
    using assms(2) by (simp add: delete_spec_def)
  have "deleted (st2 c k key)" if "(k, key) \<in> set ids" for k key
  proof -
    from that assms(1) have "deleted (st1 c k key)" by (auto simp: delete_spec_def)
    with step [of c k key] show ?thesis by auto
  qed
  moreover have "st2 c' k' key' = st c' k' key' \<or>
      (c' = c \<and> (\<exists>(k, key) \<in> set (ids @ ids'). \<not> outside k key k' key') \<and> deleted (st2 c' k' key'))" for c' k' key'
  proof -
    have "st1 c' k' key' = st c' k' key' \<or>
        (c' = c \<and> (\<exists>(k, key) \<in> set ids. \<not> outside k key k' key') \<and> deleted (st1 c' k' key'))"
      using assms(1) by (simp add: delete_spec_def)
    with step [of c' k' key'] show ?thesis by force
  qed
  ultimately show ?thesis using assms(2) by (auto simp: delete_spec_def)
qed

lemma create_spec_idem:
  assumes "create_spec c xs st st1" "create_spec c xs st1 st2"
  shows "st2 = st1"
proof (intro ext)
  fix c' k key
  show "st2 c' k key = st1 c' k key"
  proof (cases "c' = c \<and> (k, key) \<in> set (map okid xs)")
    case True
    then obtain x where x: "x \<in> set xs" "k = obj_kind x" "key = okey x" by auto
    then have "kept_or_created x (st c k key) (st1 c k key)" "kept_or_created x (st1 c k key) (st2 c k key)"
      using assms by (auto simp: changes_def)
    with True show ?thesis by (auto simp: kept_or_created_def split: option.splits)
  next
    case False
    with assms(2) show ?thesis unfolding changes_def only_at_def by blast
  qed
qed

context api_server
begin

lemma run_create_each_step:
  assumes "namespace_ready (store w) c (m_namespace (obj_meta x))"
  obtains w' where "run H (create_each c ((x, wrap) # rest)) w = run H (create_each c rest) w'"
    "create_spec c [x] (store w) (store w')"
  using assms
proof (cases rule: run_client_create)
  case (created y w')
  then show ?thesis by (intro that [of w']) (auto simp: changes_def kept_or_created_def only_at_put)
next
  case (existed e w' y)
  then show ?thesis by (intro that [of w']) (auto simp: changes_def kept_or_created_def)
qed

lemma run_create_each:
  assumes "distinct (map okid (map fst calls))" "namespaces_in_order N (map fst calls)"
    "no_terminating_namespace (store w) c (map fst calls)" "\<forall>n \<in> N. namespace_ready (store w) c n"
  shows "\<exists>w'. run H (create_each c calls) w = (Done None, w') \<and> create_spec c (map fst calls) (store w) (store w')"
  using assms
proof (induction calls arbitrary: w N)
  case Nil
  then show ?case by (simp add: changes_def)
next
  case (Cons cl calls)
  obtain x wrap where cl: "cl = (x, wrap)" by (cases cl)
  from Cons.prems(2,4) have "namespace_ready (store w) c (m_namespace (obj_meta x))" by (simp add: cl)
  then obtain w1 where r: "run H (create_each c ((x, wrap) # calls)) w = run H (create_each c calls) w1"
    and sp: "create_spec c [x] (store w) (store w1)" by (rule run_create_each_step)
  have fresh: "okid x \<notin> set (map okid (map fst calls))" using Cons.prems(1) by (simp add: cl)
  let ?N = "case x of ONamespace m \<Rightarrow> insert (m_name m) N | _ \<Rightarrow> N"
  have "namespace_ready (store w1) c n" if "n \<in> ?N" for n
  proof (cases "n \<in> N")
    case True
    with Cons.prems(4) create_spec_ready [OF sp] show ?thesis by blast
  next
    case False
    with that obtain m where x: "x = ONamespace m" "n = m_name m" by (auto split: obj.splits)
    have "ONamespace m \<in> set (map fst (cl # calls))" by (simp add: cl x)
    with Cons.prems(3) have "m_namespace m = []" "m_deletion m = None"
      "store w c KNamespace (ObjectKey [] n) = None \<or> live (store w c KNamespace (ObjectKey [] n))"
      unfolding no_terminating_namespace_def x(2) by blast+
    moreover from this sp x have "kept_or_created x (store w c KNamespace (ObjectKey [] n)) (store w1 c KNamespace (ObjectKey [] n))"
      by (simp add: changes_def ObjectKeyFromObject_def)
    ultimately have "live (store w1 c KNamespace (ObjectKey [] n))" using x by (auto elim: kept_or_created_live)
    then show ?thesis by (simp add: namespace_ready_def)
  qed
  with Cons.IH [of ?N w1] Cons.prems create_spec_terminating [OF sp _ fresh]
  obtain w2 where "run H (create_each c calls) w1 = (Done None, w2)"
    "create_spec c (map fst calls) (store w1) (store w2)"
    by (auto simp: cl)
  with r changes_Cons [OF sp _ fresh] cl show ?case by auto
qed

lemma run_delete_each:
  "\<exists>w'. run H (delete_each c calls errs) w = (Done (errors_Join errs), w') \<and>
    delete_spec c calls (store w) (store w')"
proof (induction calls arbitrary: w)
  case Nil
  then show ?case by (simp add: delete_spec_def)
next
  case (Cons cl calls)
  obtain k key where cl: "cl = (k, key)" by (cases cl)
  obtain w1 where r: "run H (delete_each c (cl # calls) errs) w = run H (delete_each c calls errs) w1"
    and sp: "delete_spec c [(k, key)] (store w) (store w1)"
    by (rule run_client_delete [of c k key w]) (auto simp: cl delete_spec_def)
  from Cons.IH [of w1] delete_spec_append [OF sp] r show ?case by (auto simp: cl)
qed

end

section \<open>Properties\<close>

text \<open>
  C29.  Provisioning under any behaviour of the spoke: the creates are issued in the order namespace,
  service account, reader binding, monitoring binding; an object that already exists is no failure;
  the first other failure ends the run with the matching sentinel error and no further request.
\<close>

theorem Provision_runs:
  assumes "exec (Provision c) t z"
  shows "\<exists>n \<le> 4. map fst t = map (Create c) (take n (map fst provision_calls)) \<and>
    ((n = 4 \<and> z = Done None \<and> (\<forall>(q, r) \<in> set t. create_failure r = None)) \<or>
     (\<exists>e err. 0 < n \<and> z = Done (Some err) \<and> create_failure (snd (last t)) = Some e \<and>
       (\<forall>(q, r) \<in> set (butlast t). create_failure r = None) \<and>
       errors_Is err (ApiErr e) \<and>
       errors_Is err (ProvErr ([ErrCreatingNamespace, ErrCreatingServiceAccount,
         ErrCreatingClusterRoleBinding, ErrCreatingClusterRoleBinding] ! (n - 1)))))"
proof -
  from assms have "exec (create_each c provision_calls) t z" by (simp add: Provision_def)
  then show ?thesis
  proof (cases rule: exec_create_each)
    case ok
    then show ?thesis
      by (intro exI [of _ 4]) (auto simp: created_all_def provision_calls_def)
  next
    case (failed xs x wrap ys t' r e)
    let ?n = "Suc (length xs)"
    have len: "length xs < 4" using arg_cong [OF failed(1), of length] by (simp add: provision_calls_def)
    have pre: "map fst t = map (Create c) (take ?n (map fst provision_calls))"
      using failed(2,3) by (simp add: failed(1) created_all_def)
    have "(x, wrap) = provision_calls ! length xs" by (simp add: failed(1))
    moreover from len have "length xs = 0 \<or> length xs = 1 \<or> length xs = 2 \<or> length xs = 3" by linarith
    ultimately have "errors_Is (wrap (ApiErr e)) (ApiErr e) \<and>
        errors_Is (wrap (ApiErr e)) (ProvErr ([ErrCreatingNamespace, ErrCreatingServiceAccount,
          ErrCreatingClusterRoleBinding, ErrCreatingClusterRoleBinding] ! length xs))"
      by (auto simp: provision_calls_def)
    with len pre failed show ?thesis
      by (intro exI [of _ ?n]) (auto simp: created_all_def)
  qed
qed

theorem Provision_runs_witness:
  "\<exists>t. exec (Provision Hub) t (Done None) \<and> map fst t = map (Create Hub) (map fst provision_calls)"
proof -
  have e: "exec (Provision Hub) (map (\<lambda>x. (Create Hub x, ROk)) (map fst provision_calls)) (Done None)"
    by (simp add: Provision_def provision_calls_def client_create_def exec_Vis_iff)
  from Provision_runs [OF e] e show ?thesis by (auto simp: provision_calls_def)
qed

text \<open>
  C30.  Deprovisioning is best effort: all the deletes of the adapter's and of the spoke's resources
  are issued in reverse order of their creation whatever the spoke answers, and the result is nil
  exactly when every answer was a success or a not-found, and otherwise the join of the failures.
\<close>

theorem Deprovision_runs:
  "exec (and_then (DeprovisionAdapter c) (\<lambda>a. and_then (Deprovision c) (\<lambda>b. Ret (a, b)))) t z \<longleftrightarrow>
    (\<exists>t1 t2. t = t1 @ t2 \<and>
      map fst t1 = map (\<lambda>x. Delete c (obj_kind x) (ObjectKeyFromObject x)) (rev (map fst provision_adapter_calls)) \<and>
      map fst t2 = map (\<lambda>x. Delete c (obj_kind x) (ObjectKeyFromObject x)) (rev (map fst provision_calls)) \<and>
      z = Done (errors_Join (map ApiErr (delete_failures t1)), errors_Join (map ApiErr (delete_failures t2))))"
proof -
  have 1: "map (\<lambda>(k, key). Delete c k key) deprovision_adapter_calls =
      map (\<lambda>x. Delete c (obj_kind x) (ObjectKeyFromObject x)) (rev (map fst provision_adapter_calls))"
    by (simp add: deprovision_adapter_calls_def provision_adapter_calls_def ObjectKeyFromObject_def adapter_rb_def)
  have 2: "map (\<lambda>(k, key). Delete c k key) deprovision_calls =
      map (\<lambda>x. Delete c (obj_kind x) (ObjectKeyFromObject x)) (rev (map fst provision_calls))"
    by (simp add: deprovision_calls_def provision_calls_def ObjectKeyFromObject_def crb_for_def)
  show ?thesis
    by (auto simp: exec_and_then_Done provisioner_ops exec_delete_each 1 [symmetric] 2 [symmetric])
qed

lemma provision_calls_ok:
  "distinct (map okid (map fst provision_calls))"
  "namespaces_in_order {[]} (map fst provision_calls)"
  "st c KNamespace (ObjectKey [] ManagedNamespace) = None \<or> live (st c KNamespace (ObjectKey [] ManagedNamespace)) \<Longrightarrow>
    no_terminating_namespace st c (map fst provision_calls)"
  by (auto simp: provision_calls_def crb_for_def ObjectKeyFromObject_def hub_consts no_terminating_namespace_def)

lemma delete_spec_changed:
  "delete_spec c ids st st' \<Longrightarrow> st' c' k' key' \<noteq> st c' k' key' \<Longrightarrow>
    c' = c \<and> deleted (st' c k' key') \<and> (\<exists>(k, key) \<in> set ids. \<not> outside k key k' key')"
  unfolding delete_spec_def by blast

text \<open>
  C13.  Provisioning a healthy spoke (any API server that meets \<open>api_server\<close>) whose managed namespace is
  not being deleted succeeds, whatever part of the resources is already there: existing objects are
  kept as they are, the missing ones are created as specified, nothing else on any cluster changes;
  and provisioning again changes nothing at all.
\<close>

theorem Provision_ensures:
  assumes "api_server H store"
    and "store w c KNamespace (ObjectKey [] ManagedNamespace) = None \<or>
      live (store w c KNamespace (ObjectKey [] ManagedNamespace))"
  shows "\<exists>w' w''. run H (Provision c) w = (Done None, w') \<and>
    create_spec c (map fst provision_calls) (store w) (store w') \<and>
    run H (Provision c) w' = (Done None, w'') \<and> store w'' = store w'"
proof -
  have once: "\<exists>w'. run H (create_each c provision_calls) w = (Done None, w') \<and>
      create_spec c (map fst provision_calls) (store w) (store w')"
    if "store w c KNamespace (ObjectKey [] ManagedNamespace) = None \<or>
      live (store w c KNamespace (ObjectKey [] ManagedNamespace))" for w
    by (rule api_server.run_create_each [OF assms(1) provision_calls_ok(1,2) provision_calls_ok(3) [of "store w", OF that]])
      (simp add: namespace_ready_def)
  from once [OF assms(2)] obtain w' where 1: "run H (create_each c provision_calls) w = (Done None, w')"
    "create_spec c (map fst provision_calls) (store w) (store w')" by blast
  have "kept_or_created (ONamespace (new_meta [] ManagedNamespace)) (store w c KNamespace (ObjectKey [] ManagedNamespace))
      (store w' c KNamespace (ObjectKey [] ManagedNamespace))"
    using 1(2) by (simp add: changes_def provision_calls_def ObjectKeyFromObject_def)
  with assms(2) have "live (store w' c KNamespace (ObjectKey [] ManagedNamespace))"
    by (auto elim: kept_or_created_live)
  with once [of w'] obtain w'' where 2: "run H (create_each c provision_calls) w' = (Done None, w'')"
    "create_spec c (map fst provision_calls) (store w') (store w'')" by blast
  from 1 2 create_spec_idem [OF 1(2) 2(2)] show ?thesis by (simp add: Provision_def)
qed

theorem Provision_ensures_witness:
  "\<exists>w' w''. run ref_server (Provision (Spoke spoke_config)) fresh_cluster = (Done None, w') \<and>
    create_spec (Spoke spoke_config) (map fst provision_calls) (ref_store fresh_cluster) (ref_store w') \<and>
    run ref_server (Provision (Spoke spoke_config)) w' = (Done None, w'') \<and> ref_store w'' = ref_store w'"
proof -
  have "ref_store fresh_cluster (Spoke spoke_config) KNamespace (ObjectKey [] ManagedNamespace) = None"
    by (simp add: fresh_cluster_def lookup_def ObjectKeyFromObject_def hub_consts)
  then show ?thesis by (intro Provision_ensures [OF ref.api_server_axioms] disjI1)
qed

text \<open>
  C14.  Cleaning up a healthy spoke succeeds whatever is there: afterwards each of the six resources is
  gone or waits for its finalizers, and any object that is none of them and not inside the managed
  namespace is exactly as before, on this and on every other cluster.
\<close>

theorem Deprovision_cleans:
  assumes "api_server H store"
  shows "\<exists>w'. run H (and_then (DeprovisionAdapter c) (\<lambda>a. and_then (Deprovision c) (\<lambda>b. Ret (a, b)))) w =
      (Done (None, None), w') \<and>
    (\<forall>x \<in> set (map fst (provision_calls @ provision_adapter_calls)). deleted (store w' c (obj_kind x) (okey x))) \<and>
    (\<forall>c' k key. store w' c' k key \<noteq> store w c' k key \<longrightarrow> c' = c \<and> deleted (store w' c k key) \<and>
      (k_namespace key = ManagedNamespace \<or>
       (k, key) \<in> set (map okid (map fst (provision_calls @ provision_adapter_calls)))))"
proof -
  from api_server.run_delete_each [OF assms, of c deprovision_adapter_calls "[]" w] obtain w1 where
    1: "run H (DeprovisionAdapter c) w = (Done None, w1)" "delete_spec c deprovision_adapter_calls (store w) (store w1)"
    by (auto simp: DeprovisionAdapter_def errors_Join_def)
  from api_server.run_delete_each [OF assms, of c deprovision_calls "[]" w1] obtain w2 where
    2: "run H (Deprovision c) w1 = (Done None, w2)" "delete_spec c deprovision_calls (store w1) (store w2)"
    by (auto simp: Deprovision_def errors_Join_def)
  have sp: "delete_spec c (deprovision_adapter_calls @ deprovision_calls) (store w) (store w2)"
    using 1(2) 2(2) by (rule delete_spec_append)
  show ?thesis
  proof (intro exI [of _ w2] conjI)
    show "run H (and_then (DeprovisionAdapter c) (\<lambda>a. and_then (Deprovision c) (\<lambda>b. Ret (a, b)))) w = (Done (None, None), w2)"
      using 1(1) 2(1) by simp
    show "\<forall>x \<in> set (map fst (provision_calls @ provision_adapter_calls)). deleted (store w2 c (obj_kind x) (okey x))"
      using sp by (simp add: delete_spec_def provision_calls_def provision_adapter_calls_def deprovision_calls_def
        deprovision_adapter_calls_def crb_for_def adapter_rb_def ObjectKeyFromObject_def)
    show "\<forall>c' k key. store w2 c' k key \<noteq> store w c' k key \<longrightarrow> c' = c \<and> deleted (store w2 c k key) \<and>
      (k_namespace key = ManagedNamespace \<or>
       (k, key) \<in> set (map okid (map fst (provision_calls @ provision_adapter_calls))))"
      using delete_spec_changed [OF sp]
      by (fastforce simp: outside_def provision_calls_def provision_adapter_calls_def deprovision_calls_def
        deprovision_adapter_calls_def crb_for_def adapter_rb_def ObjectKeyFromObject_def)
  qed
qed

theorem Deprovision_cleans_witness:
  "\<exists>w'. run ref_server (and_then (DeprovisionAdapter (Spoke spoke_config)) (\<lambda>a.
      and_then (Deprovision (Spoke spoke_config)) (\<lambda>b. Ret (a, b)))) fresh_cluster = (Done (None, None), w')"
  using Deprovision_cleans [OF ref.api_server_axioms, of "Spoke spoke_config" fresh_cluster] by blast

end
