(* ===== verification/Go_Time.thy ===== *)
theory Go_Time
  imports Hub_Prelude
begin

text \<open>
  The layout \<open>time.RFC3339\<close> of the Go standard library, as the code uses it for token expiries and
  restart stamps: formatting an instant in UTC and parsing it back.  Parsing follows
  \<open>time.Parse\<close> with its liberties (an hour of one digit, a fraction of a second after a
  period or a comma).  The calendar is the proleptic Gregorian one; days are counted from
  0000-01-01.
\<close>

section \<open>Calendar\<close>

definition leap_year :: "int \<Rightarrow> bool" where
  "leap_year y \<longleftrightarrow> y mod 4 = 0 \<and> (y mod 100 \<noteq> 0 \<or> y mod 400 = 0)"

definition month_lengths :: "int \<Rightarrow> int list" where
  "month_lengths y = [31, if leap_year y then 29 else 28, 31, 30, 31, 30, 31, 31, 30, 31, 30, 31]"

definition days_before_year :: "int \<Rightarrow> int" where
  "days_before_year y = 365 * y + (y + 3) div 4 - (y + 99) div 100 + (y + 399) div 400"

definition epoch_day :: int where
  "epoch_day = days_before_year 1970"

text \<open>The year of a day: 400 years have 146097 days, and the estimate from that is off by one at most.\<close>

definition year_of_day :: "int \<Rightarrow> int" where
  "year_of_day d =
    (let y = d * 400 div 146097
     in if d < days_before_year y then y - 1 else if days_before_year (y + 1) \<le> d then y + 1 else y)"

fun split_days :: "int list \<Rightarrow> int \<Rightarrow> nat \<times> int" where
  "split_days [] d = (0, d)"
| "split_days (l # ls) d = (if d < l then (0, d) else case split_days ls (d - l) of (i, r) \<Rightarrow> (Suc i, r))"

lemma split_days_sound:
  "0 \<le> d \<Longrightarrow> d < sum_list ls \<Longrightarrow> split_days ls d = (i, r) \<Longrightarrow>
    i < length ls \<and> 0 \<le> r \<and> r < ls ! i \<and> sum_list (take i ls) + r = d"
  by (induction ls d arbitrary: i r rule: split_days.induct) (auto split: if_splits prod.splits)

lemma ceiling_bounds: "0 < k \<Longrightarrow> y \<le> k * ((y + (k - 1)) div k) \<and> k * ((y + (k - 1)) div k) \<le> y + (k - 1)" for k y :: int
  using mult_div_mod_eq [of k "y + (k - 1)"] pos_mod_bound [of k "y + (k - 1)"] pos_mod_sign [of k "y + (k - 1)"]
  by linarith

lemma ceiling_step: "0 < k \<Longrightarrow> (y + k) div k - (y + (k - 1)) div k = (if y mod k = 0 then 1 else 0)" for k y :: int
proof -
  assume k: "0 < k"
  have "(y + (k - 1)) div k = y div k + (y mod k + (k - 1)) div k"
    using div_mult_self2 [of k "y mod k + (k - 1)" "y div k"] k mult_div_mod_eq [of k y] by (simp add: algebra_simps)
  moreover have "(y mod k + (k - 1)) div k = (if y mod k = 0 then 0 else 1)"
    using pos_mod_bound [OF k, of y] pos_mod_sign [OF k, of y] k
    by (cases "y mod k = 0") (auto intro!: div_pos_pos_trivial int_div_pos_eq [of _ _ 1 "y mod k - 1"]
      simp del: pos_mod_bound pos_mod_sign)
  ultimately show ?thesis using k by (simp add: div_add_self2)
qed

lemma days_before_year_bounds:
  "400 * days_before_year y \<le> 146097 * y + 800" "146097 * y - 400 \<le> 400 * days_before_year y"
proof -
  obtain a b c where "days_before_year y = 365 * y + a - b + c" "y \<le> 4 * a" "4 * a \<le> y + 3"
    "y \<le> 100 * b" "100 * b \<le> y + 99" "y \<le> 400 * c" "400 * c \<le> y + 399"
    using ceiling_bounds [of 4 y] ceiling_bounds [of 100 y] ceiling_bounds [of 400 y]
    by (simp add: days_before_year_def)
  then show "400 * days_before_year y \<le> 146097 * y + 800" "146097 * y - 400 \<le> 400 * days_before_year y"
    by linarith+
qed

lemma year_of_day:
  "days_before_year (year_of_day d) \<le> d \<and> d < days_before_year (year_of_day d + 1)"
proof -
  define y where "y = d * 400 div 146097"
  have y: "146097 * y \<le> d * 400" "d * 400 < 146097 * y + 146097"
    using mult_div_mod_eq [of 146097 "d * 400"] by (simp_all add: y_def algebra_simps)
  have "days_before_year (y - 1) \<le> d"
    using days_before_year_bounds(1) [of "y - 1"] y(1) by (simp add: algebra_simps)
  moreover have "d < days_before_year (y + 1 + 1)"
    using days_before_year_bounds(2) [of "y + 1 + 1"] y(2) by (simp add: algebra_simps)
  ultimately show ?thesis unfolding year_of_day_def Let_def y_def [symmetric] by auto
qed

lemma year_length:
  "days_before_year (y + 1) - days_before_year y =
    365 + (if y mod 4 = 0 then 1 else 0) - (if y mod 100 = 0 then 1 else 0) + (if y mod 400 = 0 then 1 else 0)"
proof -
  have sum: "x - a = i \<Longrightarrow> x' - b = j \<Longrightarrow> x'' - c = k \<Longrightarrow>
      (365 * (y + 1) + x - x' + x'') - (365 * y + a - b + c) = 365 + i - j + k" for x x' x'' a b c i j k :: int
    by (simp add: algebra_simps)
  have n: "y + 1 + 3 = y + 4" "y + 1 + 99 = y + 100" "y + 1 + 399 = y + 400" by simp_all
  show ?thesis unfolding days_before_year_def n
  proof (rule sum)
    show "(y + 4) div 4 - (y + 3) div 4 = (if y mod 4 = 0 then 1 else 0)" using ceiling_step [of 4 y] by simp
    show "(y + 100) div 100 - (y + 99) div 100 = (if y mod 100 = 0 then 1 else 0)" using ceiling_step [of 100 y] by simp
    show "(y + 400) div 400 - (y + 399) div 400 = (if y mod 400 = 0 then 1 else 0)" using ceiling_step [of 400 y] by simp
  qed
qed

lemma days_in_year: "days_before_year (y + 1) - days_before_year y = sum_list (month_lengths y)"
proof -
  have "y mod 400 mod 100 = y mod 100" "y mod 100 mod 4 = y mod 4" by (simp_all add: mod_mod_cancel)
  then have "y mod 400 = 0 \<Longrightarrow> y mod 100 = 0" "y mod 100 = 0 \<Longrightarrow> y mod 4 = 0" by (metis mod_0)+
  then show ?thesis unfolding year_length
    by (cases "y mod 4 = 0"; cases "y mod 100 = 0"; cases "y mod 400 = 0") (simp_all add: month_lengths_def leap_year_def)
qed

section \<open>Formatting\<close>

definition digit :: "int \<Rightarrow> char" where
  "digit n = char_of (48 + nat n)"

definition two_digits :: "int \<Rightarrow> string" where
  "two_digits n = [digit (n div 10), digit (n mod 10)]"

definition four_digits :: "int \<Rightarrow> string" where
  "four_digits n = (if n < 10000 then two_digits (n div 100) @ two_digits (n mod 100) else digits_of (nat n))"

definition year_text :: "int \<Rightarrow> string" where
  "year_text y = (if y < 0 then CHR ''-'' # four_digits (- y) else four_digits y)"

definition Format_RFC3339 :: "time \<Rightarrow> string" where
  "Format_RFC3339 t =
    (let secs = t div 10 ^ 9; day = secs div 86400 + epoch_day; sod = secs mod 86400; y = year_of_day day
     in case split_days (month_lengths y) (day - days_before_year y) of
       (i, d) \<Rightarrow> year_text y @ ''-'' @ two_digits (int i + 1) @ ''-'' @ two_digits (d + 1) @ ''T'' @
         two_digits (sod div 3600) @ '':'' @ two_digits (sod mod 3600 div 60) @ '':'' @
         two_digits (sod mod 60) @ ''Z'')"

section \<open>Parsing\<close>

definition isDigit :: "char \<Rightarrow> bool" where
  "isDigit c \<longleftrightarrow> 48 \<le> (of_char c :: nat) \<and> (of_char c :: nat) \<le> 57"

definition digit_value :: "char \<Rightarrow> int" where
  "digit_value c = int (of_char c) - 48"

definition number :: "string \<Rightarrow> int" where
  "number s = foldl (\<lambda>n c. 10 * n + digit_value c) 0 s"

text \<open>\<open>getnum(s, fixed)\<close>: two digits, or one where that is allowed.\<close>

fun getnum :: "bool \<Rightarrow> string \<Rightarrow> (int \<times> string) option" where
  "getnum fixed (c # c' # s) =
     (if \<not> isDigit c then None
      else if \<not> isDigit c' then (if fixed then None else Some (digit_value c, c' # s))
      else Some (10 * digit_value c + digit_value c', s))"
| "getnum fixed [c] = (if isDigit c \<and> \<not> fixed then Some (digit_value c, []) else None)"
| "getnum fixed [] = None"

text \<open>A literal character of the layout, then a number in a range.\<close>

definition field :: "char \<Rightarrow> bool \<Rightarrow> int \<Rightarrow> int \<Rightarrow> string \<Rightarrow> (int \<times> string) option" where
  "field c fixed lo hi s =
    (case s of [] \<Rightarrow> None
     | x # rest \<Rightarrow> if x \<noteq> c then None
         else (case getnum fixed rest of
             None \<Rightarrow> None
           | Some (n, rest') \<Rightarrow> if lo \<le> n \<and> n < hi then Some (n, rest') else None))"

definition fraction :: "string \<Rightarrow> int \<times> string" where
  "fraction s =
    (case s of
       x # c # rest \<Rightarrow>
         if (x = CHR ''.'' \<or> x = CHR '','') \<and> isDigit c then
           (let ds = takeWhile isDigit (c # rest)
            in (number (take 9 ds) * 10 ^ (9 - length (take 9 ds)), dropWhile isDigit (c # rest)))
         else (0, s)
     | _ \<Rightarrow> (0, s))"

definition zone :: "string \<Rightarrow> int option" where
  "zone s =
    (if s = ''Z'' then Some 0
     else if length s = 6 \<and> s ! 3 = CHR '':'' \<and> s ! 0 \<in> {CHR ''+'', CHR ''-''} then
       (case (getnum True (take 2 (drop 1 s)), getnum True (drop 4 s)) of
          (Some (hh, _), Some (mm, _)) \<Rightarrow>
            if hh \<le> 24 \<and> mm \<le> 60 then Some ((if s ! 0 = CHR ''-'' then - 1 else 1) * (hh * 60 + mm) * 60) else None
        | _ \<Rightarrow> None)
     else None)"

definition instant :: "int \<Rightarrow> int \<Rightarrow> int \<Rightarrow> int \<Rightarrow> int \<Rightarrow> int \<Rightarrow> int \<Rightarrow> int \<Rightarrow> time" where
  "instant y mo d h mi sec nsec off =
    ((days_before_year y + sum_list (take (nat (mo - 1)) (month_lengths y)) + (d - 1) - epoch_day) * 86400 +
      h * 3600 + mi * 60 + sec - off) * 10 ^ 9 + nsec"

definition Parse_RFC3339 :: "string \<Rightarrow> time option" where
  "Parse_RFC3339 s =
    (if length s < 4 \<or> \<not> list_all isDigit (take 4 s) then None
     else let y = number (take 4 s) in
     case field (CHR ''-'') True 1 13 (drop 4 s) of None \<Rightarrow> None | Some (mo, s1) \<Rightarrow>
     (case field (CHR ''-'') True 1 (month_lengths y ! nat (mo - 1) + 1) s1 of None \<Rightarrow> None | Some (d, s2) \<Rightarrow>
     (case field (CHR ''T'') False 0 24 s2 of None \<Rightarrow> None | Some (h, s3) \<Rightarrow>
     (case field (CHR '':'') True 0 60 s3 of None \<Rightarrow> None | Some (mi, s4) \<Rightarrow>
     (case field (CHR '':'') True 0 60 s4 of None \<Rightarrow> None | Some (sec, s5) \<Rightarrow>
     (case fraction s5 of (nsec, s6) \<Rightarrow>
     (case zone s6 of None \<Rightarrow> None | Some off \<Rightarrow> Some (instant y mo d h mi sec nsec off))))))))"

section \<open>Round trip\<close>

text \<open>The instants that have a year of four digits.\<close>

definition rfc3339_range :: "time \<Rightarrow> bool" where
  "rfc3339_range t \<longleftrightarrow> - 62167219200 * 10 ^ 9 \<le> t \<and> t < 253402300800 * 10 ^ 9"

definition trunc_second :: "time \<Rightarrow> time" where
  "trunc_second t = t div 10 ^ 9 * 10 ^ 9"

lemma of_digit: "0 \<le> n \<Longrightarrow> n < 10 \<Longrightarrow> (of_char (digit n) :: nat) = 48 + nat n"
  by (simp add: digit_def)

lemma digit_simps [simp]:
  "0 \<le> n \<Longrightarrow> n < 10 \<Longrightarrow> isDigit (digit n)" "0 \<le> n \<Longrightarrow> n < 10 \<Longrightarrow> digit_value (digit n) = n"
  by (auto simp: isDigit_def digit_value_def of_digit)

lemma getnum_two_digits [simp]: "0 \<le> n \<Longrightarrow> n < 100 \<Longrightarrow> getnum fixed (two_digits n @ s) = Some (n, s)"
  by (simp add: two_digits_def)

lemma field_two_digits:
  "lo \<le> n \<Longrightarrow> n < hi \<Longrightarrow> 0 \<le> n \<Longrightarrow> n < 100 \<Longrightarrow> field c fixed lo hi (c # two_digits n @ s) = Some (n, s)"
  by (simp add: field_def)

lemma number_four_digits:
  assumes "0 \<le> n" "n < 10000"
  shows "length (four_digits n) = 4" "list_all isDigit (four_digits n)" "number (four_digits n) = n"
proof -
  have b: "0 \<le> n div 100 div 10" "n div 100 div 10 < 10" "0 \<le> n mod 100 div 10" "n mod 100 div 10 < 10"
    using assms by auto
  have "1000 * (n div 100 div 10) + 100 * (n div 100 mod 10) + 10 * (n mod 100 div 10) + n mod 100 mod 10 = n"
    by presburger
  with b assms show "length (four_digits n) = 4" "list_all isDigit (four_digits n)" "number (four_digits n) = n"
    by (simp_all add: four_digits_def two_digits_def number_def)
qed

lemma zone_Z: "fraction ''Z'' = (0, ''Z'')" "zone ''Z'' = Some 0"
  by (simp_all add: fraction_def zone_def)

theorem Parse_Format:
  assumes "rfc3339_range t"
  shows "Parse_RFC3339 (Format_RFC3339 t) = Some (trunc_second t)"
proof -
  define secs where "secs = t div 10 ^ 9"
  define day where "day = secs div 86400 + epoch_day"
  define sod where "sod = secs mod 86400"
  define y where "y = year_of_day day"
  obtain i d where sp: "split_days (month_lengths y) (day - days_before_year y) = (i, d)" by fastforce
  have yb: "days_before_year y \<le> day" "day < days_before_year (y + 1)"
    using year_of_day [of day] by (simp_all add: y_def)
  have md: "i < length (month_lengths y)" "0 \<le> d" "d < month_lengths y ! i"
      "sum_list (take i (month_lengths y)) + d = day - days_before_year y"
    using split_days_sound [OF _ _ sp] yb days_in_year [of y] by linarith+
  have e: "epoch_day = 719528" by (simp add: epoch_day_def days_before_year_def)
  define ns where "ns = t mod 10 ^ 9"
  have "t = 10 ^ 9 * secs + ns" "0 \<le> ns" "ns < 10 ^ 9" by (simp_all add: secs_def ns_def)
  then have r: "- 62167219200 \<le> secs" "secs < 253402300800"
    using assms unfolding rfc3339_range_def by simp_all
  then have "0 \<le> day" "day < 3652425" unfolding day_def e by linarith+
  then have "- 1 \<le> y" "y \<le> 10000"
    using yb days_before_year_bounds(2) [of y] days_before_year_bounds(1) [of "y + 1"]
    by (simp_all add: algebra_simps)
  moreover have "days_before_year 0 = 0" "days_before_year 10000 = 3652425" by (simp_all add: days_before_year_def)
  then have "y \<noteq> - 1" "y \<noteq> 10000" using yb \<open>0 \<le> day\<close> \<open>day < 3652425\<close> by auto
  ultimately have y: "0 \<le> y" "y < 10000" by simp_all
  have i: "i < 12" using md(1) by (simp add: month_lengths_def)
  have ml: "month_lengths y ! i \<le> 31" using i by (auto simp: month_lengths_def nth_Cons split: nat.split)
  have s: "0 \<le> sod" "sod < 86400" by (simp_all add: sod_def)
  let ?h = "sod div 3600" and ?m = "sod mod 3600 div 60" and ?s = "sod mod 60"
  have hms: "0 \<le> ?h" "?h < 24" "0 \<le> ?m" "?m < 60" "0 \<le> ?s" "?s < 60" using s by linarith+
  have fmt: "Format_RFC3339 t = four_digits y @ CHR ''-'' # two_digits (int i + 1) @ CHR ''-'' # two_digits (d + 1) @
      CHR ''T'' # two_digits ?h @ CHR '':'' # two_digits ?m @ CHR '':'' # two_digits ?s @ ''Z''"
    using y sp by (simp add: Format_RFC3339_def Let_def secs_def day_def sod_def y_def year_text_def)
  note f4 = number_four_digits [OF y]
  have "Parse_RFC3339 (Format_RFC3339 t) = Some (instant y (int i + 1) (d + 1) ?h ?m ?s 0 0)"
    unfolding fmt Parse_RFC3339_def Let_def using md i ml hms
    by (simp add: f4 field_two_digits zone_Z)
  also have "instant y (int i + 1) (d + 1) ?h ?m ?s 0 0 = trunc_second t"
  proof -
    have "sod mod 3600 mod 60 = ?s" by (simp add: mod_mod_cancel)
    then have hms: "?h * 3600 + ?m * 60 + ?s = sod"
      using div_mult_mod_eq [of sod 3600] div_mult_mod_eq [of "sod mod 3600" 60] by (metis add.assoc)
    have days: "days_before_year y + sum_list (take i (month_lengths y)) + (d + 1 - 1) - epoch_day = secs div 86400"
      using md(4) unfolding day_def by linarith
    have n: "nat (int i + 1 - 1) = i" by simp
    have "secs div 86400 * 86400 + ?h * 3600 + ?m * 60 + ?s - 0 = secs"
      using hms div_mult_mod_eq [of secs 86400] unfolding sod_def [symmetric] by linarith
    then have "instant y (int i + 1) (d + 1) ?h ?m ?s 0 0 = secs * 10 ^ 9 + 0"
      unfolding instant_def n days by (simp only:)
    then show ?thesis by (simp add: trunc_second_def secs_def)
  qed
  finally show ?thesis .
qed

end
