(* ===== verification/Adapter_Deployment.thy ===== *)
theory Adapter_Deployment
  imports Provisioner Go_Time
begin

text \<open>
  The hub-side stack of the alerts adapter (\<^verbatim>\<open>internal/controller/adapter_deployment.go\<close>): the
  desired objects, creating or updating them, tearing them down and restarting the Deployment.
  All requests go to the hub.
\<close>

section \<open>Constants\<close>

definition adapterName :: string where
  [hub_consts]: "adapterName = ''lightspeed-hub-alerts-adapter''"
definition adapterConfigMapName :: string where
  [hub_consts]: "adapterConfigMapName = ''hub-alerts-adapter-config''"
definition adapterClusterRoleName :: string where
  [hub_consts]: "adapterClusterRoleName = ''lightspeed-hub-alerts-adapter-cluster''"
definition adapterMonitoringRBName :: string where
  [hub_consts]: "adapterMonitoringRBName = ''lightspeed-hub-alerts-adapter-alertmanager''"
definition adapterRestartAnnotation :: string where
  [hub_consts]: "adapterRestartAnnotation = ''hub.openshift.io/restart-timestamp''"

section \<open>The desired objects\<close>

definition adapterLabels :: "string go_map" where
  "adapterLabels = [(''app'', adapterName)]"

definition adapterServiceAccount :: "string \<Rightarrow> object_meta" where
  "adapterServiceAccount ns = new_meta ns adapterName"

definition adapterRole :: "string \<Rightarrow> role" where
  "adapterRole ns = \<lparr>role_meta = new_meta ns adapterName,
     role_rules =
      [\<lparr>pr_apiGroups = [''agentic.openshift.io''], pr_resources = [''agenticruns''], pr_resourceNames = [],
         pr_verbs = [''create'', ''list'', ''get'']\<rparr>,
       \<lparr>pr_apiGroups = [''''], pr_resources = [''secrets''], pr_resourceNames = [], pr_verbs = [''get'']\<rparr>]\<rparr>"

definition adapter_subject :: "string \<Rightarrow> subject" where
  "adapter_subject ns = \<lparr>sub_kind = ''ServiceAccount'', sub_name = adapterName, sub_namespace = ns\<rparr>"

definition adapterRoleBinding :: "string \<Rightarrow> binding" where
  "adapterRoleBinding ns = \<lparr>b_meta = new_meta ns adapterName,
     b_roleRef = \<lparr>rr_apiGroup = rbac_GroupName, rr_kind = ''Role'', rr_name = adapterName\<rparr>,
     b_subjects = [adapter_subject ns]\<rparr>"

definition adapterMonitoringRoleBinding :: "string \<Rightarrow> binding" where
  "adapterMonitoringRoleBinding ns = \<lparr>b_meta = new_meta ''openshift-monitoring'' adapterMonitoringRBName,
     b_roleRef = \<lparr>rr_apiGroup = rbac_GroupName, rr_kind = ''Role'', rr_name = ''monitoring-alertmanager-view''\<rparr>,
     b_subjects = [adapter_subject ns]\<rparr>"

definition adapterClusterRole :: role where
  "adapterClusterRole = \<lparr>role_meta = new_meta [] adapterClusterRoleName,
     role_rules =
      [\<lparr>pr_apiGroups = [''agentic.openshift.io''], pr_resources = [''agenticolsconfigs''],
         pr_resourceNames = [''cluster''], pr_verbs = [''get'']\<rparr>,
       \<lparr>pr_apiGroups = [''hub.openshift.io''], pr_resources = [''spokeclusters''], pr_resourceNames = [],
         pr_verbs = [''list'', ''watch'']\<rparr>]\<rparr>"

definition adapterClusterRoleBinding :: "string \<Rightarrow> binding" where
  "adapterClusterRoleBinding ns = \<lparr>b_meta = new_meta [] adapterClusterRoleName,
     b_roleRef = \<lparr>rr_apiGroup = rbac_GroupName, rr_kind = ''ClusterRole'', rr_name = adapterClusterRoleName\<rparr>,
     b_subjects = [adapter_subject ns]\<rparr>"

definition adapter_config_yaml :: string where
  "adapter_config_yaml = concat (map (\<lambda>l. l @ [CHR 0x0A])
     [''filtering:'',
      ''  allowedReceivers: []'',
      ''tools:'',
      ''  skills:'',
      ''  - image: quay.io/openshiftanalytics/agentic-skills:latest'',
      ''    paths:'',
      ''     - /skills/cluster-troubleshoot/investigate-alert''])"

definition adapterConfigMap :: "string \<Rightarrow> configmap" where
  "adapterConfigMap ns = \<lparr>cm_meta = new_meta ns adapterConfigMapName,
     cm_data = [(''config.yaml'', adapter_config_yaml)]\<rparr>"

definition adapter_container :: "string \<Rightarrow> container" where
  "adapter_container img = \<lparr>ctr_name = ''adapter'', ctr_image = img, ctr_args = [''--multicluster''],
     ctr_requests = [(''cpu'', ''10m''), (''memory'', ''64Mi'')],
     ctr_allowPrivilegeEscalation = Some False, ctr_readOnlyRootFilesystem = Some True,
     ctr_dropCapabilities = [''ALL''],
     ctr_volumeMounts = [(''config'', ''/etc/alerts-adapter'', True)],
     ctr_env = [(''ALERTMANAGER_URL'', EnvValue ''''), (''POD_NAMESPACE'', EnvFieldRef ''metadata.namespace'')]\<rparr>"

definition adapterDeployment :: "string \<Rightarrow> string \<Rightarrow> deployment" where
  "adapterDeployment ns img = \<lparr>d_meta = (new_meta ns adapterName)\<lparr>m_labels := Some adapterLabels\<rparr>,
     d_replicas = Some 1, d_selector = adapterLabels,
     d_template = \<lparr>pt_labels = Some adapterLabels, pt_annotations = None, pt_serviceAccountName = adapterName,
       pt_runAsNonRoot = Some True, pt_configMapVolumes = [(''config'', adapterConfigMapName)],
       pt_containers = [adapter_container img]\<rparr>\<rparr>"

record adapter_resource =
  ar_kind :: string
  ar_resource :: obj
  ar_update :: bool

abbreviation adapterResource :: "string \<Rightarrow> obj \<Rightarrow> bool \<Rightarrow> adapter_resource" where
  "adapterResource k x u \<equiv> \<lparr>ar_kind = k, ar_resource = x, ar_update = u\<rparr>"

definition adapterResources :: "string \<Rightarrow> adapter_resource list" where
  "adapterResources ns =
    [adapterResource ''ServiceAccount'' (OServiceAccount (adapterServiceAccount ns)) False,
     adapterResource ''Role'' (ORole (adapterRole ns)) True,
     adapterResource ''RoleBinding'' (ORoleBinding (adapterRoleBinding ns)) True,
     adapterResource ''RoleBinding'' (ORoleBinding (adapterMonitoringRoleBinding ns)) True,
     adapterResource ''ClusterRole'' (OClusterRole adapterClusterRole) True,
     adapterResource ''ClusterRoleBinding'' (OClusterRoleBinding (adapterClusterRoleBinding ns)) True,
     adapterResource ''ConfigMap'' (OConfigMap (adapterConfigMap ns)) False]"

section \<open>Operations\<close>

definition resource_error :: "controller_err \<Rightarrow> adapter_resource \<Rightarrow> api_error \<Rightarrow> go_error" where
  "resource_error s ar e = Errorf [W (CtrlErr s), S '' '', S (ar_kind ar), S '' '',
     S (m_name (obj_meta (ar_resource ar))), S '': '', W (ApiErr e)]"

definition ensureAdapterResource :: "adapter_resource \<Rightarrow> go_error option prog" where
  "ensureAdapterResource ar =
    and_then (client_get Hub (obj_kind (ar_resource ar)) (as_kind (obj_kind (ar_resource ar)))
      (ObjectKeyFromObject (ar_resource ar))) (\<lambda>res.
    case res of
      Inl err \<Rightarrow> Ret (Some (resource_error ErrGettingAdapterResource ar err))
    | Inr existing \<Rightarrow>
        and_then (client_update Hub
          (map_meta (\<lambda>m. m\<lparr>m_version := m_version (obj_meta existing)\<rparr>) (ar_resource ar))) (\<lambda>ures.
        case ures of
          Inl err \<Rightarrow> Ret (Some (resource_error ErrUpdatingAdapterResource ar err))
        | Inr _ \<Rightarrow> Ret None))"

definition ensureAdapterDeployment :: "string \<Rightarrow> string \<Rightarrow> go_error option prog" where
  "ensureAdapterDeployment ns img =
    (let desired = adapterDeployment ns img;
         wrap = (\<lambda>s what e. Errorf [W (CtrlErr s), S '' '', S (m_name (d_meta desired)), S what, S '': '', W (ApiErr e)]) in
     and_then (client_create Hub (ODeployment desired)) (\<lambda>cerr.
     case cerr of
       None \<Rightarrow> Ret None
     | Some err \<Rightarrow>
         if \<not> IsAlreadyExists err then Ret (Some (wrap ErrCreatingAdapterDeployment [] err))
         else and_then (get_deployment (ObjectKeyFromObject (ODeployment desired))) (\<lambda>res.
         case res of
           Inl err \<Rightarrow> Ret (Some (wrap ErrGettingAdapterDeployment [] err))
         | Inr existing \<Rightarrow>
             (case pt_containers (d_template existing) of
                [] \<Rightarrow> Ret None
              | ctr # rest \<Rightarrow>
                  if ctr_image ctr \<noteq> img then
                    and_then (client_update Hub (ODeployment (existing\<lparr>d_template :=
                      (d_template existing)\<lparr>pt_containers := ctr\<lparr>ctr_image := img\<rparr> # rest\<rparr>\<rparr>))) (\<lambda>ures.
                    case ures of
                      Inl err \<Rightarrow> Ret (Some (wrap ErrUpdatingAdapterDeployment '' image'' err))
                    | Inr _ \<Rightarrow> Ret None)
                  else Ret None))))"

text \<open>The loop over \<open>adapterResources\<close>, followed by what comes after it.\<close>

fun ensure_resources :: "adapter_resource list \<Rightarrow> go_error option prog \<Rightarrow> go_error option prog" where
  "ensure_resources [] after = after"
| "ensure_resources (ar # rest) after =
     and_then (client_create Hub (ar_resource ar)) (\<lambda>cerr.
     case cerr of
       None \<Rightarrow> ensure_resources rest after
     | Some err \<Rightarrow>
         if \<not> IsAlreadyExists err then Ret (Some (resource_error ErrCreatingAdapterResource ar err))
         else if ar_update ar then
           and_then (ensureAdapterResource ar) (\<lambda>uerr.
           case uerr of Some e \<Rightarrow> Ret (Some e) | None \<Rightarrow> ensure_resources rest after)
         else ensure_resources rest after)"

definition ensureAdapterStack :: "string \<Rightarrow> string \<Rightarrow> go_error option prog" where
  "ensureAdapterStack ns img = ensure_resources (adapterResources ns) (ensureAdapterDeployment ns img)"

text \<open>The deletes of \<open>teardownAdapterStack\<close>: all are attempted, and the first failure is returned.\<close>

definition teardown_resources :: "string \<Rightarrow> adapter_resource list" where
  "teardown_resources ns =
    [adapterResource ''Deployment'' (ODeployment (adapterDeployment ns [])) False,
     adapterResource ''ConfigMap'' (OConfigMap (adapterConfigMap ns)) False,
     adapterResource ''ClusterRoleBinding'' (OClusterRoleBinding (adapterClusterRoleBinding ns)) False,
     adapterResource ''ClusterRole'' (OClusterRole adapterClusterRole) False,
     adapterResource ''RoleBinding'' (ORoleBinding (adapterMonitoringRoleBinding ns)) False,
     adapterResource ''RoleBinding'' (ORoleBinding (adapterRoleBinding ns)) False,
     adapterResource ''Role'' (ORole (adapterRole ns)) False,
     adapterResource ''ServiceAccount'' (OServiceAccount (adapterServiceAccount ns)) False]"

fun delete_resources :: "adapter_resource list \<Rightarrow> go_error option \<Rightarrow> go_error option prog" where
  "delete_resources [] firstErr = Ret firstErr"
| "delete_resources (ar # rest) firstErr =
     and_then (client_delete Hub (obj_kind (ar_resource ar)) (ObjectKeyFromObject (ar_resource ar))) (\<lambda>derr.
     case derr of
       Some err \<Rightarrow>
         if \<not> IsNotFound err then
           delete_resources rest (if firstErr = None then Some (resource_error ErrDeletingAdapterResource ar err) else firstErr)
         else delete_resources rest firstErr
     | None \<Rightarrow> delete_resources rest firstErr)"

definition teardownAdapterStack :: "string \<Rightarrow> go_error option prog" where
  "teardownAdapterStack ns = delete_resources (teardown_resources ns) None"

definition restartAdapterDeployment :: "string \<Rightarrow> go_error option prog" where
  "restartAdapterDeployment ns =
    and_then (get_deployment (ObjectKey ns adapterName)) (\<lambda>res.
    case res of
      Inl err \<Rightarrow>
        if IsNotFound err then Ret None
        else Ret (Some (Errorf [W (CtrlErr ErrGettingAdapterForRestart), S '': '', W (ApiErr err)]))
    | Inr dep \<Rightarrow>
        (let annotations = (case pt_annotations (d_template dep) of None \<Rightarrow> Some [] | Some l \<Rightarrow> Some l) in
         and_then get_now (\<lambda>now.
         and_then (map_put annotations adapterRestartAnnotation (Format_RFC3339 now)) (\<lambda>annotations'.
         and_then (client_update Hub (ODeployment (dep\<lparr>d_template :=
           (d_template dep)\<lparr>pt_annotations := annotations'\<rparr>\<rparr>))) (\<lambda>ures.
         case ures of
           Inl err \<Rightarrow> Ret (Some (Errorf [W (CtrlErr ErrUpdatingAdapterForRestart), S '': '', W (ApiErr err)]))
         | Inr _ \<Rightarrow> Ret None)))))"

section \<open>Panic freedom\<close>

lemma never_panics_ensureAdapterResource [simp]: "never_panics (ensureAdapterResource ar)"
  by (auto simp: ensureAdapterResource_def intro!: never_panics_and_then split: sum.splits)

lemma never_panics_ensureAdapterDeployment [simp]: "never_panics (ensureAdapterDeployment ns img)"
  by (auto simp: ensureAdapterDeployment_def Let_def hub_ops intro!: never_panics_and_then
      split: sum.splits option.splits list.splits)

lemma never_panics_ensure_resources: "never_panics after \<Longrightarrow> never_panics (ensure_resources ars after)"
  by (induction ars after rule: ensure_resources.induct)
    (auto intro!: never_panics_and_then split: option.splits)

lemma never_panics_delete_resources [simp]: "never_panics (delete_resources ars e)"
  by (induction ars e rule: delete_resources.induct)
    (auto intro!: never_panics_and_then split: option.splits)

lemma never_panics_restart [simp]: "never_panics (restartAdapterDeployment ns)"
  by (auto simp: restartAdapterDeployment_def Let_def hub_ops intro!: never_panics_and_then
      split: sum.splits option.splits)

lemma never_panics_adapter_stack [simp]:
  "never_panics (ensureAdapterStack ns img)" "never_panics (teardownAdapterStack ns)"
  by (simp_all add: ensureAdapterStack_def teardownAdapterStack_def never_panics_ensure_resources)

section \<open>Tearing down\<close>

text \<open>The first failure among the answers to the deletes, with the resource it belongs to.\<close>

definition first_failure :: "adapter_resource list \<Rightarrow> event list \<Rightarrow> go_error option" where
  "first_failure ars t =
    (case List.map_filter (\<lambda>(ar, q, r). map_option (resource_error ErrDeletingAdapterResource ar) (delete_failure r)) (zip ars t) of
       [] \<Rightarrow> None
     | e # es \<Rightarrow> Some e)"

lemma first_failure_simps [simp]:
  "first_failure [] t = None"
  "first_failure (ar # ars) ((q, r) # t) =
     (case delete_failure r of None \<Rightarrow> first_failure ars t | Some e \<Rightarrow> Some (resource_error ErrDeletingAdapterResource ar e))"
  by (auto simp: first_failure_def List.map_filter_simps split: option.splits)

lemma delete_resources_step:
  "delete_resources (ar # rest) e0 = Vis (Delete Hub (obj_kind (ar_resource ar)) (okey (ar_resource ar))) (\<lambda>r.
     delete_resources rest (case e0 of Some e \<Rightarrow> Some e
       | None \<Rightarrow> map_option (resource_error ErrDeletingAdapterResource ar) (delete_failure r)))"
proof -
  have "(case resp_error r of
       Some err \<Rightarrow>
         if \<not> IsNotFound err then
           delete_resources rest (if e0 = None then Some (resource_error ErrDeletingAdapterResource ar err) else e0)
         else delete_resources rest e0
     | None \<Rightarrow> delete_resources rest e0) =
    delete_resources rest (case e0 of Some e \<Rightarrow> Some e
       | None \<Rightarrow> map_option (resource_error ErrDeletingAdapterResource ar) (delete_failure r))" for r
    by (cases r; cases e0) (auto simp: delete_failure_def)
  then show ?thesis by (simp add: client_delete_def)
qed

lemma exec_delete_resources:
  "exec (delete_resources ars e0) t z \<longleftrightarrow>
    map fst t = map (\<lambda>ar. Delete Hub (obj_kind (ar_resource ar)) (okey (ar_resource ar))) ars \<and>
    z = Done (case e0 of Some e \<Rightarrow> Some e | None \<Rightarrow> first_failure ars t)"
proof (induction ars arbitrary: t e0)
  case Nil
  then show ?case by (auto split: option.splits)
next
  case (Cons ar ars)
  note IH = Cons.IH
  show ?case
  proof (cases t)
    case (Cons qr t')
    obtain q r where "qr = (q, r)" by (cases qr)
    with Cons show ?thesis
      by (cases e0; cases "delete_failure r")
        (auto simp: delete_resources_step exec_Vis_iff IH
          simp del: delete_resources.simps)
  qed (simp add: delete_resources_step exec_Vis_iff del: delete_resources.simps)
qed

lemma first_failure_None:
  "length ars = length t \<Longrightarrow> first_failure ars t = None \<longleftrightarrow> (\<forall>(q, r) \<in> set t. delete_failure r = None)"
proof (induction ars arbitrary: t)
  case (Cons ar ars)
  then obtain q r t' where "t = (q, r) # t'" by (cases t) auto
  with Cons show ?case by (auto split: option.splits)
qed simp

lemma teardown_is_reverse:
  "map ar_resource (teardown_resources ns) =
    rev (map ar_resource (adapterResources ns) @ [ODeployment (adapterDeployment ns [])])"
  by (simp add: teardown_resources_def adapterResources_def)

text \<open>
  C31.  Tearing down the adapter stack, under any behaviour of the API server: all eight objects are
  deleted, in reverse order of their creation, whatever the answers are; the result is nil exactly
  when each answer was a success or a not-found, and otherwise names the first object that failed.
\<close>

theorem teardown_runs:
  "exec (teardownAdapterStack ns) t z \<longleftrightarrow>
    map fst t = map (\<lambda>x. Delete Hub (obj_kind x) (okey x))
      (rev (map ar_resource (adapterResources ns) @ [ODeployment (adapterDeployment ns [])])) \<and>
    z = Done (first_failure (teardown_resources ns) t) \<and>
    (z = Done None \<longleftrightarrow> (\<forall>(q, r) \<in> set t. delete_failure r = None))"
proof -
  have "map (\<lambda>ar. Delete Hub (obj_kind (ar_resource ar)) (okey (ar_resource ar))) (teardown_resources ns) =
      map (\<lambda>x. Delete Hub (obj_kind x) (okey x)) (map ar_resource (teardown_resources ns))"
    by simp
  then have e: "exec (teardownAdapterStack ns) t z \<longleftrightarrow>
      map fst t = map (\<lambda>x. Delete Hub (obj_kind x) (okey x))
        (rev (map ar_resource (adapterResources ns) @ [ODeployment (adapterDeployment ns [])])) \<and>
      z = Done (first_failure (teardown_resources ns) t)" (is "_ \<longleftrightarrow> ?m \<and> _")
    unfolding teardownAdapterStack_def exec_delete_resources teardown_is_reverse by simp
  have "length (teardown_resources ns) = length t" if ?m
    using arg_cong [OF that, of length] by (simp add: teardown_resources_def adapterResources_def)
  with e show ?thesis using first_failure_None [of "teardown_resources ns" t] by auto
qed

theorem teardown_runs_witness:
  "exec (teardownAdapterStack ''hub'') (map (\<lambda>x. (Delete Hub (obj_kind x) (okey x), ROk))
      (rev (map ar_resource (adapterResources ''hub'') @ [ODeployment (adapterDeployment ''hub'' [])]))) (Done None)"
  (is "exec _ ?t _")
proof -
  have "map fst ?t = map (\<lambda>x. Delete Hub (obj_kind x) (okey x))
      (rev (map ar_resource (adapterResources ''hub'') @ [ODeployment (adapterDeployment ''hub'' [])]))"
    by (simp add: rev_map)
  moreover have all: "\<forall>(q, r) \<in> set ?t. delete_failure r = None" by (auto simp: delete_failure_def)
  moreover have "length (teardown_resources ''hub'') = length ?t"
    by (simp add: teardown_resources_def adapterResources_def)
  ultimately show ?thesis
    using teardown_runs [of "''hub''" ?t "Done None"] first_failure_None [of "teardown_resources ''hub''" ?t] by simp
qed

section \<open>Ensuring the stack\<close>

text \<open>
  What the code promises for a resource: an object that exists is brought to the desired content
  when \<open>update\<close> is set and kept as it is otherwise; a missing one is created.
\<close>

definition ensured :: "adapter_resource \<Rightarrow> obj option \<Rightarrow> obj option \<Rightarrow> bool" where
  "ensured ar old new \<longleftrightarrow>
    (if ar_update ar \<or> old = None then (\<exists>y. new = Some y \<and> admits (ar_resource ar) y) else new = old)"

text \<open>The Deployment: created, or the image of its first container set and all else kept.\<close>

definition set_image :: "string \<Rightarrow> deployment \<Rightarrow> deployment" where
  "set_image img d = d\<lparr>d_template := (d_template d)\<lparr>pt_containers :=
     (case pt_containers (d_template d) of [] \<Rightarrow> [] | ctr # rest \<Rightarrow> ctr\<lparr>ctr_image := img\<rparr> # rest)\<rparr>\<rparr>"

lemma set_image_immutable [simp]: "immutable_kept (ODeployment d) (ODeployment (set_image img d))"
  by (simp add: immutable_kept_def set_image_def)

lemma set_image_fix:
  "set_image img d = d \<longleftrightarrow> (case pt_containers (d_template d) of [] \<Rightarrow> True | ctr # rest \<Rightarrow> ctr_image ctr = img)"
proof -
  have c: "ctr\<lparr>ctr_image := img\<rparr> = ctr \<longleftrightarrow> ctr_image ctr = img" for ctr :: container by (cases ctr) auto
  show ?thesis by (cases d; cases "d_template d") (auto simp: set_image_def c split: list.splits)
qed

definition deployment_ensured :: "string \<Rightarrow> string \<Rightarrow> obj option \<Rightarrow> obj option \<Rightarrow> bool" where
  "deployment_ensured ns img old new \<longleftrightarrow>
    (case old of
       None \<Rightarrow> (\<exists>y. new = Some y \<and> admits (ODeployment (adapterDeployment ns img)) y)
     | Some (ODeployment d) \<Rightarrow> (\<exists>y. new = Some y \<and> admits (ODeployment (set_image img d)) y)
     | Some _ \<Rightarrow> False)"

lemma admits_refl: "admits x x"
proof -
  have "x = map_meta (\<lambda>m. m\<lparr>m_version := m_version (obj_meta x), m_uid := m_uid (obj_meta x),
      m_generation := m_generation (obj_meta x)\<rparr>) x"
    by (rule map_meta_id [symmetric]) simp
  then show ?thesis unfolding admits_def by blast
qed

lemma admits_updated:
  assumes "admits (map_meta (\<lambda>m. m\<lparr>m_deletion := None\<rparr>) (with_status cs (map_meta (\<lambda>m. m\<lparr>m_version := v\<rparr>) x))) z"
    and "m_deletion (obj_meta x) = None" and "obj_kind x \<noteq> KSpokeCluster"
  shows "admits x z"
proof -
  have "with_status cs (map_meta (\<lambda>m. m\<lparr>m_version := v\<rparr>) x) = map_meta (\<lambda>m. m\<lparr>m_version := v\<rparr>) x"
    using assms(3) by simp
  with assms(1) obtain v' u g where
    "z = map_meta (\<lambda>m. m\<lparr>m_version := v, m_deletion := None, m_version := v', m_uid := u, m_generation := g\<rparr>) x"
    by (auto simp: admits_def)
  moreover have "map_meta (\<lambda>m. m\<lparr>m_version := v, m_deletion := None, m_version := v', m_uid := u, m_generation := g\<rparr>) x =
      map_meta (\<lambda>m. m\<lparr>m_version := v', m_uid := u, m_generation := g\<rparr>) x"
    using assms(2) by (intro map_meta_cong) simp
  ultimately show ?thesis unfolding admits_def by blast
qed

text \<open>An existing object that the code would update, and whose immutable fields are other than desired.\<close>

definition conflicting :: "store \<Rightarrow> adapter_resource \<Rightarrow> bool" where
  "conflicting st ar \<longleftrightarrow> ar_update ar \<and>
    (case st Hub (obj_kind (ar_resource ar)) (okey (ar_resource ar)) of
       None \<Rightarrow> False | Some x \<Rightarrow> \<not> immutable_kept x (ar_resource ar))"

lemma find_takeWhile:
  assumes "find P xs = Some x"
  obtains zs where "xs = takeWhile (\<lambda>x. \<not> P x) xs @ x # zs" "P x"
  using assms by (induction xs arbitrary: thesis) (auto split: if_splits)

lemma ensure_resources_append:
  "ensure_resources (xs @ ys) after = ensure_resources xs (ensure_resources ys after)"
  by (induction xs) (simp_all cong: option.case_cong if_cong)

definition not_terminating :: "obj option \<Rightarrow> bool" where
  "not_terminating v \<longleftrightarrow> v = None \<or> live v"

text \<open>A desired object as the stack has them: fresh metadata, none of the kinds with a status.\<close>

definition plain_desired :: "obj \<Rightarrow> bool" where
  "plain_desired x \<longleftrightarrow> m_deletion (obj_meta x) = None \<and> obj_kind x \<noteq> KSpokeCluster \<and> obj_kind x \<noteq> KNamespace"

context api_server
begin

lemma run_ensureAdapterResource:
  assumes "store w Hub (obj_kind (ar_resource ar)) (okey (ar_resource ar)) = Some x" "m_deletion (obj_meta x) = None"
    "plain_desired (ar_resource ar)" "immutable_kept x (ar_resource ar)"
  obtains y w' where "run H (ensureAdapterResource ar) w = (Done None, w')" "admits (ar_resource ar) y"
    "store w' = store_put (store w) Hub (obj_kind (ar_resource ar)) (okey (ar_resource ar)) (Some y)"
proof -
  let ?x = "ar_resource ar"
  let ?u = "map_meta (\<lambda>m. m\<lparr>m_version := m_version (obj_meta x)\<rparr>) ?x"
  have k: "obj_kind x = obj_kind ?x" using store_wf [OF assms(1)] by simp
  have o: "okey ?u = okey ?x" by (simp add: ObjectKeyFromObject_def)
  obtain w1 where 1: "run H (client_get Hub (obj_kind ?x) (as_kind (obj_kind ?x)) (okey ?x)) w = (Done (Inr x), w1)" "store w1 = store w"
    by (rule run_get_found [OF assms(1), of "as_kind (obj_kind ?x)"]) (simp add: as_kind_def k)
  obtain z w2 where 2: "run H (client_update Hub ?u) w1 = (Done (Inr z), w2)"
    "admits (map_meta (\<lambda>m. m\<lparr>m_deletion := m_deletion (obj_meta x)\<rparr>) (with_status (status_of x) ?u)) z"
    "store w2 = store_put (store w1) Hub (obj_kind ?u) (okey ?u) (Some z)"
    by (rule run_client_update [of w1 Hub ?u x]) (use assms 1(2) o in simp_all)
  have "admits ?x z"
    by (rule admits_updated [of "status_of x" "m_version (obj_meta x)"])
      (use 2(2) assms(2,3) in \<open>simp_all add: plain_desired_def\<close>)
  with 1 2 o show thesis by (intro that [of w2 z]) (simp_all add: ensureAdapterResource_def)
qed

lemma run_ensureAdapterResource_refused:
  assumes "store w Hub (obj_kind (ar_resource ar)) (okey (ar_resource ar)) = Some x" "\<not> immutable_kept x (ar_resource ar)"
  obtains e w' where "run H (ensureAdapterResource ar) w = (Done (Some (resource_error ErrUpdatingAdapterResource ar e)), w')"
    "store w' = store w"
proof -
  let ?x = "ar_resource ar"
  let ?u = "map_meta (\<lambda>m. m\<lparr>m_version := m_version (obj_meta x)\<rparr>) ?x"
  have k: "obj_kind x = obj_kind ?x" using store_wf [OF assms(1)] by simp
  have o: "okey ?u = okey ?x" by (simp add: ObjectKeyFromObject_def)
  obtain w1 where 1: "run H (client_get Hub (obj_kind ?x) (as_kind (obj_kind ?x)) (okey ?x)) w = (Done (Inr x), w1)" "store w1 = store w"
    by (rule run_get_found [OF assms(1), of "as_kind (obj_kind ?x)"]) (simp add: as_kind_def k)
  obtain e w2 where 2: "run H (client_update Hub ?u) w1 = (Done (Inl e), w2)" "store w2 = store w1"
    by (rule run_client_update_refused [of w1 Hub ?u x]) (use assms 1(2) o in simp_all)
  with 1 show thesis by (intro that [of e w2]) (simp_all add: ensureAdapterResource_def)
qed

lemma run_ensure_step:
  assumes "namespace_ready (store w) Hub (m_namespace (obj_meta (ar_resource ar)))" "plain_desired (ar_resource ar)"
    "not_terminating (store w Hub (obj_kind (ar_resource ar)) (okey (ar_resource ar)))" "\<not> conflicting (store w) ar"
  obtains w' where "run H (ensure_resources (ar # rest) after) w = run H (ensure_resources rest after) w'"
    "changes Hub ar_resource ensured [ar] (store w) (store w')"
  using assms(1)
proof (cases rule: run_client_create)
  case (created y w')
  with assms(2) show ?thesis
    by (intro that [of w']) (auto simp: changes_def ensured_def only_at_put plain_desired_def)
next
  case (existed e w1 x)
  show ?thesis
  proof (cases "ar_update ar")
    case False
    with existed show ?thesis by (intro that [of w1]) (auto simp: changes_def ensured_def)
  next
    case True
    have kept: "immutable_kept x (ar_resource ar)" using assms(4) True existed(3) by (simp add: conflicting_def)
    have alive: "m_deletion (obj_meta x) = None" using assms(3) existed(3) by (simp add: not_terminating_def live_def)
    obtain y w2 where "run H (ensureAdapterResource ar) w1 = (Done None, w2)" "admits (ar_resource ar) y"
      "store w2 = store_put (store w1) Hub (obj_kind (ar_resource ar)) (okey (ar_resource ar)) (Some y)"
      by (rule run_ensureAdapterResource [of w1 ar x]) (use existed assms(2) kept alive in simp_all)
    with existed True show ?thesis
      by (intro that [of w2]) (auto simp: changes_def ensured_def only_at_put)
  qed
qed

lemma run_ensure_resources:
  assumes "distinct (map (\<lambda>ar. okid (ar_resource ar)) ars)"
    "\<forall>ar \<in> set ars. plain_desired (ar_resource ar) \<and> namespace_ready (store w) Hub (m_namespace (obj_meta (ar_resource ar))) \<and>
      not_terminating (store w Hub (obj_kind (ar_resource ar)) (okey (ar_resource ar))) \<and> \<not> conflicting (store w) ar"
  shows "\<exists>w'. run H (ensure_resources ars after) w = run H after w' \<and> changes Hub ar_resource ensured ars (store w) (store w')"
  using assms
proof (induction ars arbitrary: w)
  case Nil
  show ?case by (rule exI [of _ w]) simp
next
  case (Cons ar ars)
  obtain w1 where r: "run H (ensure_resources (ar # ars) after) w = run H (ensure_resources ars after) w1"
    and sp: "changes Hub ar_resource ensured [ar] (store w) (store w1)"
    by (rule run_ensure_step [of w ar]) (use Cons.prems(2) in simp_all)
  have fresh: "okid (ar_resource ar) \<notin> set (map (\<lambda>x. okid (ar_resource x)) ars)" using Cons.prems(1) by simp
  have "namespace_ready (store w1) Hub n" if "namespace_ready (store w) Hub n" for n
    using Cons.prems(2) by (intro namespace_ready_only_at [OF changes_frame [OF sp] _ that]) (auto simp: plain_desired_def)
  moreover have "store w1 Hub (obj_kind (ar_resource x)) (okey (ar_resource x)) =
      store w Hub (obj_kind (ar_resource x)) (okey (ar_resource x))" if "x \<in> set ars" for x
    by (rule only_at_same [OF changes_frame [OF sp] fresh_id [of ar_resource, OF fresh that]])
  ultimately obtain w2 where "run H (ensure_resources ars after) w1 = run H after w2"
    "changes Hub ar_resource ensured ars (store w1) (store w2)"
    using Cons.IH [of w1] Cons.prems by (auto simp: not_terminating_def conflicting_def)
  with r changes_Cons [OF sp _ fresh] show ?case by auto
qed

lemma run_ensure_conflict:
  assumes "distinct (map (\<lambda>ar. okid (ar_resource ar)) ars)"
    "\<forall>ar \<in> set ars. plain_desired (ar_resource ar) \<and> namespace_ready (store w) Hub (m_namespace (obj_meta (ar_resource ar))) \<and>
      not_terminating (store w Hub (obj_kind (ar_resource ar)) (okey (ar_resource ar)))"
    "find (conflicting (store w)) ars = Some ar"
  shows "\<exists>e w'. run H (ensure_resources ars after) w = (Done (Some (resource_error ErrUpdatingAdapterResource ar e)), w') \<and>
    changes Hub ar_resource ensured (takeWhile (\<lambda>ar. \<not> conflicting (store w) ar) ars) (store w) (store w')"
proof -
  let ?pre = "takeWhile (\<lambda>ar. \<not> conflicting (store w) ar) ars"
  obtain post where ars: "ars = ?pre @ ar # post" and conf: "conflicting (store w) ar"
    using assms(3) by (rule find_takeWhile)
  have dist: "distinct (map (\<lambda>ar. okid (ar_resource ar)) ?pre)" and fresh: "okid (ar_resource ar) \<notin> set (map (\<lambda>ar. okid (ar_resource ar)) ?pre)"
    using assms(1) by (subst (asm) ars; simp)+
  have ok: "plain_desired (ar_resource a) \<and> namespace_ready (store w) Hub (m_namespace (obj_meta (ar_resource a))) \<and>
      not_terminating (store w Hub (obj_kind (ar_resource a)) (okey (ar_resource a))) \<and> \<not> conflicting (store w) a" if "a \<in> set ?pre" for a
    using that assms(2) by (auto dest: set_takeWhileD)
  obtain w1 where r1: "run H (ensure_resources ars after) w = run H (ensure_resources (ar # post) after) w1"
    and c1: "changes Hub ar_resource ensured ?pre (store w) (store w1)"
    using run_ensure_resources [OF dist, of w "ensure_resources (ar # post) after"] ok
      ensure_resources_append [of ?pre "ar # post" after] unfolding ars [symmetric] by auto
  have frame: "only_at Hub (set (map (\<lambda>ar. okid (ar_resource ar)) ?pre)) (store w) (store w1)" using c1 by (simp add: changes_def)
  obtain x where x: "store w1 Hub (obj_kind (ar_resource ar)) (okey (ar_resource ar)) = Some x" "\<not> immutable_kept x (ar_resource ar)" "ar_update ar"
    using conf only_at_same [OF frame fresh] by (auto simp: conflicting_def split: option.splits)
  have mem: "ar \<in> set ars" by (subst ars) simp
  have "\<forall>a \<in> set ?pre. obj_kind (ar_resource a) \<noteq> KNamespace" using ok by (simp add: plain_desired_def)
  then have "(KNamespace, key) \<notin> set (map (\<lambda>ar. okid (ar_resource ar)) ?pre)" for key by auto
  then have "namespace_ready (store w1) Hub (m_namespace (obj_meta (ar_resource ar)))"
    using assms(2) mem by (intro namespace_ready_only_at [OF frame]) simp_all
  then obtain e w2 where 2: "run H (client_create Hub (ar_resource ar)) w1 = (Done (Some e), w2)" "IsAlreadyExists e" "store w2 = store w1"
    using x(1) by (cases rule: run_client_create) auto
  obtain e' w3 where 3: "run H (ensureAdapterResource ar) w2 = (Done (Some (resource_error ErrUpdatingAdapterResource ar e')), w3)" "store w3 = store w2"
    by (rule run_ensureAdapterResource_refused [of w2 ar x]) (use x 2(3) in simp_all)
  show ?thesis
    by (intro exI [of _ e'] exI [of _ w3] conjI) (use c1 2 3 x(3) in \<open>simp_all add: r1\<close>)
qed

lemma run_ensureAdapterDeployment:
  assumes "namespace_ready (store w) Hub ns"
    "not_terminating (store w Hub KDeployment (ObjectKey ns adapterName))"
  shows "\<exists>w'. run H (ensureAdapterDeployment ns img) w = (Done None, w') \<and>
    only_at Hub {(KDeployment, ObjectKey ns adapterName)} (store w) (store w') \<and>
    deployment_ensured ns img (store w Hub KDeployment (ObjectKey ns adapterName))
      (store w' Hub KDeployment (ObjectKey ns adapterName))"
proof -
  let ?d = "ODeployment (adapterDeployment ns img)"
  have id: "obj_kind ?d = KDeployment" "okey ?d = ObjectKey ns adapterName"
    by (simp_all add: adapterDeployment_def ObjectKeyFromObject_def)
  have ns: "namespace_ready (store w) Hub (m_namespace (obj_meta ?d))"
    using assms(1) by (simp add: adapterDeployment_def)
  show ?thesis
  proof (cases rule: run_client_create [OF ns])
    case (1 y w')
    then show ?thesis
      by (intro exI [of _ w']) (simp add: ensureAdapterDeployment_def Let_def id deployment_ensured_def only_at_put)
  next
    case (2 e w1 x)
    from store_wf [OF 2(3)] obtain d where x: "x = ODeployment d" by (cases x) (auto simp: id)
    then have old: "store w1 Hub KDeployment (ObjectKey ns adapterName) = Some (ODeployment d)"
      using 2 by (simp add: id)
    have nodel: "m_deletion (d_meta d) = None" using assms(2) 2(3) x by (simp add: id not_terminating_def live_def)
    have nm: "m_name (d_meta (adapterDeployment ns img)) = adapterName" by (simp add: adapterDeployment_def)
    have step: "run H (ensureAdapterDeployment ns img) w =
        run H (case pt_containers (d_template d) of [] \<Rightarrow> Ret None
          | ctr # rest \<Rightarrow> if ctr_image ctr \<noteq> img then
              and_then (client_update Hub (ODeployment (set_image img d)))
                (\<lambda>u. case u of Inl err \<Rightarrow> Ret (Some (Errorf [W (CtrlErr ErrUpdatingAdapterDeployment), S '' '', S adapterName,
                  S '' image'', S '': '', W (ApiErr err)])) | Inr _ \<Rightarrow> Ret None)
            else Ret None) w2" if "run H (client_get Hub KDeployment as_deployment (ObjectKey ns adapterName)) w1 = (Done (Inr d), w2)" for w2
      using 2(1,2) that by (simp add: ensureAdapterDeployment_def Let_def hub_ops id set_image_def nm split: list.splits)
    obtain w2 where g: "run H (client_get Hub KDeployment as_deployment (ObjectKey ns adapterName)) w1 = (Done (Inr d), w2)"
      and st2: "store w2 = store w"
      using run_get_found [OF old, of as_deployment] 2(4) by auto
    show ?thesis
    proof (cases "set_image img d = d")
      case True
      then have "run H (ensureAdapterDeployment ns img) w = (Done None, w2)"
        unfolding step [OF g] by (auto simp: set_image_fix split: list.splits)
      with True st2 old 2(4) show ?thesis
        by (intro exI [of _ w2]) (simp add: deployment_ensured_def admits_refl)
    next
      case False
      then obtain ctr rest where c: "pt_containers (d_template d) = ctr # rest" "ctr_image ctr \<noteq> img"
        by (auto simp: set_image_fix split: list.splits)
      let ?u = "ODeployment (set_image img d)"
      have ou: "okey ?u = ObjectKey ns adapterName" "m_version (obj_meta ?u) = m_version (d_meta d)"
        using store_wf [OF old] by (simp_all add: set_image_def ObjectKeyFromObject_def)
      obtain z w3 where u: "run H (client_update Hub ?u) w2 = (Done (Inr z), w3)"
        "admits (map_meta (\<lambda>m. m\<lparr>m_deletion := m_deletion (obj_meta (ODeployment d))\<rparr>) (with_status (status_of (ODeployment d)) ?u)) z"
        "store w3 = store_put (store w2) Hub (obj_kind ?u) (okey ?u) (Some z)"
        by (rule run_client_update [of w2 Hub ?u "ODeployment d"]) (use old st2 2(4) ou nodel in simp_all)
      have "admits ?u z"
        by (rule admits_updated [of "status_of (ODeployment d)" "m_version (d_meta d)"])
          (use u(2) nodel in \<open>simp_all add: set_image_def map_meta_id\<close>)
      with u c st2 old 2(4) ou show ?thesis
        by (intro exI [of _ w3]) (simp add: step [OF g] deployment_ensured_def only_at_put)
    qed
  qed
qed

end

lemma adapterResources_ok:
  "distinct (map (\<lambda>ar. okid (ar_resource ar)) (adapterResources ns))"
  "\<forall>ar \<in> set (adapterResources ns). plain_desired (ar_resource ar)"
  "\<forall>ar \<in> set (adapterResources ns). m_namespace (obj_meta (ar_resource ar)) \<in> {[], ns, ''openshift-monitoring''}"
  "(KDeployment, key) \<notin> set (map (\<lambda>ar. okid (ar_resource ar)) (adapterResources ns))"
  by (simp_all add: adapterResources_def adapterServiceAccount_def adapterRole_def adapterRoleBinding_def
      adapterMonitoringRoleBinding_def adapterClusterRole_def adapterClusterRoleBinding_def adapterConfigMap_def
      plain_desired_def ObjectKeyFromObject_def hub_consts)

lemma deployment_not_resource:
  "ar \<in> set (adapterResources ns) \<Longrightarrow> okid (ar_resource ar) \<notin> {(KDeployment, key)}"
  using adapterResources_ok(4) [of key ns] by (metis (no_types, lifting) image_eqI list.set_map singletonD)

text \<open>
  C15.  Ensuring the adapter stack on a healthy hub implements its specification.  If no binding on the hub has another \<open>roleRef\<close>
  than desired, it succeeds: each RBAC object ends up with the desired content, the service account and the (editable) config map
  are created when missing and otherwise kept, the Deployment is created or has the image of its
  first container set and all else kept (its restart annotation for one), and nothing else changes
  on any cluster.  Otherwise the API server refuses to update the first such binding, since a \<open>roleRef\<close> is immutable: what comes before it in the list is
  ensured, nothing else changes, the binding and the Deployment included, and the error names the binding.  (The code never replaces
  the binding, so that every further reconcile fails in the same way.)
\<close>

theorem adapter_stack_ensured:
  assumes "api_server H store"
    and "namespace_ready (store w) Hub ns" and "namespace_ready (store w) Hub ''openshift-monitoring''"
    and "\<And>k key. not_terminating (store w Hub k key)"
  shows "case find (conflicting (store w)) (adapterResources ns) of
    None \<Rightarrow> (\<exists>w'. run H (ensureAdapterStack ns img) w = (Done None, w') \<and>
      (\<forall>ar \<in> set (adapterResources ns).
        ensured ar (store w Hub (obj_kind (ar_resource ar)) (okey (ar_resource ar)))
          (store w' Hub (obj_kind (ar_resource ar)) (okey (ar_resource ar)))) \<and>
      deployment_ensured ns img (store w Hub KDeployment (ObjectKey ns adapterName))
        (store w' Hub KDeployment (ObjectKey ns adapterName)) \<and>
      only_at Hub (insert (KDeployment, ObjectKey ns adapterName)
        (set (map (\<lambda>ar. okid (ar_resource ar)) (adapterResources ns)))) (store w) (store w'))
  | Some ar \<Rightarrow> (\<exists>e w'. run H (ensureAdapterStack ns img) w = (Done (Some (resource_error ErrUpdatingAdapterResource ar e)), w') \<and>
      changes Hub ar_resource ensured (takeWhile (\<lambda>a. \<not> conflicting (store w) a) (adapterResources ns)) (store w) (store w'))"
proof (cases "find (conflicting (store w)) (adapterResources ns)")
  case (Some ar)
  have "namespace_ready (store w) Hub (m_namespace (obj_meta (ar_resource ar)))" if "ar \<in> set (adapterResources ns)" for ar
    using that adapterResources_ok(3) [of ns] assms(2,3) by (auto simp: namespace_ready_def)
  with api_server.run_ensure_conflict [OF assms(1) adapterResources_ok(1) [of ns] _ Some, of "ensureAdapterDeployment ns img"]
    adapterResources_ok(2) assms(4)
  show ?thesis unfolding ensureAdapterStack_def Some option.case by blast
next
  case None
  then have clean: "\<forall>ar \<in> set (adapterResources ns). \<not> conflicting (store w) ar" by (simp add: find_None_iff)
  have "namespace_ready (store w) Hub (m_namespace (obj_meta (ar_resource ar)))" if "ar \<in> set (adapterResources ns)" for ar
    using that adapterResources_ok(3) [of ns] assms(2,3) by (auto simp: namespace_ready_def)
  with api_server.run_ensure_resources [OF assms(1) adapterResources_ok(1) [of ns], of w "ensureAdapterDeployment ns img"]
    adapterResources_ok(2) assms(4) clean
  obtain w1 where r1: "run H (ensureAdapterStack ns img) w = run H (ensureAdapterDeployment ns img) w1"
    and c1: "changes Hub ar_resource ensured (adapterResources ns) (store w) (store w1)"
    unfolding ensureAdapterStack_def by blast
  have frame1: "only_at Hub (set (map (\<lambda>ar. okid (ar_resource ar)) (adapterResources ns))) (store w) (store w1)"
    using c1 by (simp add: changes_def)
  have dep: "store w1 Hub KDeployment (ObjectKey ns adapterName) = store w Hub KDeployment (ObjectKey ns adapterName)"
    by (rule only_at_same [OF frame1 adapterResources_ok(4)])
  have "(KNamespace, ObjectKey [] ns) \<notin> set (map (\<lambda>ar. okid (ar_resource ar)) (adapterResources ns))"
    by (simp add: adapterResources_def)
  then have "namespace_ready (store w1) Hub ns" by (rule namespace_ready_only_at [OF frame1 _ assms(2)])
  with api_server.run_ensureAdapterDeployment [OF assms(1), of w1 ns img] dep assms(4)
  obtain w2 where r2: "run H (ensureAdapterDeployment ns img) w1 = (Done None, w2)"
    and frame2: "only_at Hub {(KDeployment, ObjectKey ns adapterName)} (store w1) (store w2)"
    and d2: "deployment_ensured ns img (store w Hub KDeployment (ObjectKey ns adapterName))
      (store w2 Hub KDeployment (ObjectKey ns adapterName))" by auto
  have "store w2 Hub (obj_kind (ar_resource ar)) (okey (ar_resource ar)) =
      store w1 Hub (obj_kind (ar_resource ar)) (okey (ar_resource ar))" if "ar \<in> set (adapterResources ns)" for ar
    by (rule only_at_same [OF frame2 deployment_not_resource [OF that]])
  then have "\<forall>ar \<in> set (adapterResources ns).
      ensured ar (store w Hub (obj_kind (ar_resource ar)) (okey (ar_resource ar)))
        (store w2 Hub (obj_kind (ar_resource ar)) (okey (ar_resource ar)))"
    using c1 by (simp add: changes_def)
  moreover have "only_at Hub (insert (KDeployment, ObjectKey ns adapterName)
      (set (map (\<lambda>ar. okid (ar_resource ar)) (adapterResources ns)))) (store w) (store w2)"
    using only_at_trans [OF frame1 frame2] by (simp add: Un_commute)
  ultimately show ?thesis using r1 r2 d2 unfolding None option.case by (intro exI [of _ w2]) (simp only: simp_thms)
qed

text \<open>A hub on which the cluster role binding of the adapter refers to another role.\<close>

definition rebound_cluster :: cluster where
  "rebound_cluster = fresh_cluster\<lparr>objects := objects fresh_cluster @
     [(Hub, OClusterRoleBinding ((adapterClusterRoleBinding ''lightspeed-hub'')\<lparr>b_roleRef :=
       \<lparr>rr_apiGroup = rbac_GroupName, rr_kind = ''ClusterRole'', rr_name = ''view''\<rparr>\<rparr>))]\<rparr>"

theorem adapter_stack_ensured_witness:
  "(\<exists>w'. run ref_server (ensureAdapterStack ''lightspeed-hub'' ''quay.io/adapter:v1'') fresh_cluster = (Done None, w') \<and>
    deployment_ensured ''lightspeed-hub'' ''quay.io/adapter:v1'' None
      (ref_store w' Hub KDeployment (ObjectKey ''lightspeed-hub'' adapterName))) \<and>
   (\<exists>e w'. run ref_server (ensureAdapterStack ''lightspeed-hub'' ''quay.io/adapter:v1'') rebound_cluster = (Done (Some e), w') \<and>
    ref_store w' Hub KDeployment (ObjectKey ''lightspeed-hub'' adapterName) = None)"
proof (rule conjI, goal_cases)
  case 1
  have "not_terminating (ref_store fresh_cluster Hub k key)" for k key
    by (auto simp: not_terminating_def live_def fresh_cluster_def lookup_def)
  moreover have "ref_store fresh_cluster Hub KDeployment (ObjectKey ''lightspeed-hub'' adapterName) = None"
    by (simp add: fresh_cluster_def lookup_def)
  moreover have "namespace_ready (ref_store fresh_cluster) Hub ''lightspeed-hub''"
    "namespace_ready (ref_store fresh_cluster) Hub ''openshift-monitoring''"
    by (simp_all add: namespace_ready_def live_def fresh_cluster_def lookup_def ObjectKeyFromObject_def)
  moreover have "find (conflicting (ref_store fresh_cluster)) (adapterResources ''lightspeed-hub'') = None"
    by (auto simp: find_None_iff conflicting_def fresh_cluster_def lookup_def adapterResources_def)
  ultimately show ?case
    using adapter_stack_ensured [OF ref.api_server_axioms, of fresh_cluster "''lightspeed-hub''" "''quay.io/adapter:v1''"] by auto
next
  case 2
  let ?crb = "adapterResource ''ClusterRoleBinding'' (OClusterRoleBinding (adapterClusterRoleBinding ''lightspeed-hub'')) True"
  have "not_terminating (ref_store rebound_cluster Hub k key)" for k key
    by (auto simp: not_terminating_def live_def rebound_cluster_def fresh_cluster_def lookup_def adapterClusterRoleBinding_def)
  moreover have "namespace_ready (ref_store rebound_cluster) Hub ''lightspeed-hub''"
    "namespace_ready (ref_store rebound_cluster) Hub ''openshift-monitoring''"
    by (simp_all add: namespace_ready_def live_def rebound_cluster_def fresh_cluster_def lookup_def ObjectKeyFromObject_def)
  moreover have "find (conflicting (ref_store rebound_cluster)) (adapterResources ''lightspeed-hub'') = Some ?crb"
    by (simp add: adapterResources_def conflicting_def rebound_cluster_def fresh_cluster_def lookup_def immutable_kept_def
        adapterClusterRoleBinding_def adapterClusterRoleName_def ObjectKeyFromObject_def)
  ultimately obtain e w' where r: "run ref_server (ensureAdapterStack ''lightspeed-hub'' ''quay.io/adapter:v1'') rebound_cluster = (Done (Some e), w')"
    and c: "changes Hub ar_resource ensured
      (takeWhile (\<lambda>a. \<not> conflicting (ref_store rebound_cluster) a) (adapterResources ''lightspeed-hub''))
      (ref_store rebound_cluster) (ref_store w')"
    using adapter_stack_ensured [OF ref.api_server_axioms, of rebound_cluster "''lightspeed-hub''" "''quay.io/adapter:v1''"] by auto
  have "only_at Hub (set (map (\<lambda>ar. okid (ar_resource ar)) (takeWhile (\<lambda>a. \<not> conflicting (ref_store rebound_cluster) a)
      (adapterResources ''lightspeed-hub'')))) (ref_store rebound_cluster) (ref_store w')"
    using c by (simp add: changes_def)
  then have "ref_store w' Hub KDeployment (ObjectKey ''lightspeed-hub'' adapterName) =
      ref_store rebound_cluster Hub KDeployment (ObjectKey ''lightspeed-hub'' adapterName)"
    by (rule only_at_same) (use adapterResources_ok(4) [of _ "''lightspeed-hub''"] in \<open>fastforce dest: set_takeWhileD\<close>)
  with r show ?case by (auto simp: rebound_cluster_def fresh_cluster_def lookup_def)
qed

end
