(* ===== verification/HubConfig_Controller.thy ===== *)
theory HubConfig_Controller
  imports Adapter_Deployment
begin

text \<open>
  The controller of the HubConfig singleton (\<^verbatim>\<open>internal/controller/hubconfig_controller.go\<close>): it
  keeps the adapter stack in place while the HubConfig exists, and holds a finalizer so that the
  stack is torn down before the HubConfig goes.
\<close>

definition hubConfigAdapterFinalizer :: string where
  [hub_consts]: "hubConfigAdapterFinalizer = ''hub.openshift.io/adapter-cleanup''"

record hubconfig_reconciler =
  hcr_operatorNamespace :: string
  hcr_adapterImage :: string

definition NewHubConfigReconciler :: "string \<Rightarrow> string \<Rightarrow> hubconfig_reconciler" where
  "NewHubConfigReconciler operatorNamespace adapterImage =
     \<lparr>hcr_operatorNamespace = operatorNamespace, hcr_adapterImage = adapterImage\<rparr>"

definition hubconfig_delete :: "k8s_lib \<Rightarrow> hubconfig_reconciler \<Rightarrow> hubconfig \<Rightarrow> reconcile_result prog" where
  "hubconfig_delete L r hc =
    (if lib_ContainsFinalizer L (hc_meta hc) hubConfigAdapterFinalizer then
       and_then (teardownAdapterStack (hcr_operatorNamespace r)) (\<lambda>terr.
       case terr of
         Some err \<Rightarrow> Ret (no_requeue, Some (Errorf [W (CtrlErr ErrTearingDownAdapterStack), S '': '', W err]))
       | None \<Rightarrow>
           and_then (client_update Hub (OHubConfig (hc\<lparr>hc_meta :=
             lib_RemoveFinalizer L (hc_meta hc) hubConfigAdapterFinalizer\<rparr>))) (\<lambda>ures.
           case ures of
             Inl err \<Rightarrow> Ret (no_requeue, Some (Errorf [W (CtrlErr ErrRemovingFinalizer), S '': '', W (ApiErr err)]))
           | Inr _ \<Rightarrow> Ret (no_requeue, None)))
     else Ret (no_requeue, None))"

definition hubconfig_ensure :: "hubconfig_reconciler \<Rightarrow> reconcile_result prog" where
  "hubconfig_ensure r =
    and_then (ensureAdapterStack (hcr_operatorNamespace r) (hcr_adapterImage r)) (\<lambda>serr.
    case serr of
      Some err \<Rightarrow> Ret (no_requeue, Some (Errorf [W (CtrlErr ErrEnsuringAdapterStack), S '': '', W err]))
    | None \<Rightarrow> Ret (no_requeue, None))"

definition HubConfig_Reconcile :: "k8s_lib \<Rightarrow> hubconfig_reconciler \<Rightarrow> object_key \<Rightarrow> reconcile_result prog" where
  "HubConfig_Reconcile L r key =
    and_then (get_hubconfig key) (\<lambda>res.
    case res of
      Inl err \<Rightarrow> if IsNotFound err then Ret (no_requeue, None) else Ret (no_requeue, Some (ApiErr err))
    | Inr hc \<Rightarrow>
        if \<not> IsZero (m_deletion (hc_meta hc)) then hubconfig_delete L r hc
        else if \<not> lib_ContainsFinalizer L (hc_meta hc) hubConfigAdapterFinalizer then
          and_then (client_update Hub (OHubConfig (hc\<lparr>hc_meta :=
            lib_AddFinalizer L (hc_meta hc) hubConfigAdapterFinalizer\<rparr>))) (\<lambda>ures.
          case ures of
            Inl err \<Rightarrow> Ret (no_requeue, Some (Errorf [W (CtrlErr ErrAddingFinalizer), S '': '', W (ApiErr err)]))
          | Inr _ \<Rightarrow> hubconfig_ensure r)
        else hubconfig_ensure r)"

section \<open>Properties\<close>

text \<open>The HubConfig controller never panics, whatever the API server answers.\<close>

lemma never_panics_HubConfig_Reconcile: "never_panics (HubConfig_Reconcile L r key)"
  by (auto simp: HubConfig_Reconcile_def hubconfig_delete_def hubconfig_ensure_def hub_ops
      intro!: never_panics_and_then split: sum.splits option.splits)

lemma all_reqs_teardown: "(\<And>k key. P (Delete Hub k key)) \<Longrightarrow> all_reqs P (teardownAdapterStack ns)"
proof -
  assume p: "\<And>k key. P (Delete Hub k key)"
  have "all_reqs P (delete_resources ars e)" for ars e
    by (induction ars e rule: delete_resources.induct) (auto intro!: all_reqs_and_then p split: option.splits)
  then show ?thesis by (simp add: teardownAdapterStack_def)
qed

lemma exec_teardown_Done:
  "exec (and_then (teardownAdapterStack ns) f) t z \<longleftrightarrow>
    (\<exists>t1 t2 e. t = t1 @ t2 \<and> exec (teardownAdapterStack ns) t1 (Done e) \<and> exec (f e) t2 z)"
  using never_panics_exec [OF never_panics_adapter_stack(2)] by (auto simp: exec_and_then_Done)

text \<open>
  C12.  A HubConfig that is being deleted loses its finalizer only after the whole adapter stack was
  torn down: the update that removes the finalizer is issued exactly when all eight deletes
  were answered with success or not-found, and it is the last request; otherwise the finalizer
  stays and the failure is returned, so that the teardown is retried.
\<close>

theorem hubconfig_delete_runs:
  assumes "finalizers L"
    and "\<not> IsZero (m_deletion (hc_meta hc))" and "hubConfigAdapterFinalizer \<in> set (m_finalizers (hc_meta hc))"
  shows "exec (HubConfig_Reconcile L r key) ((Get Hub KHubConfig key, RObj (OHubConfig hc)) # t) z \<longleftrightarrow>
    (\<exists>e. exec (teardownAdapterStack (hcr_operatorNamespace r)) t (Done (Some e)) \<and>
      z = Done (no_requeue, Some (Errorf [W (CtrlErr ErrTearingDownAdapterStack), S '': '', W e]))) \<or>
    (\<exists>td hc' a. exec (teardownAdapterStack (hcr_operatorNamespace r)) td (Done None) \<and>
      t = td @ [(Update Hub (OHubConfig hc'), a)] \<and>
      hc' = hc\<lparr>hc_meta := lib_RemoveFinalizer L (hc_meta hc) hubConfigAdapterFinalizer\<rparr> \<and>
      set (m_finalizers (hc_meta hc')) = set (m_finalizers (hc_meta hc)) - {hubConfigAdapterFinalizer} \<and>
      z = Done (no_requeue, map_option (\<lambda>e. Errorf [W (CtrlErr ErrRemovingFinalizer), S '': '', W (ApiErr e)]) (resp_error a)))"
proof -
  note fin = finalizers.contains_finalizer [OF assms(1)] finalizers.remove_finalizer [OF assms(1)]
  let ?hc = "hc\<lparr>hc_meta := lib_RemoveFinalizer L (hc_meta hc) hubConfigAdapterFinalizer\<rparr>"
  let ?k = "\<lambda>err. case err of
      Some e \<Rightarrow> Ret (no_requeue, Some (Errorf [W (CtrlErr ErrTearingDownAdapterStack), S '': '', W e]))
    | None \<Rightarrow> and_then (client_update Hub (OHubConfig ?hc)) (\<lambda>ures. case ures of
        Inl err \<Rightarrow> Ret (no_requeue, Some (Errorf [W (CtrlErr ErrRemovingFinalizer), S '': '', W (ApiErr err)]))
      | Inr _ \<Rightarrow> Ret (no_requeue, None))"
  have k: "exec (?k err) t' z \<longleftrightarrow> (case err of
         Some e \<Rightarrow> t' = [] \<and> z = Done (no_requeue, Some (Errorf [W (CtrlErr ErrTearingDownAdapterStack), S '': '', W e]))
       | None \<Rightarrow> (\<exists>a. t' = [(Update Hub (OHubConfig ?hc), a)] \<and>
           z = Done (no_requeue, map_option (\<lambda>e. Errorf [W (CtrlErr ErrRemovingFinalizer), S '': '', W (ApiErr e)]) (resp_error a))))"
    for err t'
    by (cases err) (auto simp: exec_update_then resp_error_None split: option.splits)
  have "exec (HubConfig_Reconcile L r key) ((Get Hub KHubConfig key, RObj (OHubConfig hc)) # t) z \<longleftrightarrow>
      exec (and_then (teardownAdapterStack (hcr_operatorNamespace r)) ?k) t z"
    using assms(2,3) by (simp add: HubConfig_Reconcile_def hubconfig_delete_def hub_ops exec_get fin)
  then have run: "exec (HubConfig_Reconcile L r key) ((Get Hub KHubConfig key, RObj (OHubConfig hc)) # t) z \<longleftrightarrow>
      (\<exists>t1 t2 err. t = t1 @ t2 \<and> exec (teardownAdapterStack (hcr_operatorNamespace r)) t1 (Done err) \<and> exec (?k err) t2 z)"
    unfolding exec_teardown_Done by simp
  show ?thesis (is "?l \<longleftrightarrow> ?a \<or> ?b")
  proof
    assume ?l
    then obtain t1 t2 err where "t = t1 @ t2" "exec (teardownAdapterStack (hcr_operatorNamespace r)) t1 (Done err)"
      "exec (?k err) t2 z" unfolding run by blast
    then show "?a \<or> ?b" unfolding k by (cases err) (auto simp: fin)
  next
    assume "?a \<or> ?b"
    then show ?l
    proof
      assume ?a
      then obtain e where "exec (teardownAdapterStack (hcr_operatorNamespace r)) t (Done (Some e))"
        "exec (?k (Some e)) [] z" by auto
      then show ?l unfolding run by (intro exI [of _ t] exI [of _ "[]"] exI [of _ "Some e"]) simp
    next
      assume ?b
      then obtain td a where "exec (teardownAdapterStack (hcr_operatorNamespace r)) td (Done None)"
        "t = td @ [(Update Hub (OHubConfig ?hc), a)]" "exec (?k None) [(Update Hub (OHubConfig ?hc), a)] z"
        unfolding k by auto
      then show ?l unfolding run by blast
    qed
  qed
qed

definition deleting_hubconfig :: hubconfig where
  "deleting_hubconfig = \<lparr>hc_meta = (new_meta [] ''cluster'')\<lparr>m_finalizers := [hubConfigAdapterFinalizer], m_deletion := Some 0\<rparr>,
     hc_spec = \<lparr>hs_mode = ClusterRegistryModeSecret, hs_mce = None\<rparr>\<rparr>"

theorem hubconfig_delete_runs_witness:
  "\<exists>t. exec (HubConfig_Reconcile ref_lib (NewHubConfigReconciler ''hub'' ''img'') (ObjectKey [] ''cluster''))
    ((Get Hub KHubConfig (ObjectKey [] ''cluster''), RObj (OHubConfig deleting_hubconfig)) # t) (Done (no_requeue, None))"
proof -
  have d: "\<not> IsZero (m_deletion (hc_meta deleting_hubconfig))"
    "hubConfigAdapterFinalizer \<in> set (m_finalizers (hc_meta deleting_hubconfig))"
    by (simp_all add: deleting_hubconfig_def IsZero_def zero_time_def)
  obtain td where td: "exec (teardownAdapterStack ''hub'') td (Done None)"
  proof -
    let ?t = "map (\<lambda>ar. (Delete Hub (obj_kind (ar_resource ar)) (okey (ar_resource ar)), ROk)) (teardown_resources ''hub'')"
    have "first_failure (teardown_resources ''hub'') ?t = None"
      by (subst first_failure_None) (auto simp: delete_failure_def)
    then have "exec (teardownAdapterStack ''hub'') ?t (Done None)"
      by (simp add: teardownAdapterStack_def exec_delete_resources)
    then show thesis by (rule that)
  qed
  let ?r = "NewHubConfigReconciler ''hub'' ''img''"
  have r: "hcr_operatorNamespace ?r = ''hub''" by (simp add: NewHubConfigReconciler_def)
  let ?hc = "deleting_hubconfig\<lparr>hc_meta := lib_RemoveFinalizer ref_lib (hc_meta deleting_hubconfig) hubConfigAdapterFinalizer\<rparr>"
  show ?thesis
    by (rule exI [of _ "td @ [(Update Hub (OHubConfig ?hc), ROk)]"],
        subst hubconfig_delete_runs [OF ref_library.finalizers_axioms d],
        rule disjI2, rule exI [of _ td]) (use td r in \<open>simp add: set_removeAll\<close>)
qed

lemma all_reqs_no_create_teardown: "exec (teardownAdapterStack ns) t z \<Longrightarrow> (Create c x, a) \<notin> set t"
  using all_reqs_exec [where P = "\<lambda>q. \<forall>c x. q \<noteq> Create c x"] all_reqs_teardown [of "\<lambda>q. \<forall>c x. q \<noteq> Create c x"] by blast

text \<open>
  C32.  The controller creates nothing before the finalizer is in place: in any run with a create,
  the HubConfig that was read is not being deleted and already has the finalizer, or
  the first request after reading it is an update that adds the finalizer and was accepted.
\<close>

theorem hubconfig_finalizer_first:
  assumes "finalizers L" and "exec (HubConfig_Reconcile L r key) t z" and "(Create c x, a) \<in> set t"
  shows "\<exists>hc t'. t = (Get Hub KHubConfig key, RObj (OHubConfig hc)) # t' \<and> IsZero (m_deletion (hc_meta hc)) \<and>
    (hubConfigAdapterFinalizer \<in> set (m_finalizers (hc_meta hc)) \<or>
     (\<exists>hc' b t''. t' = (Update Hub (OHubConfig hc'), b) # t'' \<and> resp_error b = None \<and>
       set (m_finalizers (hc_meta hc')) = insert hubConfigAdapterFinalizer (set (m_finalizers (hc_meta hc)))))"
proof -
  note fin = finalizers.contains_finalizer [OF assms(1)] finalizers.add_finalizer [OF assms(1)]
  from assms(2,3) obtain hc t' where t: "t = (Get Hub KHubConfig key, RObj (OHubConfig hc)) # t'"
    and c: "(Create c x, a) \<in> set t'"
    and e: "exec (if \<not> IsZero (m_deletion (hc_meta hc)) then hubconfig_delete L r hc
        else if \<not> lib_ContainsFinalizer L (hc_meta hc) hubConfigAdapterFinalizer then
          and_then (client_update Hub (OHubConfig (hc\<lparr>hc_meta :=
            lib_AddFinalizer L (hc_meta hc) hubConfigAdapterFinalizer\<rparr>))) (\<lambda>ures.
          case ures of
            Inl err \<Rightarrow> Ret (no_requeue, Some (Errorf [W (CtrlErr ErrAddingFinalizer), S '': '', W (ApiErr err)]))
          | Inr _ \<Rightarrow> hubconfig_ensure r)
        else hubconfig_ensure r) t' z"
    by (auto simp: HubConfig_Reconcile_def hub_ops exec_get exec_case_sum resp_obj_Inr exec_if [where q = "Ret y" for y] split: if_splits)
  have "IsZero (m_deletion (hc_meta hc))"
  proof (rule ccontr)
    assume "\<not> IsZero (m_deletion (hc_meta hc))"
    with e have "exec (hubconfig_delete L r hc) t' z" by simp
    then show False using c
      by (auto simp: hubconfig_delete_def exec_teardown_Done exec_update_then exec_case_option
        dest: all_reqs_no_create_teardown split: if_splits)
  qed
  moreover have "hubConfigAdapterFinalizer \<in> set (m_finalizers (hc_meta hc)) \<or>
     (\<exists>hc' b t''. t' = (Update Hub (OHubConfig hc'), b) # t'' \<and> resp_error b = None \<and>
       set (m_finalizers (hc_meta hc')) = insert hubConfigAdapterFinalizer (set (m_finalizers (hc_meta hc))))"
    using e c calculation by (cases "lib_ContainsFinalizer L (hc_meta hc) hubConfigAdapterFinalizer")
      (auto simp: fin exec_update exec_case_sum intro: update_result_Inr)
  ultimately show ?thesis using t by blast
qed

theorem hubconfig_finalizer_first_witness:
  "\<exists>t z. exec (HubConfig_Reconcile ref_lib (NewHubConfigReconciler ''hub'' ''img'') (ObjectKey [] ''cluster'')) t z \<and>
    (\<exists>hc t'. t = (Get Hub KHubConfig (ObjectKey [] ''cluster''), RObj (OHubConfig hc)) # t' \<and>
      hubConfigAdapterFinalizer \<in> set (m_finalizers (hc_meta hc)))"
proof -
  let ?hc = "deleting_hubconfig\<lparr>hc_meta := (hc_meta deleting_hubconfig)\<lparr>m_deletion := None\<rparr>\<rparr>"
  let ?e = "\<lparr>err_reason = OtherReason, err_text = ''forbidden''\<rparr>"
  let ?sa = "OServiceAccount (adapterServiceAccount ''hub'')"
  let ?t = "[(Get Hub KHubConfig (ObjectKey [] ''cluster''), RObj (OHubConfig ?hc)), (Create Hub ?sa, RErr ?e)]"
  have "\<exists>z. exec (HubConfig_Reconcile ref_lib (NewHubConfigReconciler ''hub'' ''img'') (ObjectKey [] ''cluster'')) ?t z"
    by (simp add: HubConfig_Reconcile_def hub_ops exec_get deleting_hubconfig_def IsZero_def hubconfig_ensure_def
        NewHubConfigReconciler_def ensureAdapterStack_def adapterResources_def exec_create)
  then obtain z where z: "exec (HubConfig_Reconcile ref_lib (NewHubConfigReconciler ''hub'' ''img'') (ObjectKey [] ''cluster'')) ?t z" ..
  have "(Create Hub ?sa, RErr ?e) \<in> set ?t" by simp
  from hubconfig_finalizer_first [OF ref_library.finalizers_axioms z this]
  show ?thesis using z by (intro exI [of _ ?t] exI [of _ z]) auto
qed

end
