(* ===== verification/Credential.thy ===== *)
theory Credential
  imports Ref_Library
begin

text \<open>
  Package \<^verbatim>\<open>internal/credential\<close>: the credential sources (\<^verbatim>\<open>secret.go\<close>, \<^verbatim>\<open>mce.go\<close>), the
  standing kubeconfig (\<^verbatim>\<open>kubeconfig.go\<close>) and the adapter credential (\<^verbatim>\<open>adapter.go\<close>).
\<close>

section \<open>Constants\<close>

definition StandingKubeconfigPrefix :: string where
  [hub_consts]: "StandingKubeconfigPrefix = ''spoke-kubeconfig-''"
definition KubeconfigKey :: string where
  [hub_consts]: "KubeconfigKey = ''kubeconfig''"
definition AdapterCredentialPrefix :: string where
  [hub_consts]: "AdapterCredentialPrefix = ''spoke-alert-credential-''"
definition AlertmanagerURLKey :: string where
  [hub_consts]: "AlertmanagerURLKey = ''alertmanager-url''"
definition TokenKey :: string where
  [hub_consts]: "TokenKey = ''token''"
definition TokenExpiryKey :: string where
  [hub_consts]: "TokenExpiryKey = ''token-expiry''"
definition CABundleKey :: string where
  [hub_consts]: "CABundleKey = ''ca-bundle''"
definition AdapterCredentialLabel :: string where
  [hub_consts]: "AdapterCredentialLabel = ''hub.openshift.io/alert-credential-secret''"
definition mceProxyServiceName :: string where
  [hub_consts]: "mceProxyServiceName = ''cluster-proxy-addon-user''"
definition mceProxyPortName :: string where
  [hub_consts]: "mceProxyPortName = ''user-port''"
definition ProxyCAConfigMapName :: string where
  [hub_consts]: "ProxyCAConfigMapName = ''lightspeed-hub-proxy-ca''"
definition proxyCAKey :: string where
  [hub_consts]: "proxyCAKey = ''service-ca.crt''"
definition MCEManagedByLabel :: string where
  [hub_consts]: "MCEManagedByLabel = ''hub.openshift.io/managed-by''"
definition MCEManagedByValue :: string where
  [hub_consts]: "MCEManagedByValue = ''mce-auto-discovery''"
definition MSAName :: string where
  [hub_consts]: "MSAName = ''lightspeed-hub-agent''"
definition msaTokenKey :: string where
  [hub_consts]: "msaTokenKey = ''token''"
definition mceDefaultNamespace :: string where
  [hub_consts]: "mceDefaultNamespace = ''multicluster-engine''"

section \<open>The secret source\<close>

text \<open>The two loops that refuse file paths, and the names they put into their errors.\<close>

definition admin_secret_error :: "secret_credential_source \<Rightarrow> string \<Rightarrow> credential_err \<Rightarrow> go_error" where
  "admin_secret_error ref what e =
     Errorf [S ''admin kubeconfig secret '', S (scs_namespace ref), S ''/'', S (scs_name ref),
       S what, S '': '', W (CredErr e)]"

fun check_clusters :: "secret_credential_source \<Rightarrow> (string \<times> kube_cluster) list \<Rightarrow> go_error option" where
  "check_clusters ref [] = None"
| "check_clusters ref ((name, cluster) # rest) =
     (if cl_CertificateAuthority cluster \<noteq> []
      then Some (admin_secret_error ref ('' cluster '' @ Quote name) ErrCertFilePathUsed)
      else check_clusters ref rest)"

fun check_auth_infos :: "secret_credential_source \<Rightarrow> (string \<times> kube_auth_info) list \<Rightarrow> go_error option" where
  "check_auth_infos ref [] = None"
| "check_auth_infos ref ((name, authInfo) # rest) =
     (if au_ClientCertificate authInfo \<noteq> [] \<or> au_ClientKey authInfo \<noteq> []
      then Some (admin_secret_error ref ('' user '' @ Quote name) ErrClientCertFilePathUsed)
      else if au_TokenFile authInfo \<noteq> []
      then Some (admin_secret_error ref ('' user '' @ Quote name) ErrTokenFileUsed)
      else check_auth_infos ref rest)"

text \<open>The part of \<open>GetRESTConfig\<close> that works on the bytes of the kubeconfig.\<close>

definition secret_rest_config :: "k8s_lib \<Rightarrow> secret_credential_source \<Rightarrow> bytes \<Rightarrow> go_error + rest_config" where
  "secret_rest_config L ref kubeconfig =
    (let parse_error = (\<lambda>err. Errorf [W (CredErr ErrParsingKubeconfig), S '' '', S (scs_namespace ref),
           S ''/'', S (scs_name ref), S '': '', W err]) in
     case lib_Load L kubeconfig of
       Inl err \<Rightarrow> Inl (parse_error err)
     | Inr apiCfg \<Rightarrow>
         (case check_clusters ref (range_map L 0 (kc_Clusters apiCfg)) of
            Some err \<Rightarrow> Inl err
          | None \<Rightarrow>
         (case check_auth_infos ref (range_map L 1 (kc_AuthInfos apiCfg)) of
            Some err \<Rightarrow> Inl err
          | None \<Rightarrow>
         (case lib_RESTConfigFromKubeConfig L kubeconfig of
            Inl err \<Rightarrow> Inl (parse_error err)
          | Inr cfg \<Rightarrow>
              if rc_BearerToken cfg = [] \<and> length (rc_CertData cfg) = 0
              then Inl (admin_secret_error ref [] ErrUnsupportedAuth)
              else Inr cfg))))"

definition Secret_GetRESTConfig :: "k8s_lib \<Rightarrow> spokecluster \<Rightarrow> (go_error + rest_config) prog" where
  "Secret_GetRESTConfig L sc =
    (case sc_secret sc of
       None \<Rightarrow> Ret (Inl (Errorf [S ''spoke '', S (Quote (sc_name sc)), S '': '',
         W (CredErr ErrNoSecretSource)]))
     | Some ref \<Rightarrow>
         and_then (get_secret (ObjectKey (scs_namespace ref) (scs_name ref))) (\<lambda>res.
         case res of
           Inl err \<Rightarrow> Ret (Inl (Errorf [W (CredErr ErrReadingSecret), S '' '', S (scs_namespace ref),
             S ''/'', S (scs_name ref), S '': '', W (ApiErr err)]))
         | Inr sec \<Rightarrow>
             (case map_of (s_data sec) ''kubeconfig'' of
                None \<Rightarrow> Ret (Inl (Errorf [W (CredErr ErrMissingKubeconfigKey), S '': '',
                  S (scs_namespace ref), S ''/'', S (scs_name ref)]))
              | Some kubeconfig \<Rightarrow> Ret (secret_rest_config L ref kubeconfig))))"

section \<open>The MCE source\<close>

definition readMSAToken :: "string \<Rightarrow> (go_error + string) prog" where
  "readMSAToken managedClusterName =
    and_then (get_secret (ObjectKey managedClusterName MSAName)) (\<lambda>res.
    case res of
      Inl err \<Rightarrow> Ret (Inl (Errorf [S ''getting MSA secret '', S managedClusterName, S ''/'', S MSAName,
        S '': '', W (ApiErr err)]))
    | Inr sec \<Rightarrow>
        (case map_of (s_data sec) msaTokenKey of
           Some token \<Rightarrow>
             if length token = 0
             then Ret (Inl (Errorf [S ''MSA secret '', S managedClusterName, S ''/'', S MSAName,
               S '' missing or empty '', S (Quote msaTokenKey), S '' key'']))
             else Ret (Inr (TrimSpace token))
         | None \<Rightarrow> Ret (Inl (Errorf [S ''MSA secret '', S managedClusterName, S ''/'', S MSAName,
             S '' missing or empty '', S (Quote msaTokenKey), S '' key'']))))"

fun find_port :: "service_port list \<Rightarrow> string \<Rightarrow> 32 word option" where
  "find_port [] portName = None"
| "find_port (p # ps) portName = (if port_name p = portName then Some (port_port p) else find_port ps portName)"

definition findNamedPort :: "service \<Rightarrow> string \<Rightarrow> go_error + 32 word" where
  "findNamedPort svc portName =
    (case find_port (svc_ports svc) portName of
       Some port \<Rightarrow> Inr port
     | None \<Rightarrow> Inl (Errorf [S ''proxy service '', S (m_namespace (svc_meta svc)), S ''/'',
         S (m_name (svc_meta svc)), S '' has no port named '', S (Quote portName)]))"

definition mce_gvk :: gvk where
  "mce_gvk = \<lparr>g_group = ''multicluster.openshift.io'', g_version = ''v1'', g_kind = ''MultiClusterEngineList''\<rparr>"

text \<open>\<open>targetNS, _, _ := NestedString(...)\<close>: an error or a missing field leaves the empty string.\<close>

definition nested_string_or_empty :: "k8s_lib \<Rightarrow> json \<Rightarrow> string list \<Rightarrow> string" where
  "nested_string_or_empty L j p =
    (case lib_NestedString L j p of Inl e \<Rightarrow> [] | Inr None \<Rightarrow> [] | Inr (Some s) \<Rightarrow> s)"

definition mce_target_namespace :: "k8s_lib \<Rightarrow> unstructured \<Rightarrow> string" where
  "mce_target_namespace L mce =
    (let targetNS = nested_string_or_empty L (u_object mce) [''spec'', ''targetNamespace'']
     in if targetNS = [] then mceDefaultNamespace else targetNS)"

definition discoverProxyEndpoint :: "k8s_lib \<Rightarrow> (go_error + string) prog" where
  "discoverProxyEndpoint L =
    and_then (client_list (KUnstructured mce_gvk) as_unstructured []) (\<lambda>res.
    case res of
      Inl err \<Rightarrow> Ret (Inl (Errorf [S ''listing MultiClusterEngine CRs: '', W (ApiErr err)]))
    | Inr [] \<Rightarrow> Ret (Inl (Errorf [S ''no MultiClusterEngine CR found'']))
    | Inr (mce # _ # _) \<Rightarrow>
        Ret (Inl (Errorf [S ''multiple MultiClusterEngine CRs found, expected exactly one'']))
    | Inr [mce] \<Rightarrow>
        (let targetNS = mce_target_namespace L mce in
         and_then (client_get Hub KService as_service (ObjectKey targetNS mceProxyServiceName)) (\<lambda>sres.
         case sres of
           Inl err \<Rightarrow> Ret (Inl (Errorf [S ''getting proxy service '', S targetNS, S ''/'',
             S mceProxyServiceName, S '': '', W (ApiErr err)]))
         | Inr svc \<Rightarrow>
             (case findNamedPort svc mceProxyPortName of
                Inl err \<Rightarrow> Ret (Inl err)
              | Inr port \<Rightarrow> Ret (Inr (''https://'' @ mceProxyServiceName @ ''.'' @ targetNS @ ''.svc:''
                  @ Itoa (sint port)))))))"

definition readProxyCA :: "string \<Rightarrow> (go_error + bytes) prog" where
  "readProxyCA operatorNamespace =
    and_then (client_get Hub KConfigMap as_configmap (ObjectKey operatorNamespace ProxyCAConfigMapName)) (\<lambda>res.
    case res of
      Inl err \<Rightarrow> Ret (Inl (Errorf [S ''getting proxy CA configmap '', S operatorNamespace, S ''/'',
        S ProxyCAConfigMapName, S '': '', W (ApiErr err)]))
    | Inr cm \<Rightarrow>
        (let missing = Errorf [S ''proxy CA configmap '', S operatorNamespace, S ''/'', S ProxyCAConfigMapName,
               S '' missing or empty '', S (Quote proxyCAKey),
               S '' key (service-ca operator may not have injected the CA yet)''] in
         case map_of (cm_data cm) proxyCAKey of
           None \<Rightarrow> Ret (Inl missing)
         | Some caBundle \<Rightarrow> if TrimSpace caBundle = [] then Ret (Inl missing) else Ret (Inr caBundle)))"

definition MCE_GetRESTConfig :: "k8s_lib \<Rightarrow> string \<Rightarrow> spokecluster \<Rightarrow> (go_error + rest_config) prog" where
  "MCE_GetRESTConfig L operatorNamespace sc =
    (case sc_mce sc of
       None \<Rightarrow> Ret (Inl (Errorf [S ''spoke '', S (Quote (sc_name sc)), S '' has no MCE credential source'']))
     | Some src \<Rightarrow>
        (let managedClusterName = mcs_managedClusterName src in
         and_then (readMSAToken managedClusterName) (\<lambda>tres.
         case tres of
           Inl err \<Rightarrow> Ret (Inl (Errorf [S ''reading MSA token for spoke '', S (Quote managedClusterName),
             S '': '', W err]))
         | Inr token \<Rightarrow>
         and_then (discoverProxyEndpoint L) (\<lambda>pres.
         case pres of
           Inl err \<Rightarrow> Ret (Inl (Errorf [S ''discovering MCE proxy endpoint: '', W err]))
         | Inr proxyHost \<Rightarrow>
         and_then (readProxyCA operatorNamespace) (\<lambda>cres.
         case cres of
           Inl err \<Rightarrow> Ret (Inl (Errorf [S ''reading proxy CA: '', W err]))
         | Inr caData \<Rightarrow>
             Ret (Inr \<lparr>rc_Host = proxyHost @ ''/'' @ managedClusterName, rc_BearerToken = token,
               rc_CAData = caData, rc_CertData = [], rc_KeyData = [], rc_Insecure = False,
               rc_Timeout = 0\<rparr>))))))"

section \<open>The dispatching source\<close>

definition Dispatching_GetRESTConfig :: "k8s_lib \<Rightarrow> string \<Rightarrow> spokecluster \<Rightarrow> (go_error + rest_config) prog" where
  "Dispatching_GetRESTConfig L operatorNamespace sc =
    (if sc_secret sc \<noteq> None then Secret_GetRESTConfig L sc
     else if sc_mce sc \<noteq> None then MCE_GetRESTConfig L operatorNamespace sc
     else Ret (Inl (Errorf [S ''spoke '', S (Quote (sc_name sc)), S '' has no recognized credential source''])))"

section \<open>The standing kubeconfig\<close>

definition StandingKubeconfigName :: "string \<Rightarrow> string" where
  "StandingKubeconfigName spokeName = StandingKubeconfigPrefix @ spokeName"

definition buildKubeconfigAPI :: "rest_config \<Rightarrow> string \<Rightarrow> kube_config" where
  "buildKubeconfigAPI cfg apiServer =
    (let cluster = \<lparr>cl_Server = (if apiServer = [] then rc_Host cfg else apiServer),
           cl_CertificateAuthority = [], cl_CertificateAuthorityData = rc_CAData cfg,
           cl_InsecureSkipTLSVerify = rc_Insecure cfg\<rparr>;
         user0 = \<lparr>au_Token = [], au_TokenFile = [], au_ClientCertificate = [],
           au_ClientCertificateData = [], au_ClientKey = [], au_ClientKeyData = []\<rparr>;
         user1 = (if rc_BearerToken cfg \<noteq> [] then user0\<lparr>au_Token := rc_BearerToken cfg\<rparr> else user0);
         user = (if length (rc_CertData cfg) > 0
           then user1\<lparr>au_ClientCertificateData := rc_CertData cfg, au_ClientKeyData := rc_KeyData cfg\<rparr>
           else user1)
     in \<lparr>kc_Clusters = [(''spoke'', cluster)], kc_AuthInfos = [(''spoke-user'', user)],
         kc_Contexts = [(''spoke'', \<lparr>cx_Cluster = ''spoke'', cx_AuthInfo = ''spoke-user''\<rparr>)],
         kc_CurrentContext = ''spoke''\<rparr>)"

definition BuildStandingKubeconfig ::
  "k8s_lib \<Rightarrow> rest_config \<Rightarrow> spokecluster \<Rightarrow> string \<Rightarrow> string \<Rightarrow> go_error + secret" where
  "BuildStandingKubeconfig L cfg sc serverOverride operatorNamespace =
    (case lib_Write L (buildKubeconfigAPI cfg serverOverride) of
       Inl err \<Rightarrow> Inl (Errorf [W (CredErr ErrSerializingKubeconfig), S '' for spoke '',
         S (Quote (sc_name sc)), S '': '', W err])
     | Inr kubeconfigBytes \<Rightarrow>
         (case lib_SetControllerReference L sc (new_meta operatorNamespace (StandingKubeconfigName (sc_name sc))) of
            Inl err \<Rightarrow> Inl (Errorf [W (CredErr ErrSettingOwnerRef), S '' on standing kubeconfig for spoke '',
              S (Quote (sc_name sc)), S '': '', W err])
          | Inr m \<Rightarrow> Inr \<lparr>s_meta = m, s_data = [(KubeconfigKey, kubeconfigBytes)]\<rparr>))"

section \<open>The adapter credential\<close>

definition AdapterCredentialName :: "string \<Rightarrow> string" where
  "AdapterCredentialName spokeName = AdapterCredentialPrefix @ spokeName"

definition BuildAdapterCredentialSecret ::
  "k8s_lib \<Rightarrow> spokecluster \<Rightarrow> string \<Rightarrow> string \<Rightarrow> string \<Rightarrow> string \<Rightarrow> string \<Rightarrow> go_error + secret" where
  "BuildAdapterCredentialSecret L sc alertmanagerURL token tokenExpiry caBundle operatorNamespace =
    (let data0 = [(AlertmanagerURLKey, alertmanagerURL), (TokenKey, token)];
         data1 = (if tokenExpiry \<noteq> [] then AList.update TokenExpiryKey tokenExpiry data0 else data0);
         data = (if caBundle \<noteq> [] then AList.update CABundleKey caBundle data1 else data1)
     in case lib_SetControllerReference L sc (new_meta operatorNamespace (AdapterCredentialName (sc_name sc))) of
          Inl err \<Rightarrow> Inl (Errorf [W (CredErr ErrSettingOwnerRef), S '' on adapter credential for spoke '',
            S (Quote (sc_name sc)), S '': '', W err])
        | Inr m \<Rightarrow> Inr \<lparr>s_meta = m, s_data = data\<rparr>)"

section \<open>The contract of a credential source\<close>

text \<open>
  What the SpokeCluster controller needs of the Go interface \<open>CredentialSource\<close>
  (\<^verbatim>\<open>broker.go\<close>): getting a configuration changes nothing and cannot panic.
\<close>

locale credential_source =
  fixes getRESTConfig :: "spokecluster \<Rightarrow> (go_error + rest_config) prog"
  assumes source_read_only: "read_only (getRESTConfig sc)"
    and source_never_panics: "never_panics (getRESTConfig sc)"
begin

lemma source_trace_reads: "exec (getRESTConfig sc) t z \<Longrightarrow> (q, r) \<in> set t \<Longrightarrow> \<not> is_write q"
  using source_read_only by (rule all_reqs_exec [rotated])

lemma source_returns: "exec (getRESTConfig sc) t z \<Longrightarrow> \<exists>res. z = Done res"
  using source_never_panics [of sc] never_panics_exec by (cases z) auto

end

lemma readMSAToken_safe: "read_only (readMSAToken n)" "never_panics (readMSAToken n)"
  by (auto simp: readMSAToken_def hub_ops intro!: prog_safe_intros split: sum.splits option.splits)

lemma discoverProxyEndpoint_safe:
  "read_only (discoverProxyEndpoint L)" "never_panics (discoverProxyEndpoint L)"
  by (auto simp: discoverProxyEndpoint_def Let_def intro!: prog_safe_intros
      split: sum.splits list.splits)

lemma readProxyCA_safe: "read_only (readProxyCA ns)" "never_panics (readProxyCA ns)"
  by (auto simp: readProxyCA_def Let_def intro!: prog_safe_intros split: sum.splits option.splits)

interpretation secret_source: credential_source "Secret_GetRESTConfig L" for L
  by unfold_locales
    (auto simp: Secret_GetRESTConfig_def hub_ops intro!: prog_safe_intros split: sum.splits option.splits)

interpretation mce_source: credential_source "MCE_GetRESTConfig L ns" for L ns
  by unfold_locales
    (auto simp: MCE_GetRESTConfig_def Let_def readMSAToken_safe discoverProxyEndpoint_safe readProxyCA_safe
      intro!: prog_safe_intros split: sum.splits option.splits)

interpretation dispatching_source: credential_source "Dispatching_GetRESTConfig L ns" for L ns
  by unfold_locales
    (auto simp: Dispatching_GetRESTConfig_def secret_source.source_read_only mce_source.source_read_only
      secret_source.source_never_panics mce_source.source_never_panics)

section \<open>Properties\<close>

lemma check_clusters_None:
  "check_clusters ref cs = None \<longleftrightarrow> (\<forall>(n, cl) \<in> set cs. cl_CertificateAuthority cl = [])"
  by (induction ref cs rule: check_clusters.induct) auto

lemma check_auth_infos_None:
  "check_auth_infos ref us = None \<longleftrightarrow>
    (\<forall>(n, au) \<in> set us. au_ClientCertificate au = [] \<and> au_ClientKey au = [] \<and> au_TokenFile au = [])"
  by (induction ref us rule: check_auth_infos.induct) auto

lemma secret_rest_config_Inr:
  "secret_rest_config L ref kc = Inr cfg \<longleftrightarrow>
    (\<exists>apiCfg. lib_Load L kc = Inr apiCfg \<and>
      check_clusters ref (range_map L 0 (kc_Clusters apiCfg)) = None \<and>
      check_auth_infos ref (range_map L 1 (kc_AuthInfos apiCfg)) = None \<and>
      lib_RESTConfigFromKubeConfig L kc = Inr cfg \<and>
      (rc_BearerToken cfg \<noteq> [] \<or> rc_CertData cfg \<noteq> []))"
  by (auto simp: secret_rest_config_def Let_def split: sum.splits option.splits)

lemma secret_source_Inr:
  "exec (Secret_GetRESTConfig L sc) t (Done (Inr cfg)) \<longleftrightarrow>
    (\<exists>ref sec kc. sc_secret sc = Some ref \<and>
      t = [(Get Hub KSecret (ObjectKey (scs_namespace ref) (scs_name ref)), RObj (OSecret sec))] \<and>
      map_of (s_data sec) ''kubeconfig'' = Some kc \<and> secret_rest_config L ref kc = Inr cfg)"
  by (auto simp: Secret_GetRESTConfig_def hub_ops exec_simps resp_obj_Inr eq_commute [of "Inr cfg"])

text \<open>
  C18.  The secret source returns a client configuration exactly when the referenced Secret was
  read, has a kubeconfig that loads, none of its clusters and users refers to a file on the hub
  pod (certificate authority, client certificate or key, token file), and the configuration
  carries a bearer token or a client certificate.  Nothing but that one Secret is read.
\<close>

theorem secret_source_accepts_iff:
  assumes "map_ranging L"
    and "\<And>b k. lib_Load L b = Inr k \<Longrightarrow>
      distinct (map fst (kc_Clusters k)) \<and> distinct (map fst (kc_AuthInfos k))"
  shows "exec (Secret_GetRESTConfig L sc) t (Done (Inr cfg)) \<longleftrightarrow>
    (\<exists>ref sec kc apiCfg. sc_secret sc = Some ref \<and>
      t = [(Get Hub KSecret (ObjectKey (scs_namespace ref) (scs_name ref)), RObj (OSecret sec))] \<and>
      map_of (s_data sec) ''kubeconfig'' = Some kc \<and> lib_Load L kc = Inr apiCfg \<and>
      (\<forall>(n, cl) \<in> set (kc_Clusters apiCfg). cl_CertificateAuthority cl = []) \<and>
      (\<forall>(n, au) \<in> set (kc_AuthInfos apiCfg).
        au_ClientCertificate au = [] \<and> au_ClientKey au = [] \<and> au_TokenFile au = []) \<and>
      lib_RESTConfigFromKubeConfig L kc = Inr cfg \<and>
      (rc_BearerToken cfg \<noteq> [] \<or> rc_CertData cfg \<noteq> []))"
proof -
  have c: "check_clusters ref (range_map L 0 (kc_Clusters k)) = None \<longleftrightarrow>
      (\<forall>(n, cl) \<in> set (kc_Clusters k). cl_CertificateAuthority cl = [])"
    if "lib_Load L b = Inr k" for ref b k
    using assms(2) [OF that] by (simp add: check_clusters_None map_ranging.set_range_map [OF assms(1)])
  have u: "check_auth_infos ref (range_map L 1 (kc_AuthInfos k)) = None \<longleftrightarrow>
      (\<forall>(n, au) \<in> set (kc_AuthInfos k).
        au_ClientCertificate au = [] \<and> au_ClientKey au = [] \<and> au_TokenFile au = [])"
    if "lib_Load L b = Inr k" for ref b k
    using assms(2) [OF that] by (simp add: check_auth_infos_None map_ranging.set_range_map [OF assms(1)])
  have "secret_rest_config L ref kc = Inr cfg \<longleftrightarrow>
      (\<exists>k. lib_Load L kc = Inr k \<and>
        (\<forall>(n, cl) \<in> set (kc_Clusters k). cl_CertificateAuthority cl = []) \<and>
        (\<forall>(n, au) \<in> set (kc_AuthInfos k).
          au_ClientCertificate au = [] \<and> au_ClientKey au = [] \<and> au_TokenFile au = []) \<and>
        lib_RESTConfigFromKubeConfig L kc = Inr cfg \<and>
        (rc_BearerToken cfg \<noteq> [] \<or> rc_CertData cfg \<noteq> []))" for ref kc
    unfolding secret_rest_config_Inr using c u by (intro ex_cong1 conj_cong refl) auto
  then show ?thesis unfolding secret_source_Inr by simp
qed

theorem secret_source_accepts_iff_witness:
  "\<exists>b. ref_Write (buildKubeconfigAPI spoke_config []) = Inr b \<and>
    exec (Secret_GetRESTConfig ref_lib edge_spoke)
      [(Get Hub KSecret (ObjectKey ''vault'' ''edge-admin''),
        RObj (OSecret \<lparr>s_meta = new_meta ''vault'' ''edge-admin'', s_data = [(''kubeconfig'', b)]\<rparr>))]
      (Done (Inr spoke_config))"
proof -
  have wf: "ref_wf_config (buildKubeconfigAPI spoke_config [])"
    by (simp add: ref_wf_config_def buildKubeconfigAPI_def Let_def)
  then obtain b where b: "ref_Write (buildKubeconfigAPI spoke_config []) = Inr b" by (simp add: ref_Write_def)
  have "exec (Secret_GetRESTConfig ref_lib edge_spoke)
      [(Get Hub KSecret (ObjectKey ''vault'' ''edge-admin''),
        RObj (OSecret \<lparr>s_meta = new_meta ''vault'' ''edge-admin'', s_data = [(''kubeconfig'', b)]\<rparr>))]
      (Done (Inr spoke_config))"
    by (subst secret_source_accepts_iff [OF ref_library.map_ranging_axioms])
      (use ref_Load_distinct in \<open>simp\<close>,
       simp add: edge_spoke_def ref_Load_def ref_RESTConfig_def ref_load_Write [OF b] buildKubeconfigAPI_def
         client_config_def spoke_config_def Let_def)
  with b show ?thesis by blast
qed

lemma check_clusters_Some:
  "check_clusters ref cs = Some e \<Longrightarrow> errors_Is e (CredErr ErrCertFilePathUsed)"
  by (induction ref cs rule: check_clusters.induct)
    (auto simp: admin_secret_error_def split: if_splits)

lemma check_auth_infos_Some:
  "check_auth_infos ref us = Some e \<Longrightarrow>
    errors_Is e (CredErr ErrClientCertFilePathUsed) \<or> errors_Is e (CredErr ErrTokenFileUsed)"
  by (induction ref us rule: check_auth_infos.induct)
    (auto simp: admin_secret_error_def split: if_splits)

lemma secret_rest_config_Inl:
  "secret_rest_config L ref kc = Inl e \<Longrightarrow> \<exists>s. errors_Is e (CredErr s) \<and>
      s \<in> {ErrParsingKubeconfig, ErrCertFilePathUsed, ErrClientCertFilePathUsed, ErrTokenFileUsed,
        ErrUnsupportedAuth}"
  by (auto simp: secret_rest_config_def Let_def admin_secret_error_def
      dest!: check_clusters_Some check_auth_infos_Some split: sum.splits option.splits if_splits)

text \<open>
  C27.  Every failure of the secret source is one of its sentinel errors, so that a caller can tell
  them apart with \<open>errors.Is\<close>; it always returns, whatever the API server answers.
\<close>

theorem secret_source_error_class:
  "exec (Secret_GetRESTConfig L sc) t z \<Longrightarrow>
    (\<exists>cfg. z = Done (Inr cfg)) \<or>
    (\<exists>e s. z = Done (Inl e) \<and> errors_Is e (CredErr s) \<and>
      s \<in> {ErrNoSecretSource, ErrReadingSecret, ErrMissingKubeconfigKey, ErrParsingKubeconfig,
        ErrCertFilePathUsed, ErrClientCertFilePathUsed, ErrTokenFileUsed, ErrUnsupportedAuth})"
proof (cases "sc_secret sc")
  case None
  moreover assume "exec (Secret_GetRESTConfig L sc) t z"
  ultimately show ?thesis by (simp add: Secret_GetRESTConfig_def)
next
  case (Some ref)
  moreover assume "exec (Secret_GetRESTConfig L sc) t z"
  ultimately consider
      e where "z = Done (Inl (Errorf [W (CredErr ErrReadingSecret), S '' '', S (scs_namespace ref),
        S ''/'', S (scs_name ref), S '': '', W (ApiErr e)]))"
    | "z = Done (Inl (Errorf [W (CredErr ErrMissingKubeconfigKey), S '': '',
        S (scs_namespace ref), S ''/'', S (scs_name ref)]))"
    | kc where "z = Done (secret_rest_config L ref kc)"
    by (auto simp: Secret_GetRESTConfig_def hub_ops exec_simps)
  then show ?thesis
  proof cases
    case (3 kc)
    show ?thesis
    proof (cases "secret_rest_config L ref kc")
      case (Inl e)
      with 3 secret_rest_config_Inl [OF Inl] show ?thesis by blast
    qed (use 3 in simp)
  qed simp_all
qed

theorem secret_source_error_class_witness:
  "\<exists>e s. exec (Secret_GetRESTConfig ref_lib edge_spoke)
      [(Get Hub KSecret (ObjectKey ''vault'' ''edge-admin''), RErr \<lparr>err_reason = NotFound, err_text = ''gone''\<rparr>)]
      (Done (Inl e)) \<and> errors_Is e (CredErr s)"
proof -
  have "exec (Secret_GetRESTConfig ref_lib edge_spoke)
      [(Get Hub KSecret (ObjectKey ''vault'' ''edge-admin''), RErr \<lparr>err_reason = NotFound, err_text = ''gone''\<rparr>)]
      (Done (Inl (Errorf [W (CredErr ErrReadingSecret), S '' '', S ''vault'', S ''/'', S ''edge-admin'', S '': '',
        W (ApiErr \<lparr>err_reason = NotFound, err_text = ''gone''\<rparr>)])))" (is "exec ?p ?t (Done (Inl ?e))")
    by (simp add: Secret_GetRESTConfig_def edge_spoke_def hub_ops exec_simps)
  from secret_source_error_class [OF this] this show ?thesis by (auto simp del: errors_Is.simps)
qed

lemma readMSAToken_Inr:
  "exec (readMSAToken n) t (Done (Inr tok)) \<longleftrightarrow>
    (\<exists>sec raw. t = [(Get Hub KSecret (ObjectKey n MSAName), RObj (OSecret sec))] \<and>
      map_of (s_data sec) msaTokenKey = Some raw \<and> raw \<noteq> [] \<and> tok = TrimSpace raw)"
  by (auto simp: readMSAToken_def hub_ops exec_simps resp_obj_Inr)

lemma find_port_iff: "find_port ps n = map_option port_port (find (\<lambda>p. port_name p = n) ps)"
  by (induction ps) auto

lemma findNamedPort_Inr:
  "findNamedPort svc n = Inr port \<longleftrightarrow>
    (\<exists>p. find (\<lambda>p. port_name p = n) (svc_ports svc) = Some p \<and> port = port_port p)"
  by (auto simp: findNamedPort_def find_port_iff split: option.splits)

lemma discoverProxyEndpoint_Inr:
  "exec (discoverProxyEndpoint L) t (Done (Inr h)) \<longleftrightarrow>
    (\<exists>mce svc p.
      t = [(ListObjs (KUnstructured mce_gvk) [], RList [OUnstructured mce]),
           (Get Hub KService (ObjectKey (mce_target_namespace L mce) mceProxyServiceName), RObj (OService svc))] \<and>
      find (\<lambda>p. port_name p = mceProxyPortName) (svc_ports svc) = Some p \<and>
      h = ''https://'' @ mceProxyServiceName @ ''.'' @ mce_target_namespace L mce @ ''.svc:''
        @ Itoa (sint (port_port p)))"
  by (auto simp: discoverProxyEndpoint_def exec_simps Let_def resp_list_Inr resp_obj_Inr
      findNamedPort_Inr list_all2_Cons1 list_all2_Cons2)

lemma readProxyCA_Inr:
  "exec (readProxyCA ns) t (Done (Inr ca)) \<longleftrightarrow>
    (\<exists>cm. t = [(Get Hub KConfigMap (ObjectKey ns ProxyCAConfigMapName), RObj (OConfigMap cm))] \<and>
      map_of (cm_data cm) proxyCAKey = Some ca \<and> TrimSpace ca \<noteq> [])"
  by (auto simp: readProxyCA_def Let_def exec_simps resp_obj_Inr)

text \<open>
  C19.  The MCE source returns a client configuration exactly when the token Secret of the managed
  cluster, the one MultiClusterEngine, its proxy service with the user port, and the proxy CA were
  all read; the configuration then leads to the path of the managed cluster behind the proxy
  service in the engine's target namespace, with the trimmed token, the CA as it was read, and
  TLS verification on.
\<close>

theorem mce_source_accepts_iff:
  "exec (MCE_GetRESTConfig L ns sc) t (Done (Inr cfg)) \<longleftrightarrow>
    (\<exists>src sec raw mce svc p cm ca.
      sc_mce sc = Some src \<and>
      t = [(Get Hub KSecret (ObjectKey (mcs_managedClusterName src) MSAName), RObj (OSecret sec)),
           (ListObjs (KUnstructured mce_gvk) [], RList [OUnstructured mce]),
           (Get Hub KService (ObjectKey (mce_target_namespace L mce) mceProxyServiceName), RObj (OService svc)),
           (Get Hub KConfigMap (ObjectKey ns ProxyCAConfigMapName), RObj (OConfigMap cm))] \<and>
      map_of (s_data sec) msaTokenKey = Some raw \<and> raw \<noteq> [] \<and>
      find (\<lambda>p. port_name p = mceProxyPortName) (svc_ports svc) = Some p \<and>
      map_of (cm_data cm) proxyCAKey = Some ca \<and> TrimSpace ca \<noteq> [] \<and>
      cfg = \<lparr>rc_Host = ''https://'' @ mceProxyServiceName @ ''.'' @ mce_target_namespace L mce @ ''.svc:''
          @ Itoa (sint (port_port p)) @ ''/'' @ mcs_managedClusterName src,
        rc_BearerToken = TrimSpace raw, rc_CAData = ca, rc_CertData = [], rc_KeyData = [],
        rc_Insecure = False, rc_Timeout = 0\<rparr>)"
  by (auto simp: MCE_GetRESTConfig_def readMSAToken_def discoverProxyEndpoint_def readProxyCA_def
      Let_def hub_ops exec_simps resp_list_Inr resp_obj_Inr findNamedPort_Inr list_all2_Cons1 list_all2_Cons2)

text \<open>
  C28.  The MCE source checks that the token is not empty before it trims it, unlike the CA: a
  Secret whose token consists of white space is accepted, and the result is a configuration with
  no credential at all.
\<close>

theorem mce_source_blank_token:
  assumes "map_of (s_data sec) msaTokenKey = Some raw" and "raw \<noteq> []" and "TrimSpace raw = []"
  shows "exec (readMSAToken n) [(Get Hub KSecret (ObjectKey n MSAName), RObj (OSecret sec))] (Done (Inr []))"
  using assms by (simp add: readMSAToken_Inr)

theorem mce_source_blank_token_witness:
  "\<exists>sec. map_of (s_data sec) msaTokenKey = Some [CHR 0x20, CHR 0x0A] \<and>
    exec (readMSAToken ''spoke-1'') [(Get Hub KSecret (ObjectKey ''spoke-1'' MSAName), RObj (OSecret sec))]
      (Done (Inr []))"
proof -
  define sec where "sec = \<lparr>s_meta = new_meta ''spoke-1'' MSAName, s_data = [(msaTokenKey, [CHR 0x20, CHR 0x0A])]\<rparr>"
  have t: "map_of (s_data sec) msaTokenKey = Some [CHR 0x20, CHR 0x0A]" by (simp add: sec_def)
  have "TrimSpace [CHR 0x20, CHR 0x0A] = []" by code_simp
  with mce_source_blank_token [OF t _ this, of "''spoke-1''"] t show ?thesis by blast
qed

subsection \<open>Generated Secrets\<close>

text \<open>Spokes never share a generated Secret, and the two kinds of Secrets never meet.\<close>

lemma StandingKubeconfigName_inj [simp]: "StandingKubeconfigName a = StandingKubeconfigName b \<longleftrightarrow> a = b"
  by (simp add: StandingKubeconfigName_def)

lemma AdapterCredentialName_inj [simp]: "AdapterCredentialName a = AdapterCredentialName b \<longleftrightarrow> a = b"
  by (simp add: AdapterCredentialName_def)

lemma standing_not_adapter [simp]:
  "StandingKubeconfigName a \<noteq> AdapterCredentialName b" "AdapterCredentialName b \<noteq> StandingKubeconfigName a"
  by (simp_all add: StandingKubeconfigName_def AdapterCredentialName_def hub_consts)

lemma BuildStandingKubeconfig_Inr:
  "BuildStandingKubeconfig L cfg sc srv ns = Inr sec \<longleftrightarrow>
    (\<exists>b. lib_Write L (buildKubeconfigAPI cfg srv) = Inr b \<and>
      lib_SetControllerReference L sc (new_meta ns (StandingKubeconfigName (sc_name sc))) = Inr (s_meta sec) \<and>
      s_data sec = [(KubeconfigKey, b)])"
  by (cases sec) (auto simp: BuildStandingKubeconfig_def split: sum.splits)

text \<open>
  C20.  Round trip of the standing kubeconfig: parsing the generated Secret gives back the server
  the spoke is reached at (the override, or the host of the source's configuration when there is
  none), the same CA and TLS setting, the same token, and the client certificate with its key.  Only a
  configuration with a client certificate and no key does not survive: the Secret is built, and parsing it fails.
\<close>

theorem standing_kubeconfig_roundtrip:
  assumes "kubeconfig_codec L"
    and "BuildStandingKubeconfig L cfg sc srv ns = Inr sec"
    and "plain_https (if srv = [] then rc_Host cfg else srv)"
  shows "\<exists>b. map_of (s_data sec) KubeconfigKey = Some b \<and>
    (if rc_CertData cfg \<noteq> [] \<and> rc_KeyData cfg = [] then \<exists>e. lib_RESTConfigFromKubeConfig L b = Inl e
     else \<exists>cfg'. lib_RESTConfigFromKubeConfig L b = Inr cfg' \<and>
       rc_Host cfg' = (if srv = [] then rc_Host cfg else srv) \<and>
       rc_BearerToken cfg' = rc_BearerToken cfg \<and>
       rc_CAData cfg' = rc_CAData cfg \<and> rc_Insecure cfg' = rc_Insecure cfg \<and>
       rc_CertData cfg' = rc_CertData cfg \<and>
       rc_KeyData cfg' = (if rc_CertData cfg = [] then [] else rc_KeyData cfg))"
proof -
  from assms(2) obtain b where b: "lib_Write L (buildKubeconfigAPI cfg srv) = Inr b"
    and d: "s_data sec = [(KubeconfigKey, b)]" by (auto simp: BuildStandingKubeconfig_Inr)
  let ?cx = "\<lparr>cx_Cluster = ''spoke'', cx_AuthInfo = ''spoke-user''\<rparr>"
  have "\<exists>e. lib_RESTConfigFromKubeConfig L b = Inl e" if "rc_CertData cfg \<noteq> [] \<and> rc_KeyData cfg = []"
    using kubeconfig_codec.certificate_needs_key [OF assms(1) b, of ?cx] that by (force simp: buildKubeconfigAPI_def Let_def split: if_splits)
  moreover have "\<exists>cfg'. lib_RESTConfigFromKubeConfig L b = Inr cfg' \<and>
      rc_Host cfg' = (if srv = [] then rc_Host cfg else srv) \<and>
      rc_BearerToken cfg' = rc_BearerToken cfg \<and>
      rc_CAData cfg' = rc_CAData cfg \<and> rc_Insecure cfg' = rc_Insecure cfg \<and>
      rc_CertData cfg' = rc_CertData cfg \<and>
      rc_KeyData cfg' = (if rc_CertData cfg = [] then [] else rc_KeyData cfg)"
    if "\<not> (rc_CertData cfg \<noteq> [] \<and> rc_KeyData cfg = [])"
    using kubeconfig_codec.write_then_config [OF assms(1) b, of ?cx] assms(3) that
    by (force simp: buildKubeconfigAPI_def Let_def split: if_splits)
  ultimately show ?thesis using d by simp
qed

theorem standing_kubeconfig_roundtrip_witness:
  "\<exists>sec b cfg'. BuildStandingKubeconfig ref_lib spoke_config edge_spoke [] ''lightspeed-hub'' = Inr sec \<and>
    map_of (s_data sec) KubeconfigKey = Some b \<and> lib_RESTConfigFromKubeConfig ref_lib b = Inr cfg' \<and>
    rc_Host cfg' = ''https://api.spoke:6443'' \<and> rc_BearerToken cfg' = ''secret''"
proof -
  have "ref_wf_config (buildKubeconfigAPI spoke_config [])"
    by (simp add: ref_wf_config_def buildKubeconfigAPI_def Let_def)
  then obtain sec where s: "BuildStandingKubeconfig ref_lib spoke_config edge_spoke [] ''lightspeed-hub'' = Inr sec"
    by (simp add: BuildStandingKubeconfig_def ref_Write_def ref_SetControllerReference_def Let_def)
  have "plain_https (if ([]::string) = [] then rc_Host spoke_config else [])"
    by (simp add: spoke_config_def) code_simp
  from standing_kubeconfig_roundtrip [OF ref_library.kubeconfig_codec_axioms s this] s show ?thesis
    by (auto simp: spoke_config_def)
qed

text \<open>The data of an adapter credential, key by key.\<close>

lemma BuildAdapterCredentialSecret_Inr:
  assumes "BuildAdapterCredentialSecret L sc url token expiry ca ns = Inr sec"
  shows "lib_SetControllerReference L sc (new_meta ns (AdapterCredentialName (sc_name sc))) = Inr (s_meta sec)"
    and "data_at (s_data sec) AlertmanagerURLKey = url"
    and "data_at (s_data sec) TokenKey = token"
    and "data_at (s_data sec) TokenExpiryKey = expiry"
    and "data_at (s_data sec) CABundleKey = ca"
    and "map_of (s_data sec) TokenExpiryKey = (if expiry = [] then None else Some expiry)"
    and "map_of (s_data sec) CABundleKey = (if ca = [] then None else Some ca)"
  using assms
  by (auto simp: BuildAdapterCredentialSecret_def Let_def data_at_def hub_consts split: sum.splits if_splits)

end
