(* ===== verification/Spoke_Status.thy ===== *)
theory Spoke_Status
  imports Ref_Library Ref_Server
begin

text \<open>
  Status conditions of a SpokeCluster, the first part of
  \<^verbatim>\<open>internal/controller/spokecluster_controller.go\<close>: setting a condition, comparing condition lists,
  patching the status, and the two ways of reporting a failure.  A \<open>*SpokeCluster\<close> that a method
  changes is returned by its model; log lines are left out.
\<close>

section \<open>Constants\<close>

definition conditionTypeReady :: string where
  [hub_consts]: "conditionTypeReady = ''Ready''"
definition conditionTypeConnected :: string where
  [hub_consts]: "conditionTypeConnected = ''Connected''"
definition conditionTypeProvisioned :: string where
  [hub_consts]: "conditionTypeProvisioned = ''Provisioned''"
definition conditionTypeAdaptersReady :: string where
  [hub_consts]: "conditionTypeAdaptersReady = ''AdaptersReady''"
definition reasonManaged :: string where
  [hub_consts]: "reasonManaged = ''Managed''"
definition reasonHubConfigMissing :: string where
  [hub_consts]: "reasonHubConfigMissing = ''HubConfigMissing''"
definition reasonCredentialSourceMismatch :: string where
  [hub_consts]: "reasonCredentialSourceMismatch = ''CredentialSourceMismatch''"
definition reasonConnectionSucceeded :: string where
  [hub_consts]: "reasonConnectionSucceeded = ''ConnectionSucceeded''"
definition reasonConnectionFailed :: string where
  [hub_consts]: "reasonConnectionFailed = ''ConnectionFailed''"
definition reasonCredentialError :: string where
  [hub_consts]: "reasonCredentialError = ''CredentialError''"
definition reasonProvisioningSucceeded :: string where
  [hub_consts]: "reasonProvisioningSucceeded = ''ProvisioningSucceeded''"
definition reasonProvisioningFailed :: string where
  [hub_consts]: "reasonProvisioningFailed = ''ProvisioningFailed''"
definition reasonAdaptersReady :: string where
  [hub_consts]: "reasonAdaptersReady = ''AdaptersReady''"
definition reasonAdaptersFailed :: string where
  [hub_consts]: "reasonAdaptersFailed = ''AdaptersFailed''"

section \<open>Status conditions\<close>

definition new_condition :: "spokecluster \<Rightarrow> string \<Rightarrow> condition_status \<Rightarrow> string \<Rightarrow> string \<Rightarrow> condition" where
  "new_condition sc condType status reason message =
    \<lparr>c_type = condType, c_status = status, c_reason = reason, c_message = message,
     c_observed = m_generation (sc_meta sc), c_transition = zero_time\<rparr>"

definition setCondition ::
  "k8s_lib \<Rightarrow> spokecluster \<Rightarrow> string \<Rightarrow> condition_status \<Rightarrow> string \<Rightarrow> string \<Rightarrow> spokecluster" where
  "setCondition L sc condType status reason message =
    sc\<lparr>sc_conditions := lib_SetStatusCondition L (sc_conditions sc) (new_condition sc condType status reason message)\<rparr>"

fun conditions_within :: "k8s_lib \<Rightarrow> condition list \<Rightarrow> condition list \<Rightarrow> bool" where
  "conditions_within L [] b = True"
| "conditions_within L (ac # as) b =
     (case lib_FindStatusCondition L b (c_type ac) of
        None \<Rightarrow> False
      | Some bc \<Rightarrow>
          if c_status ac \<noteq> c_status bc \<or> c_reason ac \<noteq> c_reason bc \<or> c_message ac \<noteq> c_message bc \<or>
             c_observed ac \<noteq> c_observed bc
          then False
          else conditions_within L as b)"

definition conditionsEqual :: "k8s_lib \<Rightarrow> condition list \<Rightarrow> condition list \<Rightarrow> bool" where
  "conditionsEqual L a b = (if length a \<noteq> length b then False else conditions_within L a b)"

text \<open>The two loops of \<open>patchStatus\<close>: apply the local conditions, then drop those that are not local.\<close>

definition apply_conditions :: "k8s_lib \<Rightarrow> condition list \<Rightarrow> condition list \<Rightarrow> condition list" where
  "apply_conditions L local fresh = fold (\<lambda>c cs. lib_SetStatusCondition L cs c) local fresh"

definition drop_conditions :: "k8s_lib \<Rightarrow> condition list \<Rightarrow> condition list \<Rightarrow> condition list" where
  "drop_conditions L local fresh =
    fold (\<lambda>fc cs. if lib_FindStatusCondition L local (c_type fc) = None
      then lib_RemoveStatusCondition L cs (c_type fc) else cs) fresh fresh"

definition patchStatus :: "k8s_lib \<Rightarrow> spokecluster \<Rightarrow> go_error option prog" where
  "patchStatus L sc =
    and_then (get_spokecluster (ObjectKeyFromObject (OSpokeCluster sc))) (\<lambda>res.
    case res of
      Inl err \<Rightarrow> Ret (Some (Errorf [S ''re-fetching SpokeCluster for status patch: '', W (ApiErr err)]))
    | Inr base \<Rightarrow>
        (let fresh = base\<lparr>sc_conditions :=
           drop_conditions L (sc_conditions sc) (apply_conditions L (sc_conditions sc) (sc_conditions base))\<rparr> in
         if conditionsEqual L (sc_conditions base) (sc_conditions fresh) then Ret None
         else and_then (client_status_patch base fresh) (\<lambda>perr. Ret (map_option ApiErr perr))))"

definition failWithCondition ::
  "k8s_lib \<Rightarrow> spokecluster \<Rightarrow> string \<Rightarrow> string \<Rightarrow> go_error \<Rightarrow> reconcile_result prog" where
  "failWithCondition L sc condType reason err =
    (let sc1 = setCondition L sc condType ConditionFalse reason (error_text err);
         sc2 = setCondition L sc1 conditionTypeReady ConditionFalse reason (error_text err) in
     and_then (patchStatus L sc2) (\<lambda>updateErr. Ret (no_requeue, Some err)))"

definition handleConnectivityFailure :: "k8s_lib \<Rightarrow> spokecluster \<Rightarrow> go_error \<Rightarrow> reconcile_result prog" where
  "handleConnectivityFailure L sc err =
    (let sc1 = setCondition L sc conditionTypeConnected ConditionFalse reasonConnectionFailed (error_text err);
         sc2 = setCondition L sc1 conditionTypeReady ConditionFalse reasonConnectionFailed (error_text err) in
     and_then (patchStatus L sc2) (\<lambda>updateErr.
     case updateErr of
       Some e \<Rightarrow> Ret (no_requeue, Some (Errorf [W (CtrlErr ErrUpdatingStatus), S '': '', W e]))
     | None \<Rightarrow> Ret (no_requeue, None)))"

section \<open>Condition lists\<close>

text \<open>The condition of a type, and when two lists say the same but for the transition times.\<close>

definition condition_of :: "string \<Rightarrow> condition list \<Rightarrow> condition option" where
  "condition_of ty cs = find (\<lambda>c. c_type c = ty) cs"

lemma condition_of_simps [simp]:
  "condition_of ty [] = None" "condition_of ty (c # cs) = (if c_type c = ty then Some c else condition_of ty cs)"
  by (simp_all add: condition_of_def)

definition same_conditions :: "condition list \<Rightarrow> condition list \<Rightarrow> bool" where
  "same_conditions a b \<longleftrightarrow> (\<forall>ty. rel_option same_condition (condition_of ty a) (condition_of ty b))"

lemma condition_of_type: "condition_of ty cs = Some c \<Longrightarrow> c_type c = ty \<and> c \<in> set cs"
  by (induction cs) (auto split: if_splits)

lemma condition_of_None: "condition_of ty cs = None \<longleftrightarrow> ty \<notin> c_type ` set cs"
  by (induction cs) auto

lemma condition_of_member: "distinct (map c_type cs) \<Longrightarrow> c \<in> set cs \<Longrightarrow> condition_of (c_type c) cs = Some c"
  by (induction cs) auto

lemma condition_of_filter:
  "condition_of ty (filter (\<lambda>c. P (c_type c)) cs) = (if P ty then condition_of ty cs else None)"
  by (induction cs) auto

lemma same_conditions_replace:
  assumes "same_conditions b c"
  shows "same_conditions a b \<longleftrightarrow> same_conditions a c"
proof -
  have "rel_option same_condition (condition_of ty a) (condition_of ty b) \<longleftrightarrow>
      rel_option same_condition (condition_of ty a) (condition_of ty c)" for ty
  proof -
    have "rel_option same_condition (condition_of ty b) (condition_of ty c)"
      using assms by (simp add: same_conditions_def)
    then show ?thesis
      by (cases "condition_of ty a"; cases "condition_of ty b"; cases "condition_of ty c")
        (auto intro: same_condition_trans same_condition_sym)
  qed
  then show ?thesis by (simp add: same_conditions_def)
qed

lemma same_conditions_types: "same_conditions a b \<Longrightarrow> c_type ` set a = c_type ` set b"
proof -
  assume "same_conditions a b"
  then have "(condition_of ty a = None) = (condition_of ty b = None)" for ty
    by (metis same_conditions_def rel_option_None1 rel_option_None2)
  then show ?thesis by (auto simp: condition_of_None)
qed

context status_conditions
begin

lemma find_is_condition_of: "lib_FindStatusCondition L cs ty = condition_of ty cs"
  by (simp add: find_condition condition_of_def)

lemma conditions_within_Cons:
  "conditions_within L (c # a) b \<longleftrightarrow>
    (\<exists>c'. condition_of (c_type c) b = Some c' \<and> same_condition c c') \<and> conditions_within L a b"
  by (cases "condition_of (c_type c) b") (auto simp: find_is_condition_of same_condition_def dest: condition_of_type)

lemma conditions_within_iff:
  "conditions_within L a b \<longleftrightarrow> (\<forall>c \<in> set a. \<exists>c'. condition_of (c_type c) b = Some c' \<and> same_condition c c')"
  by (induction a) (simp_all add: conditions_within_Cons del: conditions_within.simps(2))

lemma conditionsEqual_iff:
  assumes "distinct (map c_type a)" "distinct (map c_type b)"
  shows "conditionsEqual L a b \<longleftrightarrow> same_conditions a b"
proof
  assume "conditionsEqual L a b"
  then have len: "length a = length b" and w: "\<forall>c \<in> set a. \<exists>c'. condition_of (c_type c) b = Some c' \<and> same_condition c c'"
    by (auto simp: conditionsEqual_def conditions_within_iff split: if_splits)
  then have sub: "c_type ` set a \<subseteq> c_type ` set b"
    by (metis (no_types, lifting) condition_of_type image_subset_iff rev_image_eqI)
  have "card (c_type ` set a) = card (c_type ` set b)"
    using assms len by (metis distinct_card length_map set_map)
  with sub have "c_type ` set a = c_type ` set b" by (simp add: card_subset_eq)
  then have none: "condition_of ty a = None \<longleftrightarrow> condition_of ty b = None" for ty by (simp add: condition_of_None)
  have "rel_option same_condition (condition_of ty a) (condition_of ty b)" for ty
  proof (cases "condition_of ty a")
    case None
    with none show ?thesis by (metis option.rel_inject(1))
  next
    case (Some c)
    then have "c \<in> set a" "c_type c = ty" by (auto dest: condition_of_type)
    with w Some show ?thesis by fastforce
  qed
  then show "same_conditions a b" by (simp add: same_conditions_def)
next
  assume s: "same_conditions a b"
  then have "c_type ` set a = c_type ` set b" by (rule same_conditions_types)
  then have "length a = length b" using assms by (metis distinct_card length_map set_map)
  moreover have "\<exists>c'. condition_of (c_type c) b = Some c' \<and> same_condition c c'" if "c \<in> set a" for c
    using s condition_of_member [OF assms(1) that] unfolding same_conditions_def
    by (metis option_rel_Some1)
  ultimately show "conditionsEqual L a b" by (simp add: conditionsEqual_def conditions_within_iff)
qed

lemma apply_conditions_Cons:
  "apply_conditions L (c # local) cs = apply_conditions L local (lib_SetStatusCondition L cs c)"
  by (simp add: apply_conditions_def)

lemma distinct_set_condition: "distinct (map c_type cs) \<Longrightarrow> distinct (map c_type (lib_SetStatusCondition L cs c))"
  by (auto simp: set_types image_iff)

lemma condition_of_set:
  "\<exists>c'. condition_of (c_type c) (lib_SetStatusCondition L cs c) = Some c' \<and> same_condition c' c"
  "ty \<noteq> c_type c \<Longrightarrow> condition_of ty (lib_SetStatusCondition L cs c) = condition_of ty cs"
  using set_same [of c cs] set_other [of ty c cs] by (simp_all add: condition_of_def)

lemma distinct_apply: "distinct (map c_type cs) \<Longrightarrow> distinct (map c_type (apply_conditions L local cs))"
proof (induction local arbitrary: cs)
  case (Cons c local)
  show ?case unfolding apply_conditions_Cons by (intro Cons.IH distinct_set_condition Cons.prems)
qed (simp add: apply_conditions_def)

lemma condition_of_apply:
  "distinct (map c_type local) \<Longrightarrow>
    (case condition_of ty local of
       None \<Rightarrow> condition_of ty (apply_conditions L local cs) = condition_of ty cs
     | Some c \<Rightarrow> (\<exists>c'. condition_of ty (apply_conditions L local cs) = Some c' \<and> same_condition c' c))"
proof (induction local arbitrary: cs)
  case Nil
  then show ?case by (simp add: apply_conditions_def)
next
  case (Cons c local)
  let ?cs = "lib_SetStatusCondition L cs c"
  from Cons.prems have d: "distinct (map c_type local)" and n: "condition_of (c_type c) local = None"
    by (auto simp: condition_of_None)
  show ?case
  proof (cases "c_type c = ty")
    case True
    with Cons.IH [OF d, of ?cs] n condition_of_set(1) [of c cs] show ?thesis
      by (auto simp: apply_conditions_Cons)
  next
    case False
    with Cons.IH [OF d, of ?cs] condition_of_set(2) [of ty c cs] show ?thesis
      by (auto simp: apply_conditions_Cons split: option.splits)
  qed
qed

lemma drop_conditions_filter:
  "drop_conditions L local cs = filter (\<lambda>c. condition_of (c_type c) local \<noteq> None) cs"
proof -
  let ?f = "\<lambda>fc cs. if condition_of (c_type fc) local = None then filter (\<lambda>c. c_type c \<noteq> c_type fc) cs else cs"
  have f: "(\<lambda>fc cs. if lib_FindStatusCondition L local (c_type fc) = None
      then lib_RemoveStatusCondition L cs (c_type fc) else cs) = ?f"
    by (auto simp: fun_eq_iff find_is_condition_of remove_condition)
  have "fold ?f xs cs = filter (\<lambda>c. \<not> (\<exists>fc \<in> set xs. condition_of (c_type fc) local = None \<and> c_type c = c_type fc)) cs" for xs cs
  proof (induction xs arbitrary: cs)
    case (Cons x xs)
    show ?case unfolding fold.simps comp_apply Cons.IH
      by (cases "condition_of (c_type x) local = None") (auto intro!: filter_cong)
  qed simp
  then have "drop_conditions L local cs =
      filter (\<lambda>c. \<not> (\<exists>fc \<in> set cs. condition_of (c_type fc) local = None \<and> c_type c = c_type fc)) cs"
    by (simp add: drop_conditions_def f)
  also have "\<dots> = filter (\<lambda>c. condition_of (c_type c) local \<noteq> None) cs"
    by (intro filter_cong refl) auto
  finally show ?thesis .
qed

text \<open>What is sent: the local conditions, all of them and nothing else.\<close>

lemma merged_conditions:
  assumes "distinct (map c_type local)" "distinct (map c_type cs)"
  shows "same_conditions (drop_conditions L local (apply_conditions L local cs)) local"
    and "distinct (map c_type (drop_conditions L local (apply_conditions L local cs)))"
proof -
  have "rel_option same_condition (condition_of ty (drop_conditions L local (apply_conditions L local cs))) (condition_of ty local)" for ty
    using condition_of_apply [OF assms(1), of ty cs]
    by (cases "condition_of ty local")
      (auto simp: drop_conditions_filter condition_of_filter [where P = "\<lambda>ty. condition_of ty local \<noteq> None", simplified])
  then show "same_conditions (drop_conditions L local (apply_conditions L local cs)) local"
    by (simp add: same_conditions_def)
  show "distinct (map c_type (drop_conditions L local (apply_conditions L local cs)))"
    using distinct_apply [OF assms(2)] by (simp add: drop_conditions_filter distinct_map_filter)
qed

end

section \<open>Properties\<close>

lemma never_panics_status [simp]:
  "never_panics (patchStatus L sc)" "never_panics (failWithCondition L sc ty rs e)"
  "never_panics (handleConnectivityFailure L sc e)"
  by (auto simp: patchStatus_def failWithCondition_def handleConnectivityFailure_def hub_ops Let_def
      intro!: never_panics_and_then split: sum.splits option.splits)

text \<open>
  C33.  \<open>conditionsEqual\<close> decides whether two condition lists (each with one condition for a type, as
  the API server enforces) agree on every type in status, reason, message and observed generation;
  the order of the lists and the transition times play no role.
\<close>

theorem conditionsEqual_decides:
  assumes "status_conditions L" and "distinct (map c_type a)" and "distinct (map c_type b)"
  shows "conditionsEqual L a b \<longleftrightarrow> same_conditions a b"
  using status_conditions.conditionsEqual_iff [OF assms] .

definition ready_condition :: condition where
  "ready_condition = \<lparr>c_type = conditionTypeReady, c_status = ConditionTrue, c_reason = reasonManaged,
     c_message = ''ok'', c_observed = 1, c_transition = 5\<rparr>"

definition connected_condition :: condition where
  "connected_condition = \<lparr>c_type = conditionTypeConnected, c_status = ConditionTrue, c_reason = reasonConnectionSucceeded,
     c_message = ''ok'', c_observed = 1, c_transition = 5\<rparr>"

theorem conditionsEqual_decides_witness:
  "conditionsEqual ref_lib [ready_condition, connected_condition] [connected_condition\<lparr>c_transition := 9\<rparr>, ready_condition] \<and>
    same_conditions [ready_condition, connected_condition] [connected_condition\<lparr>c_transition := 9\<rparr>, ready_condition]"
proof -
  have "conditionsEqual ref_lib [ready_condition, connected_condition] [connected_condition\<lparr>c_transition := 9\<rparr>, ready_condition]"
    by (simp add: conditionsEqual_def ready_condition_def connected_condition_def hub_consts)
  with conditionsEqual_decides [OF ref_library.status_conditions_axioms, of "[ready_condition, connected_condition]"
      "[connected_condition\<lparr>c_transition := 9\<rparr>, ready_condition]"]
  show ?thesis by (simp add: ready_condition_def connected_condition_def hub_consts)
qed

text \<open>
  C34.  \<open>patchStatus\<close>, for every answer of the API server: the SpokeCluster is read again; nothing is
  sent when its conditions already agree with the local ones; otherwise one status patch is sent
  whose conditions agree with the local ones on every type, and everything else in it is as just
  read.  So conditions that another writer set in the meantime are overwritten, or removed when
  the local copy has none of that type; they are not preserved.
\<close>

theorem patchStatus_runs:
  assumes "status_conditions L" and "distinct (map c_type (sc_conditions sc))"
    and "exec (patchStatus L sc) ((Get Hub KSpokeCluster (okey (OSpokeCluster sc)), RObj (OSpokeCluster cur)) # t) z"
    and "distinct (map c_type (sc_conditions cur))"
  shows "if same_conditions (sc_conditions cur) (sc_conditions sc) then t = [] \<and> z = Done None
    else (\<exists>new a. t = [(StatusPatch cur new, a)] \<and> sc_meta new = sc_meta cur \<and> sc_spec new = sc_spec cur \<and>
      same_conditions (sc_conditions new) (sc_conditions sc) \<and>
      z = Done (map_option ApiErr (resp_error a)))"
proof -
  let ?new = "drop_conditions L (sc_conditions sc) (apply_conditions L (sc_conditions sc) (sc_conditions cur))"
  note m = status_conditions.merged_conditions [OF assms(1,2,4)]
  have "same_conditions (sc_conditions cur) ?new \<longleftrightarrow> same_conditions (sc_conditions cur) (sc_conditions sc)"
    using m(1) by (rule same_conditions_replace)
  with status_conditions.conditionsEqual_iff [OF assms(1,4) m(2)] assms(3)
  have "if same_conditions (sc_conditions cur) (sc_conditions sc) then t = [] \<and> z = Done None
    else (\<exists>a. t = [(StatusPatch cur (cur\<lparr>sc_conditions := ?new\<rparr>), a)] \<and> z = Done (map_option ApiErr (resp_error a)))"
    by (auto simp: patchStatus_def hub_ops exec_get Let_def exec_status_patch split: if_splits)
  with m(1) show ?thesis by (auto split: if_splits)
qed

theorem patchStatus_runs_witness:
  "\<exists>new a z. exec (patchStatus ref_lib (edge_spoke\<lparr>sc_conditions := [ready_condition]\<rparr>))
      [(Get Hub KSpokeCluster (ObjectKey [] ''edge''), RObj (OSpokeCluster (edge_spoke\<lparr>sc_conditions := [connected_condition]\<rparr>))),
       (StatusPatch (edge_spoke\<lparr>sc_conditions := [connected_condition]\<rparr>) new, a)] z \<and>
    condition_of conditionTypeConnected (sc_conditions new) = None"
proof -
  let ?sc = "edge_spoke\<lparr>sc_conditions := [ready_condition]\<rparr>" and ?cur = "edge_spoke\<lparr>sc_conditions := [connected_condition]\<rparr>"
  have key: "okey (OSpokeCluster ?sc) = ObjectKey [] ''edge''" by (simp add: edge_spoke_def ObjectKeyFromObject_def)
  obtain t z where e: "exec (patchStatus ref_lib ?sc) ((Get Hub KSpokeCluster (okey (OSpokeCluster ?sc)), RObj (OSpokeCluster ?cur)) # t) z"
    using exec_exists by (fastforce simp: patchStatus_def hub_ops exec_get)
  have ns: "\<not> same_conditions (sc_conditions ?cur) (sc_conditions ?sc)"
    by (simp add: same_conditions_def ready_condition_def connected_condition_def hub_consts) (rule exI [of _ "''Ready''"], simp)
  from patchStatus_runs [OF ref_library.status_conditions_axioms _ e] ns obtain new a where
    n: "t = [(StatusPatch ?cur new, a)]" "same_conditions (sc_conditions new) (sc_conditions ?sc)" by auto
  have "condition_of conditionTypeConnected (sc_conditions ?sc) = None" by (simp add: ready_condition_def hub_consts)
  with n(2) have "condition_of conditionTypeConnected (sc_conditions new) = None"
    unfolding same_conditions_def by (metis rel_option_None2)
  with e n(1) key show ?thesis by auto
qed

end
