(* ===== verification/Spoke_Adapters.thy ===== *)
theory Spoke_Adapters
  imports Credential Adapter_Deployment Spoke_Status
begin

text \<open>
  The reconciler of SpokeClusters, second part: its fields and their defaults, the standing
  kubeconfig, and the orchestration of the alerts adapter
  (\<^verbatim>\<open>internal/controller/spokecluster_controller.go\<close>).
\<close>

section \<open>Constants\<close>

definition spokeDialTimeout :: duration where
  [hub_consts]: "spokeDialTimeout = 10 * Second"
definition adapterTokenLifetime :: duration where
  [hub_consts]: "adapterTokenLifetime = 24 * Hour"

text \<open>\<open>time.Duration(float64(adapterTokenLifetime) * 0.2)\<close>: 4.8 hours.\<close>

definition rotationBuffer :: duration where
  [hub_consts]: "rotationBuffer = adapterTokenLifetime * 2 div 10"

section \<open>The reconciler\<close>

text \<open>
  The fields of the struct; the function fields are those the tests replace.  The recorder is
  nil or not.
\<close>

record spoke_reconciler =
  sr_credentialSource :: "spokecluster \<Rightarrow> (go_error + rest_config) prog"
  sr_operatorNamespace :: string
  sr_recorder :: bool
  sr_NewSpokeClient :: "rest_config \<Rightarrow> (go_error + target) prog"
  sr_CheckConnectivity :: "rest_config \<Rightarrow> go_error option prog"
  sr_DiscoverAlertmanagerURL :: "target \<Rightarrow> (go_error + string) prog"
  sr_RequestSAToken :: "rest_config \<Rightarrow> string \<Rightarrow> string \<Rightarrow> (go_error + (string \<times> time)) prog"

definition defaultNewSpokeClient :: "rest_config \<Rightarrow> (go_error + target) prog" where
  "defaultNewSpokeClient cfg = Vis (NewClient cfg) (\<lambda>r. Ret
     (case resp_error r of Some e \<Rightarrow> Inl (ApiErr e) | None \<Rightarrow> Inr (Spoke cfg)))"

definition defaultCheckConnectivity :: "rest_config \<Rightarrow> go_error option prog" where
  "defaultCheckConnectivity cfg =
    Vis (NewDiscoveryClient cfg) (\<lambda>r.
    case resp_error r of
      Some err \<Rightarrow> Ret (Some (Errorf [W (CtrlErr ErrCreatingDiscoveryClient), S '': '', W (ApiErr err)]))
    | None \<Rightarrow>
        Vis (ServerVersion cfg) (\<lambda>r'. Ret
          (case resp_error r' of
             Some err \<Rightarrow> Some (Errorf [W (CtrlErr ErrCheckingServerVersion), S '': '', W (ApiErr err)])
           | None \<Rightarrow> None)))"

definition defaultRequestSAToken :: "rest_config \<Rightarrow> string \<Rightarrow> string \<Rightarrow> (go_error + (string \<times> time)) prog" where
  "defaultRequestSAToken cfg saName ns =
    Vis (NewClientset cfg) (\<lambda>r.
    case resp_error r of
      Some err \<Rightarrow> Ret (Inl (Errorf [S ''creating kubernetes client: '', W (ApiErr err)]))
    | None \<Rightarrow>
        Vis (CreateToken cfg ns saName (adapterTokenLifetime div Second)) (\<lambda>r'. Ret
          (case r' of
             RToken token expiry \<Rightarrow> Inr (token, expiry)
           | RErr err \<Rightarrow> Inl (ApiErr err)
           | _ \<Rightarrow> Inl (ApiErr decode_error))))"

definition alertmanager_route_gvk :: gvk where
  "alertmanager_route_gvk = \<lparr>g_group = ''route.openshift.io'', g_version = ''v1'', g_kind = ''Route''\<rparr>"

definition defaultDiscoverAlertmanagerURL :: "k8s_lib \<Rightarrow> target \<Rightarrow> (go_error + string) prog" where
  "defaultDiscoverAlertmanagerURL L spokeClient =
    and_then (get_unstructured spokeClient alertmanager_route_gvk (ObjectKey MonitoringNamespace ''alertmanager-main'')) (\<lambda>res.
    case res of
      Inl err \<Rightarrow> Ret (Inl (Errorf [W (CtrlErr ErrGettingAlertmanagerRoute), S '': '', W (ApiErr err)]))
    | Inr route \<Rightarrow>
        (case lib_NestedString L (u_object route) [''spec'', ''host''] of
           Inr (Some host) \<Rightarrow>
             if host = [] then Ret (Inl (CtrlErr ErrMissingAlertmanagerHost)) else Ret (Inr (''https://'' @ host))
         | _ \<Rightarrow> Ret (Inl (CtrlErr ErrMissingAlertmanagerHost))))"

definition NewSpokeClusterReconciler ::
  "k8s_lib \<Rightarrow> (spokecluster \<Rightarrow> (go_error + rest_config) prog) \<Rightarrow> string \<Rightarrow> spoke_reconciler" where
  "NewSpokeClusterReconciler L credSource operatorNamespace =
    \<lparr>sr_credentialSource = credSource, sr_operatorNamespace = operatorNamespace, sr_recorder = False,
     sr_NewSpokeClient = defaultNewSpokeClient, sr_CheckConnectivity = defaultCheckConnectivity,
     sr_DiscoverAlertmanagerURL = defaultDiscoverAlertmanagerURL L, sr_RequestSAToken = defaultRequestSAToken\<rparr>"

section \<open>The standing kubeconfig\<close>

fun ownerRefsEqual :: "owner_reference list \<Rightarrow> owner_reference list \<Rightarrow> bool" where
  "ownerRefsEqual [] [] = True"
| "ownerRefsEqual (x # xs) (y # ys) =
     (if or_uid x \<noteq> or_uid y \<or> or_name x \<noteq> or_name y then False else ownerRefsEqual xs ys)"
| "ownerRefsEqual _ _ = False"

definition ensureStandingKubeconfig ::
  "k8s_lib \<Rightarrow> spoke_reconciler \<Rightarrow> rest_config \<Rightarrow> spokecluster \<Rightarrow> go_error option prog" where
  "ensureStandingKubeconfig L r cfg sc =
    (let serverOverride = (if sc_mce sc \<noteq> None then [] else sp_apiServer (sc_spec sc)) in
     case BuildStandingKubeconfig L cfg sc serverOverride (sr_operatorNamespace r) of
       Inl err \<Rightarrow> Ret (Some (Errorf [W (CtrlErr ErrBuildingStandingKubeconfig), S '': '', W err]))
     | Inr standingSecret \<Rightarrow>
         and_then (client_create Hub (OSecret standingSecret)) (\<lambda>cerr.
         case cerr of
           None \<Rightarrow> Ret None
         | Some err \<Rightarrow>
             if \<not> IsAlreadyExists err
             then Ret (Some (Errorf [W (CtrlErr ErrCreatingStandingKubeconfig), S '': '', W (ApiErr err)]))
             else and_then (get_secret (ObjectKey (m_namespace (s_meta standingSecret)) (m_name (s_meta standingSecret)))) (\<lambda>res.
             case res of
               Inl err \<Rightarrow> Ret (Some (Errorf [W (CtrlErr ErrGettingStandingKubeconfig), S '': '', W (ApiErr err)]))
             | Inr existing \<Rightarrow>
                 (let dataChanged = (data_at (s_data existing) KubeconfigKey \<noteq> data_at (s_data standingSecret) KubeconfigKey);
                      ownerChanged = (\<not> ownerRefsEqual (m_owners (s_meta existing)) (m_owners (s_meta standingSecret))) in
                  if dataChanged \<or> ownerChanged then
                    and_then (client_update Hub (OSecret (existing\<lparr>s_data := s_data standingSecret,
                      s_meta := (s_meta existing)\<lparr>m_owners := m_owners (s_meta standingSecret)\<rparr>\<rparr>))) (\<lambda>ures.
                    case ures of
                      Inl err \<Rightarrow> Ret (Some (Errorf [W (CtrlErr ErrUpdatingStandingKubeconfig), S '': '', W (ApiErr err)]))
                    | Inr _ \<Rightarrow> Ret None)
                  else Ret None))))"

definition standing_key :: "spoke_reconciler \<Rightarrow> spokecluster \<Rightarrow> object_key" where
  "standing_key r sc = ObjectKey (sr_operatorNamespace r) (StandingKubeconfigName (sc_name sc))"

definition loadStandingKubeconfig ::
  "k8s_lib \<Rightarrow> spoke_reconciler \<Rightarrow> spokecluster \<Rightarrow> (go_error + rest_config) prog" where
  "loadStandingKubeconfig L r sc =
    and_then (get_secret (standing_key r sc)) (\<lambda>res.
    case res of
      Inl err \<Rightarrow> Ret (Inl (Errorf [W (CtrlErr ErrReadingStandingKubeconfig), S '': '', W (ApiErr err)]))
    | Inr sec \<Rightarrow>
        (case map_of (s_data sec) KubeconfigKey of
           None \<Rightarrow> Ret (Inl (Errorf [W (CtrlErr ErrMissingStandingKubeconfigKey), S '': secret '',
             S (k_name (standing_key r sc)), S '' key '', S (Quote KubeconfigKey)]))
         | Some kubeconfigBytes \<Rightarrow>
             (case lib_RESTConfigFromKubeConfig L kubeconfigBytes of
                Inl err \<Rightarrow> Ret (Inl (Errorf [W (CtrlErr ErrParsingStandingKubeconfig), S '': '', W err]))
              | Inr cfg \<Rightarrow> Ret (Inr (cfg\<lparr>rc_Timeout := spokeDialTimeout\<rparr>)))))"

section \<open>Adapter orchestration\<close>

definition adapter_key :: "spoke_reconciler \<Rightarrow> spokecluster \<Rightarrow> object_key" where
  "adapter_key r sc = ObjectKey (sr_operatorNamespace r) (AdapterCredentialName (sc_name sc))"

definition readExistingTokenAndExpiry :: "spoke_reconciler \<Rightarrow> spokecluster \<Rightarrow> (string \<times> time) option prog" where
  "readExistingTokenAndExpiry r sc =
    and_then (get_secret (adapter_key r sc)) (\<lambda>res.
    case res of
      Inl err \<Rightarrow> Ret None
    | Inr existing \<Rightarrow>
        (let tokenBytes = data_at (s_data existing) TokenKey; expiryBytes = data_at (s_data existing) TokenExpiryKey in
         if length tokenBytes = 0 then Ret None
         else if length expiryBytes = 0 then Ret None
         else (case Parse_RFC3339 expiryBytes of
             None \<Rightarrow> Ret None
           | Some expiry \<Rightarrow> Ret (Some (tokenBytes, expiry)))))"

definition resolveAdapterToken ::
  "spoke_reconciler \<Rightarrow> spokecluster \<Rightarrow> rest_config \<Rightarrow> (go_error + (string \<times> time)) prog" where
  "resolveAdapterToken r sc standingCfg =
    (let request = sr_RequestSAToken r standingCfg AlertAdapterServiceAccount ManagedNamespace in
     and_then (readExistingTokenAndExpiry r sc) (\<lambda>existing.
     case existing of
       None \<Rightarrow> request
     | Some (token, expiry) \<Rightarrow>
         and_then get_now (\<lambda>now.
         if time_Until now expiry > rotationBuffer then Ret (Inr (token, expiry)) else request)))"

definition readIngressCA :: "target \<Rightarrow> string prog" where
  "readIngressCA spokeClient =
    and_then (client_get spokeClient KConfigMap as_configmap (ObjectKey ''openshift-config-managed'' ''default-ingress-cert'')) (\<lambda>res.
    case res of
      Inl err \<Rightarrow> Ret []
    | Inr cm \<Rightarrow> (case map_of (cm_data cm) ''ca-bundle.crt'' of None \<Rightarrow> Ret [] | Some caBundle \<Rightarrow> Ret caBundle))"

definition adapter_data_changed :: "secret \<Rightarrow> secret \<Rightarrow> bool" where
  "adapter_data_changed existing adapterSecret \<longleftrightarrow>
    data_at (s_data existing) AlertmanagerURLKey \<noteq> data_at (s_data adapterSecret) AlertmanagerURLKey \<or>
    data_at (s_data existing) TokenKey \<noteq> data_at (s_data adapterSecret) TokenKey \<or>
    data_at (s_data existing) TokenExpiryKey \<noteq> data_at (s_data adapterSecret) TokenExpiryKey \<or>
    data_at (s_data existing) CABundleKey \<noteq> data_at (s_data adapterSecret) CABundleKey"

definition ensureAdapterCredentialSecret ::
  "k8s_lib \<Rightarrow> spoke_reconciler \<Rightarrow> spokecluster \<Rightarrow> string \<Rightarrow> string \<Rightarrow> string \<Rightarrow> string \<Rightarrow> go_error option prog" where
  "ensureAdapterCredentialSecret L r sc alertmanagerURL token tokenExpiry caBundle =
    (case BuildAdapterCredentialSecret L sc alertmanagerURL token tokenExpiry caBundle (sr_operatorNamespace r) of
       Inl err \<Rightarrow> Ret (Some err)
     | Inr adapterSecret \<Rightarrow>
         and_then (client_create Hub (OSecret adapterSecret)) (\<lambda>cerr.
         case cerr of
           None \<Rightarrow> Ret None
         | Some err \<Rightarrow>
             if \<not> IsAlreadyExists err
             then Ret (Some (Errorf [W (CtrlErr ErrCreatingAdapterCredential), S '': '', W (ApiErr err)]))
             else and_then (get_secret (ObjectKey (m_namespace (s_meta adapterSecret)) (m_name (s_meta adapterSecret)))) (\<lambda>res.
             case res of
               Inl err \<Rightarrow> Ret (Some (Errorf [W (CtrlErr ErrGettingAdapterCredential), S '': '', W (ApiErr err)]))
             | Inr existing \<Rightarrow>
                 if adapter_data_changed existing adapterSecret \<or>
                    \<not> ownerRefsEqual (m_owners (s_meta existing)) (m_owners (s_meta adapterSecret)) then
                   and_then (client_update Hub (OSecret (existing\<lparr>s_data := s_data adapterSecret,
                     s_meta := (s_meta existing)\<lparr>m_owners := m_owners (s_meta adapterSecret)\<rparr>\<rparr>))) (\<lambda>ures.
                   case ures of
                     Inl err \<Rightarrow> Ret (Some (Errorf [W (CtrlErr ErrUpdatingAdapterCredential), S '': '', W (ApiErr err)]))
                   | Inr _ \<Rightarrow> Ret None)
                 else Ret None)))"

text \<open>The result: the SpokeCluster as the method leaves it, and whether the label changed, or the error.\<close>

definition ensureAdapterLabel :: "spokecluster \<Rightarrow> (spokecluster \<times> (go_error + bool)) prog" where
  "ensureAdapterLabel sc =
    (let secretName = AdapterCredentialName (sc_name sc) in
     if m_labels (sc_meta sc) \<noteq> None \<and> go_str (m_labels (sc_meta sc)) AdapterCredentialLabel = secretName
     then Ret (sc, Inr False)
     else and_then (get_spokecluster (ObjectKeyFromObject (OSpokeCluster sc))) (\<lambda>res.
     case res of
       Inl err \<Rightarrow> Ret (sc, Inl (Errorf [W (CtrlErr ErrGettingSpokeCluster), S '': '', W (ApiErr err)]))
     | Inr fresh \<Rightarrow>
         (let labels = (case m_labels (sc_meta fresh) of None \<Rightarrow> Some [] | Some l \<Rightarrow> Some l) in
          and_then (map_put labels AdapterCredentialLabel secretName) (\<lambda>labels'.
          and_then (client_update Hub (OSpokeCluster (fresh\<lparr>sc_meta := (sc_meta fresh)\<lparr>m_labels := labels'\<rparr>\<rparr>))) (\<lambda>ures.
          case ures of
            Inl err \<Rightarrow> Ret (sc, Inl (Errorf [W (CtrlErr ErrUpdatingSpokeCluster), S '': '', W (ApiErr err)]))
          | Inr updated \<Rightarrow>
              Ret (sc\<lparr>sc_meta := (sc_meta sc)\<lparr>m_labels := m_labels (obj_meta updated),
                m_version := m_version (obj_meta updated)\<rparr>\<rparr>, Inr True))))))"

definition label_and_restart :: "spoke_reconciler \<Rightarrow> spokecluster \<Rightarrow> (spokecluster \<times> go_error option) prog" where
  "label_and_restart r sc =
    and_then (ensureAdapterLabel sc) (\<lambda>(sc', lres).
    case lres of
      Inl err \<Rightarrow> Ret (sc', Some (Errorf [W (CtrlErr ErrLabelingSpokeCluster), S '': '', W err]))
    | Inr changed \<Rightarrow>
        if changed then
          and_then (restartAdapterDeployment (sr_operatorNamespace r)) (\<lambda>rerr.
          case rerr of
            Some err \<Rightarrow> Ret (sc', Some (Errorf [W (CtrlErr ErrRestartingAdapter), S '': '', W err]))
          | None \<Rightarrow> Ret (sc', None))
        else Ret (sc', None))"

definition reconcileAdapters ::
  "k8s_lib \<Rightarrow> spoke_reconciler \<Rightarrow> spokecluster \<Rightarrow> target \<Rightarrow> rest_config \<Rightarrow> (spokecluster \<times> go_error option) prog" where
  "reconcileAdapters L r sc spokeClient standingCfg =
    and_then (ProvisionAdapter spokeClient) (\<lambda>perr.
    case perr of
      Some err \<Rightarrow> Ret (sc, Some (Errorf [W (CtrlErr ErrProvisioningAdapterResources), S '': '', W err]))
    | None \<Rightarrow>
    and_then (resolveAdapterToken r sc standingCfg) (\<lambda>tres.
    case tres of
      Inl err \<Rightarrow> Ret (sc, Some (Errorf [W (CtrlErr ErrRequestingAdapterToken), S '': '', W err]))
    | Inr (token, tokenExpiry) \<Rightarrow>
    and_then (sr_DiscoverAlertmanagerURL r spokeClient) (\<lambda>ures.
    case ures of
      Inl err \<Rightarrow> Ret (sc, Some (Errorf [W (CtrlErr ErrDiscoveringAlertmanagerURL), S '': '', W err]))
    | Inr alertmanagerURL \<Rightarrow>
    and_then (readIngressCA spokeClient) (\<lambda>caBundle.
    and_then (ensureAdapterCredentialSecret L r sc alertmanagerURL token (Format_RFC3339 tokenExpiry) caBundle) (\<lambda>eerr.
    case eerr of
      Some err \<Rightarrow> Ret (sc, Some (Errorf [W (CtrlErr ErrEnsuringAdapterCredential), S '': '', W err]))
    | None \<Rightarrow> label_and_restart r sc)))))"

section \<open>The contract of the function fields\<close>

text \<open>That the spoke answered a version request.\<close>

definition answered :: "rest_config \<Rightarrow> event set \<Rightarrow> bool" where
  "answered cfg E \<longleftrightarrow> (\<exists>a. (ServerVersion cfg, a) \<in> E \<and> resp_error a = None)"

locale spoke_fields =
  fixes r :: spoke_reconciler
  assumes source: "credential_source (sr_credentialSource r)"
    and client_reads: "read_only (sr_NewSpokeClient r cfg)" "never_panics (sr_NewSpokeClient r cfg)"
    and client_target: "exec (sr_NewSpokeClient r cfg) t (Done (Inr c)) \<Longrightarrow> c = Spoke cfg"
    and connectivity_reads: "read_only (sr_CheckConnectivity r cfg)" "never_panics (sr_CheckConnectivity r cfg)"
    and connectivity: "exec (sr_CheckConnectivity r cfg) t (Done None) \<Longrightarrow> answered cfg (set t)"
    and discover_reads: "read_only (sr_DiscoverAlertmanagerURL r c)" "never_panics (sr_DiscoverAlertmanagerURL r c)"
    and token_requests:
      "all_reqs (\<lambda>q. is_write q \<longrightarrow> q = CreateToken cfg ns sa (adapterTokenLifetime div Second)) (sr_RequestSAToken r cfg sa ns)"
      "never_panics (sr_RequestSAToken r cfg sa ns)"

lemma defaultCheckConnectivity_safe:
  "read_only (defaultCheckConnectivity cfg)" "never_panics (defaultCheckConnectivity cfg)"
  by (auto simp: defaultCheckConnectivity_def split: option.splits)

lemma exec_defaultCheckConnectivity:
  "exec (defaultCheckConnectivity cfg) t (Done e) \<Longrightarrow> e = None \<longleftrightarrow> (\<exists>cfg. answered cfg (set t))"
  "exec (defaultCheckConnectivity cfg) t (Done None) \<Longrightarrow> answered cfg (set t)"
proof -
  have run: "(\<exists>r err. t = [(NewDiscoveryClient cfg, r)] \<and> e = Some err) \<or>
      (\<exists>r r'. t = [(NewDiscoveryClient cfg, r), (ServerVersion cfg, r')] \<and> (e = None \<longleftrightarrow> resp_error r' = None))"
    if "exec (defaultCheckConnectivity cfg) t (Done e)" for e
    using that by (auto simp: defaultCheckConnectivity_def exec_Vis_iff option.case_eq_if resp_error_None split: if_splits)
  show "e = None \<longleftrightarrow> (\<exists>cfg. answered cfg (set t))" if "exec (defaultCheckConnectivity cfg) t (Done e)"
    using run [OF that] by (auto simp: answered_def)
  show "answered cfg (set t)" if "exec (defaultCheckConnectivity cfg) t (Done None)"
    using run [OF that] by (auto simp: answered_def)
qed

lemma New_sel [simp]:
  "sr_credentialSource (NewSpokeClusterReconciler L src ns) = src"
  "sr_operatorNamespace (NewSpokeClusterReconciler L src ns) = ns"
  "sr_recorder (NewSpokeClusterReconciler L src ns) = False"
  "sr_NewSpokeClient (NewSpokeClusterReconciler L src ns) = defaultNewSpokeClient"
  "sr_CheckConnectivity (NewSpokeClusterReconciler L src ns) = defaultCheckConnectivity"
  "sr_DiscoverAlertmanagerURL (NewSpokeClusterReconciler L src ns) = defaultDiscoverAlertmanagerURL L"
  "sr_RequestSAToken (NewSpokeClusterReconciler L src ns) = defaultRequestSAToken"
  by (simp_all add: NewSpokeClusterReconciler_def)

lemma spoke_fields_New:
  assumes "credential_source src"
  shows "spoke_fields (NewSpokeClusterReconciler L src ns)"
proof (rule spoke_fields.intro, unfold New_sel)
  show "credential_source src" by (rule assms)
  show "c = Spoke cfg" if "exec (defaultNewSpokeClient cfg) t (Done (Inr c))" for cfg t c
    using that by (auto simp: defaultNewSpokeClient_def exec_Vis_iff split: option.splits)
qed (auto simp: exec_defaultCheckConnectivity(2) defaultCheckConnectivity_safe defaultNewSpokeClient_def
    defaultDiscoverAlertmanagerURL_def defaultRequestSAToken_def hub_ops
    intro!: prog_safe_intros split: option.splits sum.splits resp.splits)

interpretation default_fields: spoke_fields "NewSpokeClusterReconciler L (Dispatching_GetRESTConfig L ns) opns" for L ns opns
  by (rule spoke_fields_New [OF dispatching_source.credential_source_axioms])

section \<open>Requests\<close>

text \<open>What managing a spoke may write, and what cleaning up may write.\<close>

definition manage_req :: "req \<Rightarrow> bool" where
  "manage_req q =
    (case q of
       Create c x \<Rightarrow> c = Hub \<longrightarrow> obj_kind x = KSecret
     | Update c x \<Rightarrow> c = Hub \<and> obj_kind x \<in> {KSecret, KSpokeCluster, KDeployment}
     | CreateToken cfg ns sa n \<Rightarrow> ns = ManagedNamespace \<and> sa = AlertAdapterServiceAccount \<and> n = adapterTokenLifetime div Second
     | _ \<Rightarrow> \<not> is_write q)"

lemma manage_req_reads: "\<not> is_write q \<Longrightarrow> manage_req q"
  by (cases q) (simp_all add: manage_req_def)

lemma manage_req_simps [simp]:
  "manage_req (Get c k key)" "manage_req Now" "manage_req (Create c x) \<longleftrightarrow> (c = Hub \<longrightarrow> obj_kind x = KSecret)"
  "manage_req (Update c x) \<longleftrightarrow> c = Hub \<and> obj_kind x \<in> {KSecret, KSpokeCluster, KDeployment}"
  and manage_req_token: "manage_req (CreateToken cfg ManagedNamespace AlertAdapterServiceAccount (adapterTokenLifetime div Second))"
  by (simp_all add: manage_req_def)

lemma all_reqs_restart: "(\<And>k key. P (Get Hub k key)) \<Longrightarrow> P Now \<Longrightarrow> (\<And>d. P (Update Hub (ODeployment d))) \<Longrightarrow> all_reqs P (restartAdapterDeployment ns)"
  by (auto simp: restartAdapterDeployment_def hub_ops Let_def intro!: all_reqs_and_then split: sum.splits option.splits)

lemma never_panics_ensures [simp]:
  "never_panics (ensureStandingKubeconfig L r cfg sc)" "never_panics (loadStandingKubeconfig L r sc)"
  "never_panics (readExistingTokenAndExpiry r sc)" "never_panics (readIngressCA c)"
  "never_panics (ensureAdapterCredentialSecret L r sc url token expiry ca)" "never_panics (ensureAdapterLabel sc)"
  "never_panics (label_and_restart r sc)"
  by (auto simp: ensureStandingKubeconfig_def loadStandingKubeconfig_def readExistingTokenAndExpiry_def readIngressCA_def
      ensureAdapterCredentialSecret_def ensureAdapterLabel_def label_and_restart_def hub_ops Let_def
      intro!: never_panics_and_then split: sum.splits option.splits)

lemma manage_reqs:
  "all_reqs manage_req (ensureStandingKubeconfig L r cfg sc)" "all_reqs manage_req (loadStandingKubeconfig L r sc)"
  "all_reqs manage_req (readExistingTokenAndExpiry r sc)" "all_reqs manage_req (readIngressCA c)"
  "all_reqs manage_req (ensureAdapterCredentialSecret L r sc url token expiry ca)" "all_reqs manage_req (label_and_restart r sc)"
  by (auto simp: ensureStandingKubeconfig_def loadStandingKubeconfig_def readExistingTokenAndExpiry_def readIngressCA_def
      ensureAdapterCredentialSecret_def ensureAdapterLabel_def label_and_restart_def hub_ops Let_def
      intro!: all_reqs_and_then all_reqs_restart split: sum.splits option.splits)

context spoke_fields
begin

lemma never_panics_resolve [simp]: "never_panics (resolveAdapterToken r sc cfg)"
  by (auto simp: resolveAdapterToken_def Let_def intro!: never_panics_and_then token_requests(2) split: option.splits)

lemma never_panics_reconcileAdapters [simp]: "never_panics (reconcileAdapters L r sc c cfg)"
  by (auto simp: reconcileAdapters_def ProvisionAdapter_def intro!: never_panics_and_then discover_reads(2) split: option.splits sum.splits)

lemma manage_req_resolve: "all_reqs manage_req (resolveAdapterToken r sc cfg)"
proof -
  have "all_reqs manage_req (sr_RequestSAToken r cfg AlertAdapterServiceAccount ManagedNamespace)"
    by (rule all_reqs_mono [OF token_requests(1)]) (metis manage_req_reads manage_req_token)
  then show ?thesis
    by (auto simp: resolveAdapterToken_def Let_def manage_reqs intro!: all_reqs_and_then split: option.splits)
qed

lemma manage_req_reconcileAdapters: "all_reqs manage_req (reconcileAdapters L r sc (Spoke cfg) cfg')"
proof -
  have "all_reqs manage_req (sr_DiscoverAlertmanagerURL r (Spoke cfg))"
    by (rule all_reqs_mono [OF discover_reads(1) manage_req_reads])
  moreover have "all_reqs manage_req (ProvisionAdapter (Spoke cfg))"
    unfolding ProvisionAdapter_def by (rule all_reqs_create_each) simp
  ultimately show ?thesis
    by (auto simp: reconcileAdapters_def manage_reqs manage_req_resolve intro!: all_reqs_and_then split: option.splits sum.splits)
qed

end

section \<open>Rotation of the adapter token\<close>

lemma Parse_empty [simp]: "Parse_RFC3339 [] = None"
  by code_simp

text \<open>
  C11.  Rotation of the adapter token.  When the credential Secret has the data that was built from a
  token and its expiry, the next reconcile reads back that token with its expiry (to the second)
  and uses it again exactly while more than 4.8 hours are left; otherwise it requests a new one.
\<close>

theorem adapter_token_rotation:
  assumes "BuildAdapterCredentialSecret L sc url token (Format_RFC3339 expiry) ca ns = Inr built"
    and "s_data stored = s_data built" and "token \<noteq> []" and "rfc3339_range expiry"
  shows "exec (resolveAdapterToken r sc cfg) ((Get Hub KSecret (adapter_key r sc), RObj (OSecret stored)) # (Now, RTime now) # t) z \<longleftrightarrow>
    (if now + 17280 * Second < trunc_second expiry then t = [] \<and> z = Done (Inr (token, trunc_second expiry))
     else exec (sr_RequestSAToken r cfg AlertAdapterServiceAccount ManagedNamespace) t z)"
proof -
  note data = BuildAdapterCredentialSecret_Inr(3,4) [OF assms(1), folded assms(2)]
  have p: "Parse_RFC3339 (Format_RFC3339 expiry) = Some (trunc_second expiry)" by (rule Parse_Format [OF assms(4)])
  then have "Format_RFC3339 expiry \<noteq> []" by auto
  moreover have "rotationBuffer < time_Until now (trunc_second expiry) \<longleftrightarrow> now + 17280 * Second < trunc_second expiry"
    by (subst time_Until_gt_iff) (simp_all add: hub_consts)
  ultimately show ?thesis using assms(3)
    by (auto simp: resolveAdapterToken_def readExistingTokenAndExpiry_def hub_ops exec_get exec_now data p Let_def)
qed

theorem adapter_token_rotation_witness:
  "\<exists>sec. BuildAdapterCredentialSecret ref_lib edge_spoke ''https://am'' ''tok'' (Format_RFC3339 (30000 * Second)) [] ''hub'' = Inr sec \<and>
    exec (resolveAdapterToken (NewSpokeClusterReconciler ref_lib (Secret_GetRESTConfig ref_lib) ''hub'') edge_spoke spoke_config)
      [(Get Hub KSecret (ObjectKey ''hub'' (AdapterCredentialName ''edge'')), RObj (OSecret sec)), (Now, RTime 0)]
      (Done (Inr (''tok'', 30000 * Second)))"
proof -
  let ?r = "NewSpokeClusterReconciler ref_lib (Secret_GetRESTConfig ref_lib) ''hub''"
  obtain sec where b: "BuildAdapterCredentialSecret ref_lib edge_spoke ''https://am'' ''tok'' (Format_RFC3339 (30000 * Second)) [] ''hub'' = Inr sec"
    by (simp add: BuildAdapterCredentialSecret_def ref_SetControllerReference_def Let_def)
  have "rfc3339_range (30000 * Second)" by (simp add: rfc3339_range_def hub_consts)
  from adapter_token_rotation [OF b refl _ this, of ?r spoke_config 0 "[]" "Done (Inr (''tok'', 30000 * Second))"]
  show ?thesis using b by (auto simp: trunc_second_def hub_consts adapter_key_def edge_spoke_def)
qed

section \<open>The generated Secrets on the hub\<close>

text \<open>
  Both Secrets are ensured by the same protocol: create; when it exists already, read it and
  update data and owners where they differ.
\<close>

definition ensure_secret ::
  "secret \<Rightarrow> (secret \<Rightarrow> bool) \<Rightarrow> (api_error \<Rightarrow> go_error) \<Rightarrow> (api_error \<Rightarrow> go_error) \<Rightarrow> (api_error \<Rightarrow> go_error) \<Rightarrow> go_error option prog" where
  "ensure_secret new changed ec eg eu =
    and_then (client_create Hub (OSecret new)) (\<lambda>cerr.
    case cerr of
      None \<Rightarrow> Ret None
    | Some err \<Rightarrow>
        if \<not> IsAlreadyExists err then Ret (Some (ec err))
        else and_then (get_secret (okey (OSecret new))) (\<lambda>res.
        case res of
          Inl err \<Rightarrow> Ret (Some (eg err))
        | Inr existing \<Rightarrow>
            if changed existing then
              and_then (client_update Hub (OSecret (existing\<lparr>s_data := s_data new,
                s_meta := (s_meta existing)\<lparr>m_owners := m_owners (s_meta new)\<rparr>\<rparr>))) (\<lambda>ures.
              case ures of Inl err \<Rightarrow> Ret (Some (eu err)) | Inr _ \<Rightarrow> Ret None)
            else Ret None))"

definition standing_changed :: "secret \<Rightarrow> secret \<Rightarrow> bool" where
  "standing_changed new existing \<longleftrightarrow> data_at (s_data existing) KubeconfigKey \<noteq> data_at (s_data new) KubeconfigKey \<or>
     \<not> ownerRefsEqual (m_owners (s_meta existing)) (m_owners (s_meta new))"

definition adapter_changed :: "secret \<Rightarrow> secret \<Rightarrow> bool" where
  "adapter_changed new existing \<longleftrightarrow> adapter_data_changed existing new \<or>
     \<not> ownerRefsEqual (m_owners (s_meta existing)) (m_owners (s_meta new))"

definition server_override :: "spokecluster \<Rightarrow> string" where
  "server_override sc = (if sc_mce sc \<noteq> None then [] else sp_apiServer (sc_spec sc))"

lemma ensureStandingKubeconfig_eq:
  "BuildStandingKubeconfig L cfg sc (server_override sc) (sr_operatorNamespace r) = Inr new \<Longrightarrow>
    ensureStandingKubeconfig L r cfg sc = ensure_secret new (standing_changed new)
      (\<lambda>err. Errorf [W (CtrlErr ErrCreatingStandingKubeconfig), S '': '', W (ApiErr err)])
      (\<lambda>err. Errorf [W (CtrlErr ErrGettingStandingKubeconfig), S '': '', W (ApiErr err)])
      (\<lambda>err. Errorf [W (CtrlErr ErrUpdatingStandingKubeconfig), S '': '', W (ApiErr err)])"
  by (simp add: ensureStandingKubeconfig_def ensure_secret_def standing_changed_def server_override_def ObjectKeyFromObject_def Let_def
      cong: option.case_cong sum.case_cong if_cong)

lemma ensureAdapterCredentialSecret_eq:
  "BuildAdapterCredentialSecret L sc url token expiry ca (sr_operatorNamespace r) = Inr new \<Longrightarrow>
    ensureAdapterCredentialSecret L r sc url token expiry ca = ensure_secret new (adapter_changed new)
      (\<lambda>err. Errorf [W (CtrlErr ErrCreatingAdapterCredential), S '': '', W (ApiErr err)])
      (\<lambda>err. Errorf [W (CtrlErr ErrGettingAdapterCredential), S '': '', W (ApiErr err)])
      (\<lambda>err. Errorf [W (CtrlErr ErrUpdatingAdapterCredential), S '': '', W (ApiErr err)])"
  by (simp add: ensureAdapterCredentialSecret_def ensure_secret_def adapter_changed_def ObjectKeyFromObject_def
      cong: option.case_cong sum.case_cong if_cong)

text \<open>What the protocol promises for the stored object before and after.\<close>

definition secret_ensured :: "secret \<Rightarrow> (secret \<Rightarrow> bool) \<Rightarrow> obj option \<Rightarrow> secret \<Rightarrow> bool" where
  "secret_ensured new changed old sec \<longleftrightarrow>
    (case old of
       Some (OSecret s) \<Rightarrow> if changed s then s_data sec = s_data new \<and> m_owners (s_meta sec) = m_owners (s_meta new) else sec = s
     | _ \<Rightarrow> admits (OSecret new) (OSecret sec))"

lemma secret_ensured_settled:
  assumes "secret_ensured new changed old sec" "not_terminating old"
    and "\<And>s. s_data s = s_data new \<Longrightarrow> m_owners (s_meta s) = m_owners (s_meta new) \<Longrightarrow> \<not> changed s"
  shows "\<not> changed sec"
  using assms(1)
proof (cases rule: option.exhaust [of old])
  assume "secret_ensured new changed old sec" and "old = None"
  then have "admits (OSecret new) (OSecret sec)" by (simp add: secret_ensured_def)
  then have "s_data sec = s_data new" "m_owners (s_meta sec) = m_owners (s_meta new)" by (auto simp: admits_def)
  then show ?thesis by (rule assms(3))
next
  fix x
  assume e: "secret_ensured new changed old sec" and x: "old = Some x"
  have fresh: "\<not> changed s" if "admits (OSecret new) (OSecret s)" for s
    using that by (intro assms(3)) (auto simp: admits_def)
  from e x show ?thesis by (cases x) (auto simp: secret_ensured_def fresh assms(3) split: if_splits)
qed

context api_server
begin

lemma run_ensure_secret:
  assumes "namespace_ready (store w) Hub (m_namespace (s_meta new))" "not_terminating (store w Hub KSecret (okey (OSecret new)))"
    "m_deletion (s_meta new) = None"
  obtains w' sec where "run H (ensure_secret new changed ec eg eu) w = (Done None, w')"
    "store w' Hub KSecret (okey (OSecret new)) = Some (OSecret sec)"
    "only_at Hub {(KSecret, okey (OSecret new))} (store w) (store w')"
    "secret_ensured new changed (store w Hub KSecret (okey (OSecret new))) sec"
    "live (store w' Hub KSecret (okey (OSecret new)))"
    "\<And>s. store w Hub KSecret (okey (OSecret new)) = Some (OSecret s) \<Longrightarrow> \<not> changed s \<Longrightarrow> store w' = store w"
proof -
  let ?key = "okey (OSecret new)"
  have ns: "namespace_ready (store w) Hub (m_namespace (obj_meta (OSecret new)))" using assms(1) by simp
  from ns show thesis
  proof (cases rule: run_client_create)
    case (created y w')
    then obtain sec where sec: "y = OSecret sec" by (auto simp: admits_def)
    from created sec assms(3) have "live (Some (OSecret sec))" by (auto simp: live_def dest: admits_meta)
    with created sec show thesis
      by (intro that [of w' sec]) (simp_all add: ensure_secret_def secret_ensured_def only_at_put)
  next
    case (existed e w1 y)
    then obtain old where old: "y = OSecret old" using store_wf [of w Hub KSecret ?key y] by (cases y) auto
    have st1: "store w1 Hub KSecret ?key = Some (OSecret old)" using existed old by simp
    obtain w2 where 2: "run H (client_get Hub KSecret as_secret ?key) w1 = (Done (Inr old), w2)" "store w2 = store w"
      by (rule run_get_found [OF st1, of as_secret]) (use existed(4) in simp)
    have lv: "m_deletion (s_meta old) = None" using assms(2) existed(3) old by (simp add: not_terminating_def live_def)
    show thesis
    proof (cases "changed old")
      case False
      with existed 2 old lv show thesis
        by (intro that [of w2 old]) (simp_all add: ensure_secret_def hub_ops secret_ensured_def live_def)
    next
      case True
      let ?u = "old\<lparr>s_data := s_data new, s_meta := (s_meta old)\<lparr>m_owners := m_owners (s_meta new)\<rparr>\<rparr>"
      have k: "okey (OSecret ?u) = ?key" using store_wf [OF st1] by (simp add: ObjectKeyFromObject_def)
      obtain z w3 where 3: "run H (client_update Hub (OSecret ?u)) w2 = (Done (Inr z), w3)"
        "admits (map_meta (\<lambda>m. m\<lparr>m_deletion := m_deletion (obj_meta (OSecret old))\<rparr>) (with_status (status_of (OSecret old)) (OSecret ?u))) z"
        "store w3 = store_put (store w2) Hub (obj_kind (OSecret ?u)) (okey (OSecret ?u)) (Some z)"
        by (rule run_client_update [of w2 Hub "OSecret ?u" "OSecret old"]) (use 2(2) existed(3) old k lv in simp_all)
      from 3(2) obtain sec where sec: "z = OSecret sec" "s_data sec = s_data new" "m_owners (s_meta sec) = m_owners (s_meta new)"
        "m_deletion (s_meta sec) = m_deletion (s_meta old)"
        by (auto simp: admits_def with_status_def)
      show thesis
        by (rule that [of w3 sec]) (use existed 2 3 sec old lv True k in \<open>simp_all add: ensure_secret_def hub_ops secret_ensured_def live_def only_at_put\<close>)
    qed
  qed
qed

lemma run_ensure_secret_twice:
  assumes "namespace_ready (store w) Hub (m_namespace (s_meta new))" "not_terminating (store w Hub KSecret (okey (OSecret new)))"
    "m_deletion (s_meta new) = None"
    and settle: "\<And>s. s_data s = s_data new \<Longrightarrow> m_owners (s_meta s) = m_owners (s_meta new) \<Longrightarrow> \<not> changed s"
  obtains w' sec w'' where "run H (ensure_secret new changed ec eg eu) w = (Done None, w')"
    "store w' Hub KSecret (okey (OSecret new)) = Some (OSecret sec)" "\<not> changed sec"
    "only_at Hub {(KSecret, okey (OSecret new))} (store w) (store w')"
    "run H (ensure_secret new changed ec eg eu) w' = (Done None, w'')" "store w'' = store w'"
proof -
  obtain w' sec where 1: "run H (ensure_secret new changed ec eg eu) w = (Done None, w')"
    "store w' Hub KSecret (okey (OSecret new)) = Some (OSecret sec)" "only_at Hub {(KSecret, okey (OSecret new))} (store w) (store w')"
    "secret_ensured new changed (store w Hub KSecret (okey (OSecret new))) sec" "live (store w' Hub KSecret (okey (OSecret new)))"
    by (rule run_ensure_secret [OF assms(1,2,3), of changed ec eg eu])
  have settled: "\<not> changed sec" by (rule secret_ensured_settled [OF 1(4) assms(2) settle])
  have "namespace_ready (store w') Hub (m_namespace (s_meta new))"
    by (rule namespace_ready_only_at [OF 1(3) _ assms(1)]) simp
  then obtain w'' where "run H (ensure_secret new changed ec eg eu) w' = (Done None, w'')" "store w'' = store w'"
    by (rule run_ensure_secret [of w' new changed ec eg eu]) (use 1 settled assms(3) in \<open>auto simp: not_terminating_def\<close>)
  with 1 settled show thesis by (intro that)
qed

end

lemma ownerRefsEqual_refl [simp]: "ownerRefsEqual os os"
  by (induction os) simp_all

lemma unchanged_settled:
  "s_data s = s_data new \<Longrightarrow> m_owners (s_meta s) = m_owners (s_meta new) \<Longrightarrow> \<not> standing_changed new s"
  "s_data s = s_data new \<Longrightarrow> m_owners (s_meta s) = m_owners (s_meta new) \<Longrightarrow> \<not> adapter_changed new s"
  by (simp_all add: standing_changed_def adapter_changed_def adapter_data_changed_def)

lemma built_meta:
  assumes "controller_references L" and "lib_SetControllerReference L sc (new_meta ns n) = Inr m"
  shows "m_namespace m = ns" "m_name m = n" "m_deletion m = None"
proof -
  have "m\<lparr>m_owners := []\<rparr> = (new_meta ns n)\<lparr>m_owners := []\<rparr>"
    by (rule controller_references.owner_frame [OF assms])
  then have "m_namespace (m\<lparr>m_owners := []\<rparr>) = ns" "m_name (m\<lparr>m_owners := []\<rparr>) = n" "m_deletion (m\<lparr>m_owners := []\<rparr>) = None"
    by simp_all
  then show "m_namespace m = ns" "m_name m = n" "m_deletion m = None" by simp_all
qed

text \<open>
  C16.  The standing kubeconfig on a healthy hub: whether the Secret was missing, outdated or
  current, after \<open>ensureStandingKubeconfig\<close> it holds the kubeconfig built from the credentials and is
  owned by the SpokeCluster; nothing else has changed; and doing it again with the same
  credentials changes nothing at all.
\<close>

theorem standing_kubeconfig_ensured:
  assumes "api_server H store" and "controller_references L"
    and "BuildStandingKubeconfig L cfg sc (server_override sc) (sr_operatorNamespace r) = Inr new"
    and "namespace_ready (store w) Hub (sr_operatorNamespace r)"
    and "not_terminating (store w Hub KSecret (standing_key r sc))"
  shows "\<exists>w' sec. run H (ensureStandingKubeconfig L r cfg sc) w = (Done None, w') \<and>
    store w' Hub KSecret (standing_key r sc) = Some (OSecret sec) \<and>
    data_at (s_data sec) KubeconfigKey = data_at (s_data new) KubeconfigKey \<and>
    ownerRefsEqual (m_owners (s_meta sec)) (m_owners (s_meta new)) \<and>
    only_at Hub {(KSecret, standing_key r sc)} (store w) (store w') \<and>
    (\<exists>w''. run H (ensureStandingKubeconfig L r cfg sc) w' = (Done None, w'') \<and> store w'' = store w')"
proof -
  from assms(3) have ref: "lib_SetControllerReference L sc (new_meta (sr_operatorNamespace r) (StandingKubeconfigName (sc_name sc))) = Inr (s_meta new)"
    by (auto simp: BuildStandingKubeconfig_Inr)
  note meta = built_meta [OF assms(2) ref]
  have key: "okey (OSecret new) = standing_key r sc" by (simp add: ObjectKeyFromObject_def standing_key_def meta)
  note eq = ensureStandingKubeconfig_eq [OF assms(3)]
  obtain w' sec w'' where "run H (ensureStandingKubeconfig L r cfg sc) w = (Done None, w')"
    "store w' Hub KSecret (standing_key r sc) = Some (OSecret sec)" "\<not> standing_changed new sec"
    "only_at Hub {(KSecret, standing_key r sc)} (store w) (store w')"
    "run H (ensureStandingKubeconfig L r cfg sc) w' = (Done None, w'')" "store w'' = store w'"
    unfolding eq
    by (rule api_server.run_ensure_secret_twice [OF assms(1), where new = new and changed = "standing_changed new", unfolded key meta,
        OF assms(4,5) refl unchanged_settled(1)])
  then show ?thesis by (auto simp: standing_changed_def)
qed

lemma fresh_hub_ready:
  "namespace_ready (ref_store fresh_cluster) Hub ''lightspeed-hub''" "not_terminating (ref_store fresh_cluster Hub KSecret key)"
  by (simp_all add: namespace_ready_def fresh_cluster_def lookup_def live_def ObjectKeyFromObject_def not_terminating_def)

definition test_reconciler :: spoke_reconciler where
  "test_reconciler = NewSpokeClusterReconciler ref_lib (Dispatching_GetRESTConfig ref_lib ''lightspeed-hub'') ''lightspeed-hub''"

theorem standing_kubeconfig_ensured_witness:
  "\<exists>w' sec. run ref_server (ensureStandingKubeconfig ref_lib test_reconciler spoke_config edge_spoke) fresh_cluster = (Done None, w') \<and>
    ref_store w' Hub KSecret (ObjectKey ''lightspeed-hub'' (StandingKubeconfigName ''edge'')) = Some (OSecret sec)"
proof -
  let ?r = test_reconciler
  have ns: "sr_operatorNamespace ?r = ''lightspeed-hub''" by (simp add: test_reconciler_def)
  have k: "standing_key ?r edge_spoke = ObjectKey ''lightspeed-hub'' (StandingKubeconfigName ''edge'')"
    by (simp add: standing_key_def ns edge_spoke_def)
  have "ref_wf_config (buildKubeconfigAPI spoke_config (server_override edge_spoke))"
    by (simp add: ref_wf_config_def buildKubeconfigAPI_def Let_def)
  then obtain new where b: "BuildStandingKubeconfig ref_lib spoke_config edge_spoke (server_override edge_spoke) (sr_operatorNamespace ?r) = Inr new"
    by (simp add: BuildStandingKubeconfig_def ref_Write_def ref_SetControllerReference_def Let_def)
  have n: "namespace_ready (ref_store fresh_cluster) Hub (sr_operatorNamespace ?r)" by (simp add: ns fresh_hub_ready)
  from standing_kubeconfig_ensured [OF ref.api_server_axioms ref_library.controller_references_axioms b n fresh_hub_ready(2)] k
  show ?thesis by auto
qed

text \<open>
  C17.  The same for the adapter credential: its four entries are those just obtained (a missing
  bundle or expiry reads as empty), it is owned by the SpokeCluster, nothing else has changed, and
  doing it again changes nothing.
\<close>

theorem adapter_credential_ensured:
  assumes "api_server H store" and "controller_references L"
    and "BuildAdapterCredentialSecret L sc url token expiry ca (sr_operatorNamespace r) = Inr new"
    and "namespace_ready (store w) Hub (sr_operatorNamespace r)"
    and "not_terminating (store w Hub KSecret (adapter_key r sc))"
  shows "\<exists>w' sec. run H (ensureAdapterCredentialSecret L r sc url token expiry ca) w = (Done None, w') \<and>
    store w' Hub KSecret (adapter_key r sc) = Some (OSecret sec) \<and>
    data_at (s_data sec) AlertmanagerURLKey = url \<and> data_at (s_data sec) TokenKey = token \<and>
    data_at (s_data sec) TokenExpiryKey = expiry \<and> data_at (s_data sec) CABundleKey = ca \<and>
    ownerRefsEqual (m_owners (s_meta sec)) (m_owners (s_meta new)) \<and>
    only_at Hub {(KSecret, adapter_key r sc)} (store w) (store w') \<and>
    (\<exists>w''. run H (ensureAdapterCredentialSecret L r sc url token expiry ca) w' = (Done None, w'') \<and> store w'' = store w')"
proof -
  note built = BuildAdapterCredentialSecret_Inr [OF assms(3)]
  note meta = built_meta [OF assms(2) built(1)]
  have key: "okey (OSecret new) = adapter_key r sc" by (simp add: ObjectKeyFromObject_def adapter_key_def meta)
  note eq = ensureAdapterCredentialSecret_eq [OF assms(3)]
  obtain w' sec w'' where "run H (ensureAdapterCredentialSecret L r sc url token expiry ca) w = (Done None, w')"
    "store w' Hub KSecret (adapter_key r sc) = Some (OSecret sec)" "\<not> adapter_changed new sec"
    "only_at Hub {(KSecret, adapter_key r sc)} (store w) (store w')"
    "run H (ensureAdapterCredentialSecret L r sc url token expiry ca) w' = (Done None, w'')" "store w'' = store w'"
    unfolding eq
    by (rule api_server.run_ensure_secret_twice [OF assms(1), where new = new and changed = "adapter_changed new", unfolded key meta,
        OF assms(4,5) refl unchanged_settled(2)])
  with built show ?thesis by (auto simp: adapter_changed_def adapter_data_changed_def)
qed

theorem adapter_credential_ensured_witness:
  "\<exists>w' sec. run ref_server (ensureAdapterCredentialSecret ref_lib test_reconciler edge_spoke ''https://am'' ''tok'' [] []) fresh_cluster = (Done None, w') \<and>
    ref_store w' Hub KSecret (ObjectKey ''lightspeed-hub'' (AdapterCredentialName ''edge'')) = Some (OSecret sec) \<and>
    data_at (s_data sec) TokenKey = ''tok''"
proof -
  let ?r = test_reconciler
  have ns: "sr_operatorNamespace ?r = ''lightspeed-hub''" by (simp add: test_reconciler_def)
  have k: "adapter_key ?r edge_spoke = ObjectKey ''lightspeed-hub'' (AdapterCredentialName ''edge'')"
    by (simp add: adapter_key_def ns edge_spoke_def)
  obtain new where b: "BuildAdapterCredentialSecret ref_lib edge_spoke ''https://am'' ''tok'' [] [] (sr_operatorNamespace ?r) = Inr new"
    by (simp add: BuildAdapterCredentialSecret_def ref_SetControllerReference_def Let_def)
  have n: "namespace_ready (ref_store fresh_cluster) Hub (sr_operatorNamespace ?r)" by (simp add: ns fresh_hub_ready)
  from adapter_credential_ensured [OF ref.api_server_axioms ref_library.controller_references_axioms b n fresh_hub_ready(2)] k
  show ?thesis by auto
qed

section \<open>Label and restart\<close>

lemma label_present:
  "m_labels (sc_meta sc) = Some l \<Longrightarrow> map_of l AdapterCredentialLabel = Some (AdapterCredentialName (sc_name sc)) \<Longrightarrow>
    label_and_restart r sc = Ret (sc, None)"
  by (simp add: label_and_restart_def ensureAdapterLabel_def go_str_def Let_def)

lemma ensureAdapterLabel_changed:
  assumes "exec (ensureAdapterLabel sc) t (Done (sc', Inr True))"
  shows "\<exists>l x a u. (Update Hub (OSpokeCluster x), a) \<in> set t \<and> update_result (OSpokeCluster x) a = Inr u \<and>
    m_labels (sc_meta x) = Some l \<and> map_of l AdapterCredentialLabel = Some (AdapterCredentialName (sc_name sc)) \<and>
    m_labels (sc_meta sc') = m_labels (obj_meta u)"
proof -
  have init: "(case m of None \<Rightarrow> Some [] | Some l \<Rightarrow> Some l) = Some (case m of None \<Rightarrow> [] | Some l \<Rightarrow> l)" for m :: "string go_map option"
    by (cases m) simp_all
  let ?l = "\<lambda>fresh. case m_labels (sc_meta fresh) of None \<Rightarrow> [] | Some l \<Rightarrow> l"
  let ?x = "\<lambda>fresh l. fresh\<lparr>sc_meta := (sc_meta fresh)\<lparr>m_labels := Some (AList.update AdapterCredentialLabel (AdapterCredentialName (sc_name sc)) l)\<rparr>\<rparr>"
  from assms have "\<exists>r fresh a u. t = [(Get Hub KSpokeCluster (okey (OSpokeCluster sc)), r), (Update Hub (OSpokeCluster (?x fresh (?l fresh))), a)] \<and>
      update_result (OSpokeCluster (?x fresh (?l fresh))) a = Inr u \<and> m_labels (sc_meta sc') = m_labels (obj_meta u)"
    unfolding ensureAdapterLabel_def Let_def init map_put_Some by (auto simp: hub_ops exec_simps split: if_splits) (rule exI, rule conjI, rule refl, rule exI, erule conjI, simp)+
  then obtain fresh l a u where "(Update Hub (OSpokeCluster (?x fresh l)), a) \<in> set t" "update_result (OSpokeCluster (?x fresh l)) a = Inr u"
      "m_labels (sc_meta sc') = m_labels (obj_meta u)" by (metis list.set_intros)
  then show ?thesis
    by (intro exI [of _ "AList.update AdapterCredentialLabel (AdapterCredentialName (sc_name sc)) l"] exI [of _ "?x fresh l"] exI [of _ a] exI [of _ u]) simp
qed

text \<open>
  C35.  A failed restart of the adapter is not retried.  When the label was written and the restart
  after it failed, the reconcile returns the error; but every later reconcile reads the
  label as already set, issues no request at all, and goes on to report the adapters as ready.
\<close>

theorem restart_not_retried:
  assumes "exec (label_and_restart r sc) t (Done (sc', Some (Errorf [W (CtrlErr ErrRestartingAdapter), S '': '', W err])))"
    and "\<forall>x y. (Update Hub (OSpokeCluster x), RObj y) \<in> set t \<longrightarrow> m_labels (obj_meta y) = m_labels (sc_meta x)"
    and "sc_name later = sc_name sc" and "m_labels (sc_meta later) = m_labels (sc_meta sc')"
  shows "label_and_restart r later = Ret (later, None)"
proof -
  from assms(1) obtain t1 t2 where t: "t = t1 @ t2" and e: "exec (ensureAdapterLabel sc) t1 (Done (sc', Inr True))"
    by (fastforce simp: label_and_restart_def exec_seq exec_simps split: option.splits)
  from ensureAdapterLabel_changed [OF e] obtain l x a u where up: "(Update Hub (OSpokeCluster x), a) \<in> set t1"
    "update_result (OSpokeCluster x) a = Inr u" and l: "m_labels (sc_meta x) = Some l"
    "map_of l AdapterCredentialLabel = Some (AdapterCredentialName (sc_name sc))" "m_labels (sc_meta sc') = m_labels (obj_meta u)" by blast
  from up(2) have "u = OSpokeCluster x \<or> a = RObj u" by (auto simp: update_result_def split: resp.splits if_splits)
  with up(1) t assms(2) have "m_labels (obj_meta u) = m_labels (sc_meta x)" by auto
  with l assms(3,4) show ?thesis by (intro label_present [of _ l]) simp_all
qed

theorem restart_not_retried_witness:
  "\<exists>t sc' err. exec (label_and_restart test_reconciler edge_spoke) t (Done (sc', Some err)) \<and> label_and_restart test_reconciler sc' = Ret (sc', None)"
proof -
  let ?x = "edge_spoke\<lparr>sc_meta := (sc_meta edge_spoke)\<lparr>m_labels := Some [(AdapterCredentialLabel, AdapterCredentialName ''edge'')]\<rparr>\<rparr>"
  let ?e = "\<lparr>err_reason = OtherReason, err_text = ''timeout''\<rparr>"
  let ?t = "[(Get Hub KSpokeCluster (okey (OSpokeCluster edge_spoke)), RObj (OSpokeCluster edge_spoke)), (Update Hub (OSpokeCluster ?x), ROk),
    (Get Hub KDeployment (ObjectKey (sr_operatorNamespace test_reconciler) adapterName), RErr ?e)]"
  let ?err = "Errorf [W (CtrlErr ErrGettingAdapterForRestart), S '': '', W (ApiErr ?e)]"
  have e: "exec (label_and_restart test_reconciler edge_spoke) ?t (Done (?x, Some (Errorf [W (CtrlErr ErrRestartingAdapter), S '': '', W ?err])))"
    by (simp add: label_and_restart_def ensureAdapterLabel_def restartAdapterDeployment_def hub_ops exec_simps Let_def edge_spoke_def update_result_def)
  have "label_and_restart test_reconciler ?x = Ret (?x, None)"
    by (rule restart_not_retried [OF e]) simp_all
  with e show ?thesis by blast
qed

end
