(* ===== verification/Spoke_Controller.thy ===== *)
theory Spoke_Controller
  imports Spoke_Adapters
begin

text \<open>
  The reconciler of SpokeClusters, third part
  (\<^verbatim>\<open>internal/controller/spokecluster_controller.go\<close>): the reconcile function itself, cleanup and
  unmanaging, and what triggers a reconcile.
\<close>

section \<open>Cleanup\<close>

definition spokeClusterFinalizer :: string where
  [hub_consts]: "spokeClusterFinalizer = ''hub.openshift.io/spoke-cleanup''"

text \<open>
  The spoke side of \<open>cleanupSpokeResources\<close>; the result is \<open>spokeCleanupFailed\<close>.
\<close>

definition cleanup_spoke_side :: "k8s_lib \<Rightarrow> spoke_reconciler \<Rightarrow> spokecluster \<Rightarrow> bool prog" where
  "cleanup_spoke_side L r sc =
    and_then (get_secret (standing_key r sc)) (\<lambda>res.
    case res of
      Inl err \<Rightarrow> if \<not> IsNotFound err then Ret True else Ret False
    | Inr standingSecret \<Rightarrow>
        (case map_of (s_data standingSecret) KubeconfigKey of
           None \<Rightarrow> Ret False
         | Some kubeconfigBytes \<Rightarrow>
             (case lib_RESTConfigFromKubeConfig L kubeconfigBytes of
                Inl err \<Rightarrow> Ret True
              | Inr cfg \<Rightarrow>
                  and_then (sr_NewSpokeClient r (cfg\<lparr>rc_Timeout := spokeDialTimeout\<rparr>)) (\<lambda>cres.
                  case cres of
                    Inl err \<Rightarrow> Ret True
                  | Inr spokeClient \<Rightarrow>
                      and_then (DeprovisionAdapter spokeClient) (\<lambda>aerr.
                      and_then (Deprovision spokeClient) (\<lambda>derr.
                      Ret (aerr \<noteq> None \<or> derr \<noteq> None)))))))"

definition cleanupSpokeResources :: "k8s_lib \<Rightarrow> spoke_reconciler \<Rightarrow> spokecluster \<Rightarrow> unit prog" where
  "cleanupSpokeResources L r sc =
    and_then (cleanup_spoke_side L r sc) (\<lambda>spokeCleanupFailed.
    and_then (if spokeCleanupFailed \<and> sr_recorder r
      then Vis (Eventf (sc_name sc) ''Warning'' ''SpokeCleanupFailed''
        ''Spoke-side cleanup failed (check operator logs for details); hub-side cleanup proceeded'') (\<lambda>_. Ret ())
      else Ret ()) (\<lambda>_.
    and_then (client_delete Hub KSecret (standing_key r sc)) (\<lambda>_.
    and_then (client_delete Hub KSecret (adapter_key r sc)) (\<lambda>_.
    and_then (restartAdapterDeployment (sr_operatorNamespace r)) (\<lambda>_. Ret ())))))"

definition remove_condition :: "k8s_lib \<Rightarrow> string \<Rightarrow> spokecluster \<Rightarrow> spokecluster" where
  "remove_condition L ty sc = sc\<lparr>sc_conditions := lib_RemoveStatusCondition L (sc_conditions sc) ty\<rparr>"

definition unmanageSpoke :: "k8s_lib \<Rightarrow> spoke_reconciler \<Rightarrow> spokecluster \<Rightarrow> string \<Rightarrow> string \<Rightarrow> reconcile_result prog" where
  "unmanageSpoke L r sc reason message =
    and_then (cleanupSpokeResources L r sc) (\<lambda>_.
     let sc1 = setCondition L sc conditionTypeReady ConditionFalse reason message;
         sc2 = remove_condition L conditionTypeConnected sc1;
         sc3 = remove_condition L conditionTypeProvisioned sc2;
         sc4 = remove_condition L conditionTypeAdaptersReady sc3 in
     and_then (patchStatus L sc4) (\<lambda>perr.
     case perr of
       Some err \<Rightarrow> Ret (no_requeue, Some (Errorf [W (CtrlErr ErrUpdatingStatus), S '' after unmanaging spoke: '', W err]))
     | None \<Rightarrow> Ret (no_requeue, None)))"

definition reconcileDelete :: "k8s_lib \<Rightarrow> spoke_reconciler \<Rightarrow> spokecluster \<Rightarrow> reconcile_result prog" where
  "reconcileDelete L r sc =
    (if \<not> lib_ContainsFinalizer L (sc_meta sc) spokeClusterFinalizer then Ret (no_requeue, None)
     else and_then (cleanupSpokeResources L r sc) (\<lambda>_.
       and_then (client_update Hub (OSpokeCluster (sc\<lparr>sc_meta :=
         lib_RemoveFinalizer L (sc_meta sc) spokeClusterFinalizer\<rparr>))) (\<lambda>ures.
       case ures of
         Inl err \<Rightarrow> Ret (no_requeue, Some (Errorf [W (CtrlErr ErrRemovingFinalizer), S '': '', W (ApiErr err)]))
       | Inr _ \<Rightarrow> Ret (no_requeue, None))))"

section \<open>Reconcile\<close>

definition credentialSourceMatchesMode :: "spokecluster \<Rightarrow> hubconfig \<Rightarrow> bool" where
  "credentialSourceMatchesMode sc hc =
    (if hs_mode (hc_spec hc) = ClusterRegistryModeSecret then sc_secret sc \<noteq> None
     else if hs_mode (hc_spec hc) = ClusterRegistryModeMCE then sc_mce sc \<noteq> None
     else False)"

text \<open>From the adapter orchestration to the end.\<close>

definition finish_adapters ::
  "k8s_lib \<Rightarrow> spoke_reconciler \<Rightarrow> spokecluster \<Rightarrow> target \<Rightarrow> rest_config \<Rightarrow> reconcile_result prog" where
  "finish_adapters L r sc spokeClient standingCfg =
    and_then (reconcileAdapters L r sc spokeClient standingCfg) (\<lambda>(sc1, aerr).
    case aerr of
      Some err \<Rightarrow> failWithCondition L sc1 conditionTypeAdaptersReady reasonAdaptersFailed err
    | None \<Rightarrow>
        (let sc2 = setCondition L sc1 conditionTypeAdaptersReady ConditionTrue reasonAdaptersReady
               ''adapter credential Secrets provisioned'';
             sc3 = setCondition L sc2 conditionTypeReady ConditionTrue reasonManaged ''spoke is managed by hub'' in
         and_then (patchStatus L sc3) (\<lambda>perr.
         case perr of
           Some err \<Rightarrow> Ret (no_requeue, Some (Errorf [W (CtrlErr ErrUpdatingStatus), S '': '', W err]))
         | None \<Rightarrow> Ret (no_requeue, None))))"

text \<open>From the connectivity check to the provisioned spoke.\<close>

definition connect_and_provision ::
  "k8s_lib \<Rightarrow> spoke_reconciler \<Rightarrow> spokecluster \<Rightarrow> rest_config \<Rightarrow> reconcile_result prog" where
  "connect_and_provision L r sc standingCfg =
    and_then (sr_CheckConnectivity r standingCfg) (\<lambda>cerr.
    case cerr of
      Some err \<Rightarrow> handleConnectivityFailure L sc err
    | None \<Rightarrow>
        (let sc1 = setCondition L sc conditionTypeConnected ConditionTrue reasonConnectionSucceeded
               ''spoke API server is reachable'' in
         and_then (sr_NewSpokeClient r standingCfg) (\<lambda>nres.
         case nres of
           Inl err \<Rightarrow> failWithCondition L sc1 conditionTypeProvisioned reasonProvisioningFailed
             (Errorf [W (CtrlErr ErrCreatingSpokeClient), S '': '', W err])
         | Inr spokeClient \<Rightarrow>
             and_then (Provision spokeClient) (\<lambda>perr.
             case perr of
               Some err \<Rightarrow> failWithCondition L sc1 conditionTypeProvisioned reasonProvisioningFailed err
             | None \<Rightarrow>
                 (let sc2 = setCondition L sc1 conditionTypeProvisioned ConditionTrue reasonProvisioningSucceeded
                        ''spoke-side resources provisioned'' in
                  finish_adapters L r sc2 spokeClient standingCfg)))))"

text \<open>From the credentials to the standing configuration.\<close>

definition manage_spoke :: "k8s_lib \<Rightarrow> spoke_reconciler \<Rightarrow> spokecluster \<Rightarrow> reconcile_result prog" where
  "manage_spoke L r sc =
    and_then (sr_credentialSource r sc) (\<lambda>gres.
    case gres of
      Inl err \<Rightarrow> failWithCondition L sc conditionTypeConnected reasonCredentialError err
    | Inr cfg0 \<Rightarrow>
        (let cfg = cfg0\<lparr>rc_Timeout := spokeDialTimeout\<rparr> in
         and_then (ensureStandingKubeconfig L r cfg sc) (\<lambda>eerr.
         case eerr of
           Some err \<Rightarrow> failWithCondition L sc conditionTypeConnected reasonCredentialError err
         | None \<Rightarrow>
             and_then (loadStandingKubeconfig L r sc) (\<lambda>lres.
             case lres of
               Inl err \<Rightarrow> failWithCondition L sc conditionTypeConnected reasonCredentialError err
             | Inr standingCfg \<Rightarrow> connect_and_provision L r sc standingCfg))))"

definition Spoke_Reconcile :: "k8s_lib \<Rightarrow> spoke_reconciler \<Rightarrow> object_key \<Rightarrow> reconcile_result prog" where
  "Spoke_Reconcile L r key =
    and_then (get_spokecluster key) (\<lambda>res.
    case res of
      Inl err \<Rightarrow> if IsNotFound err then Ret (no_requeue, None) else Ret (no_requeue, Some (ApiErr err))
    | Inr sc \<Rightarrow>
        if \<not> IsZero (m_deletion (sc_meta sc)) then reconcileDelete L r sc
        else if \<not> lib_ContainsFinalizer L (sc_meta sc) spokeClusterFinalizer then
          and_then (client_update Hub (OSpokeCluster (sc\<lparr>sc_meta :=
            lib_AddFinalizer L (sc_meta sc) spokeClusterFinalizer\<rparr>))) (\<lambda>ures.
          case ures of
            Inl err \<Rightarrow> Ret (no_requeue, Some (Errorf [W (CtrlErr ErrAddingFinalizer), S '': '', W (ApiErr err)]))
          | Inr _ \<Rightarrow> Ret (\<lparr>Requeue = True, RequeueAfter = 0\<rparr>, None))
        else
          and_then (get_hubconfig (ObjectKey [] ''cluster'')) (\<lambda>hres.
          case hres of
            Inl err \<Rightarrow>
              if IsNotFound err
              then unmanageSpoke L r sc reasonHubConfigMissing
                (''HubConfig '' @ [CHR 0x27] @ ''cluster'' @ [CHR 0x27] @ '' not found'')
              else Ret (no_requeue, Some (Errorf [W (CtrlErr ErrGettingHubConfig), S '': '', W (ApiErr err)]))
          | Inr hubConfig \<Rightarrow>
              if \<not> IsZero (m_deletion (hc_meta hubConfig))
              then unmanageSpoke L r sc reasonHubConfigMissing ''HubConfig is being deleted''
              else if \<not> credentialSourceMatchesMode sc hubConfig
              then unmanageSpoke L r sc reasonCredentialSourceMismatch
                (''credential source does not match clusterRegistryMode '' @ Quote (hs_mode (hc_spec hubConfig)))
              else manage_spoke L r sc))"

section \<open>Setup\<close>

definition SetEventRecorder :: "spoke_reconciler \<Rightarrow> bool \<Rightarrow> spoke_reconciler" where
  "SetEventRecorder r recorder = r\<lparr>sr_recorder := recorder\<rparr>"

text \<open>\<open>SetupWithManager\<close>, given what completing the controller returned; it sets the recorder again.\<close>

definition spoke_SetupWithManager :: "go_error option \<Rightarrow> spoke_reconciler \<Rightarrow> spoke_reconciler \<times> go_error option" where
  "spoke_SetupWithManager completeErr r = (r\<lparr>sr_recorder := True\<rparr>, completeErr)"

definition mapHubConfigToSpokeClusters :: "object_key list prog" where
  "mapHubConfigToSpokeClusters =
    and_then (client_list KSpokeCluster as_spokecluster []) (\<lambda>res.
    case res of
      Inl err \<Rightarrow> Ret []
    | Inr spokes \<Rightarrow> Ret (map (\<lambda>sc. ObjectKey [] (sc_name sc)) spokes))"

text \<open>The predicate on update events of SpokeClusters (\<open>SetupWithManager\<close>).\<close>

definition spoke_update_event :: "k8s_lib \<Rightarrow> spokecluster \<Rightarrow> spokecluster \<Rightarrow> bool" where
  "spoke_update_event L oldSC newSC \<longleftrightarrow>
    lib_GenerationChanged L (sc_meta oldSC) (sc_meta newSC) \<or>
    (if IsZero (m_deletion (sc_meta oldSC)) \<and> \<not> IsZero (m_deletion (sc_meta newSC)) then True
     else (let oc = lib_FindStatusCondition L (sc_conditions oldSC) conditionTypeConnected;
               nc = lib_FindStatusCondition L (sc_conditions newSC) conditionTypeConnected in
       (oc = None) \<noteq> (nc = None) \<or>
       (case (oc, nc) of (Some a, Some b) \<Rightarrow> c_status a \<noteq> c_status b | _ \<Rightarrow> False)))"

section \<open>Totality\<close>

context spoke_fields
begin

lemma never_panics_cleanup [simp]: "never_panics (cleanupSpokeResources L r sc)"
  by (auto simp: cleanupSpokeResources_def cleanup_spoke_side_def DeprovisionAdapter_def Deprovision_def hub_ops
      intro!: never_panics_and_then client_reads(2) split: sum.splits option.splits)

lemma never_panics_manage [simp]: "never_panics (manage_spoke L r sc)"
  by (auto simp: manage_spoke_def connect_and_provision_def finish_adapters_def Provision_def Let_def
      intro!: never_panics_and_then credential_source.source_never_panics [OF source] connectivity_reads(2) client_reads(2)
      split: sum.splits option.splits)

lemma never_panics_unmanage [simp]: "never_panics (unmanageSpoke L r sc rs m)" "never_panics (reconcileDelete L r sc)"
  by (auto simp: unmanageSpoke_def reconcileDelete_def Let_def intro!: never_panics_and_then split: sum.splits option.splits)

lemma never_panics_Spoke_Reconcile: "never_panics (Spoke_Reconcile L r key)"
  by (auto simp: Spoke_Reconcile_def hub_ops intro!: never_panics_and_then split: sum.splits)

end

section \<open>When a spoke is managed\<close>

text \<open>
  The events of a reconcile show that the spoke is to be managed: it was read, is not being deleted
  and has the finalizer, and a live HubConfig was read whose mode is that of its credential source.
\<close>

definition managed :: "object_key \<Rightarrow> event set \<Rightarrow> bool" where
  "managed key E \<longleftrightarrow> (\<exists>sc hc. (Get Hub KSpokeCluster key, RObj (OSpokeCluster sc)) \<in> E \<and> IsZero (m_deletion (sc_meta sc)) \<and>
     spokeClusterFinalizer \<in> set (m_finalizers (sc_meta sc)) \<and>
     (Get Hub KHubConfig (ObjectKey [] ''cluster''), RObj (OHubConfig hc)) \<in> E \<and> IsZero (m_deletion (hc_meta hc)) \<and>
     credentialSourceMatchesMode sc hc)"

text \<open>What is written only for a managed spoke, and what only for one that is not.\<close>

definition managing :: "req \<Rightarrow> bool" where
  "managing q = (case q of Create c x \<Rightarrow> True | CreateToken cfg ns sa n \<Rightarrow> True
     | Update c x \<Rightarrow> obj_kind x = KSecret | _ \<Rightarrow> False)"

definition unmanaging :: "req \<Rightarrow> bool" where
  "unmanaging q = (case q of Delete c k key \<Rightarrow> True | Eventf a b c d \<Rightarrow> True | _ \<Rightarrow> False)"

lemma managing_simps [simp]:
  "managing (Create c x)" "managing (Update c x) \<longleftrightarrow> obj_kind x = KSecret" "\<not> managing (Get c k key)" "\<not> managing Now"
  "\<not> managing (Delete c k key)" "\<not> managing (StatusPatch b n)" "\<not> managing (Eventf e1 e2 e3 e4)"
  "\<not> unmanaging (Create c x)" "\<not> unmanaging (Update c x)" "\<not> unmanaging (Get c k key)"
  "\<not> unmanaging Now" "\<not> unmanaging (StatusPatch b n)" "unmanaging (Delete c k key)"
  by (simp_all add: managing_def unmanaging_def)

lemma not_managing_reads: "\<not> is_write q \<Longrightarrow> \<not> managing q" "manage_req q \<Longrightarrow> \<not> unmanaging q"
  by (cases q; simp add: managing_def unmanaging_def manage_req_def)+

lemma not_unmanaging_reads: "\<not> is_write q \<Longrightarrow> \<not> unmanaging q"
  by (rule not_managing_reads(2) [OF manage_req_reads])

lemma guarded_not_managing: "all_reqs (\<lambda>q. \<not> managing q) p \<Longrightarrow> guarded (\<lambda>E q. managing q \<longrightarrow> managed key E) E p"
  by (erule guarded_all_reqs) simp

lemma managedI:
  "(Get Hub KSpokeCluster key, RObj (OSpokeCluster sc)) \<in> E \<Longrightarrow> IsZero (m_deletion (sc_meta sc)) \<Longrightarrow>
    spokeClusterFinalizer \<in> set (m_finalizers (sc_meta sc)) \<Longrightarrow>
    (Get Hub KHubConfig (ObjectKey [] ''cluster''), RObj (OHubConfig hc)) \<in> E \<Longrightarrow> IsZero (m_deletion (hc_meta hc)) \<Longrightarrow>
    credentialSourceMatchesMode sc hc \<Longrightarrow> managed key E"
  by (auto simp: managed_def)

lemma guarded_managed: "managed key E \<Longrightarrow> guarded (\<lambda>E q. managing q \<longrightarrow> managed key E) E p"
proof (induction p arbitrary: E)
  case (Vis q k)
  have "managed key (insert (q, a) E)" for a using Vis.prems by (auto simp: managed_def)
  with Vis show ?case by auto
qed simp_all

lemma status_reqs:
  "(\<And>c k key. P (Get c k key)) \<Longrightarrow> (\<And>b n. P (StatusPatch b n)) \<Longrightarrow> all_reqs P (patchStatus L sc)"
  "(\<And>c k key. P (Get c k key)) \<Longrightarrow> (\<And>b n. P (StatusPatch b n)) \<Longrightarrow> all_reqs P (failWithCondition L sc ty rs e)"
  "(\<And>c k key. P (Get c k key)) \<Longrightarrow> (\<And>b n. P (StatusPatch b n)) \<Longrightarrow> all_reqs P (handleConnectivityFailure L sc e)"
  by (auto simp: patchStatus_def failWithCondition_def handleConnectivityFailure_def hub_ops Let_def
      intro!: all_reqs_and_then split: sum.splits option.splits)

context spoke_fields
begin

lemma cleanup_not_managing: "all_reqs (\<lambda>q. \<not> managing q) (cleanupSpokeResources L r sc)"
proof -
  have "all_reqs (\<lambda>q. \<not> managing q) (sr_NewSpokeClient r cfg)" for cfg
    by (rule all_reqs_mono [OF client_reads(1) not_managing_reads(1)])
  then show ?thesis
    by (auto simp: cleanupSpokeResources_def cleanup_spoke_side_def DeprovisionAdapter_def Deprovision_def hub_ops
        intro!: all_reqs_and_then all_reqs_restart all_reqs_delete_each split: sum.splits option.splits)
qed

lemma manage_not_unmanaging: "all_reqs (\<lambda>q. \<not> unmanaging q) (manage_spoke L r sc)"
proof -
  have reads: "all_reqs (\<lambda>q. \<not> unmanaging q) p" if "read_only p" for p :: "'b prog"
    by (rule all_reqs_mono [OF that not_unmanaging_reads])
  have adapters: "all_reqs (\<lambda>q. \<not> unmanaging q) (reconcileAdapters L r sc (Spoke cfg) cfg')" for sc cfg cfg'
    by (rule all_reqs_mono [OF manage_req_reconcileAdapters not_managing_reads(2)])
  have standing: "all_reqs (\<lambda>q. \<not> unmanaging q) (ensureStandingKubeconfig L r cfg sc)"
    "all_reqs (\<lambda>q. \<not> unmanaging q) (loadStandingKubeconfig L r sc)" for cfg sc
    by (rule all_reqs_mono [OF manage_reqs(1) not_managing_reads(2)], assumption,
        rule all_reqs_mono [OF manage_reqs(2) not_managing_reads(2)])
  have finish: "all_reqs (\<lambda>q. \<not> unmanaging q) (finish_adapters L r sc (Spoke cfg) cfg')" for sc cfg cfg'
    by (auto simp: finish_adapters_def Let_def intro!: all_reqs_and_then adapters status_reqs split: option.splits)
  have provision: "all_reqs (\<lambda>q. \<not> unmanaging q) (Provision c)" for c
    by (simp add: Provision_def all_reqs_create_each)
  have connect: "all_reqs (\<lambda>q. \<not> unmanaging q) (connect_and_provision L r sc cfg)" for sc cfg
    unfolding connect_and_provision_def Let_def
    by (auto intro!: all_reqs_and_then [OF reads [OF connectivity_reads(1)]] all_reqs_seq [OF reads [OF client_reads(1)]] status_reqs
        all_reqs_and_then [OF provision] finish split: option.splits sum.splits dest!: client_target)
  show ?thesis unfolding manage_spoke_def Let_def
    by (auto intro!: all_reqs_and_then reads [OF credential_source.source_read_only [OF source]] standing connect status_reqs
        split: option.splits sum.splits)
qed

lemma unmanage_not_managing:
  "all_reqs (\<lambda>q. \<not> managing q) (unmanageSpoke L r sc rs m)" "all_reqs (\<lambda>q. \<not> managing q) (reconcileDelete L r sc)"
  by (auto simp: unmanageSpoke_def reconcileDelete_def Let_def intro!: all_reqs_and_then cleanup_not_managing status_reqs
      split: sum.splits option.splits)

lemma guarded_Spoke_Reconcile:
  assumes "finalizers L"
  shows "guarded (\<lambda>E q. managing q \<longrightarrow> managed key E) {} (Spoke_Reconcile L r key)"
proof -
  show ?thesis
    by (auto simp: Spoke_Reconcile_def hub_ops resp_obj_Inr finalizers.contains_finalizer [OF assms]
        intro!: guarded_not_managing [OF unmanage_not_managing(1)] guarded_not_managing [OF unmanage_not_managing(2)]
        intro: guarded_managed [OF managedI] split: sum.splits)
qed

end

text \<open>
  C3.  A spoke is only worked on while it is to be managed.  Creating anything on the hub or on
  a spoke, writing a Secret, and requesting a token are all preceded, in the same run, by reading
  the SpokeCluster without a deletion mark and with the finalizer, and a live HubConfig whose mode
  is that of its credential source.
\<close>

theorem spoke_manages_only_when_managed:
  assumes "finalizers L" and "spoke_fields r" and "exec (Spoke_Reconcile L r key) (t1 @ (q, a) # t2) z" and "managing q"
  shows "managed key (set t1)"
  using guarded_exec [OF assms(3) spoke_fields.guarded_Spoke_Reconcile [OF assms(2,1)] refl] assms(4) by simp

definition finalized_spoke :: spokecluster where
  "finalized_spoke = edge_spoke\<lparr>sc_meta := (sc_meta edge_spoke)\<lparr>m_finalizers := [spokeClusterFinalizer]\<rparr>\<rparr>"

definition secret_hubconfig :: hubconfig where
  "secret_hubconfig = \<lparr>hc_meta = new_meta [] ''cluster'', hc_spec = \<lparr>hs_mode = ClusterRegistryModeSecret, hs_mce = None\<rparr>\<rparr>"

text \<open>A credential source that has the configuration at hand.\<close>

definition fixed_source :: "spokecluster \<Rightarrow> (go_error + rest_config) prog" where
  "fixed_source sc = Ret (Inr spoke_config)"

definition fixed_reconciler :: spoke_reconciler where
  "fixed_reconciler = NewSpokeClusterReconciler ref_lib fixed_source ''hub''"

lemma fixed_reconciler_sel [simp]:
  "sr_credentialSource fixed_reconciler = fixed_source" "sr_operatorNamespace fixed_reconciler = ''hub''" "sr_recorder fixed_reconciler = False"
  "sr_NewSpokeClient fixed_reconciler = defaultNewSpokeClient" "sr_CheckConnectivity fixed_reconciler = defaultCheckConnectivity"
  "sr_DiscoverAlertmanagerURL fixed_reconciler = defaultDiscoverAlertmanagerURL ref_lib" "sr_RequestSAToken fixed_reconciler = defaultRequestSAToken"
  by (simp_all add: fixed_reconciler_def)

lemma spoke_fields_fixed: "spoke_fields fixed_reconciler"
  unfolding fixed_reconciler_def by (rule spoke_fields_New) (unfold_locales, simp_all add: fixed_source_def)

lemma finalized_spoke_simps [simp]:
  "IsZero (m_deletion (sc_meta finalized_spoke))" "m_finalizers (sc_meta finalized_spoke) = [spokeClusterFinalizer]"
  "sc_name finalized_spoke = ''edge''" "credentialSourceMatchesMode finalized_spoke secret_hubconfig"
  "IsZero (m_deletion (hc_meta secret_hubconfig))" "sc_mce finalized_spoke = None"
  "okey (OSpokeCluster finalized_spoke) = ObjectKey [] ''edge''"
  by (simp_all add: finalized_spoke_def edge_spoke_def IsZero_def credentialSourceMatchesMode_def secret_hubconfig_def ObjectKeyFromObject_def)

definition timeout_error :: resp where
  "timeout_error = RErr \<lparr>err_reason = OtherReason, err_text = ''timeout''\<rparr>"

lemma standing_secret_built:
  "\<exists>new. BuildStandingKubeconfig ref_lib (spoke_config\<lparr>rc_Timeout := spokeDialTimeout\<rparr>) finalized_spoke (sp_apiServer (sc_spec finalized_spoke)) ''hub'' = Inr new"
  by (simp add: BuildStandingKubeconfig_def ref_Write_def ref_wf_config_def buildKubeconfigAPI_def ref_SetControllerReference_def Let_def)

theorem spoke_manages_only_when_managed_witness:
  "\<exists>t1 q a t2 z. exec (Spoke_Reconcile ref_lib fixed_reconciler (ObjectKey [] ''edge'')) (t1 @ (q, a) # t2) z \<and> managing q \<and>
    managed (ObjectKey [] ''edge'') (set t1)"
proof -
  obtain new where new: "BuildStandingKubeconfig ref_lib (spoke_config\<lparr>rc_Timeout := spokeDialTimeout\<rparr>) finalized_spoke
      (sp_apiServer (sc_spec finalized_spoke)) ''hub'' = Inr new"
    using standing_secret_built by blast
  let ?t1 = "[(Get Hub KSpokeCluster (ObjectKey [] ''edge''), RObj (OSpokeCluster finalized_spoke)),
    (Get Hub KHubConfig (ObjectKey [] ''cluster''), RObj (OHubConfig secret_hubconfig))]"
  let ?t2 = "[(Get Hub KSpokeCluster (ObjectKey [] ''edge''), timeout_error)]"
  have key: "okey (OSpokeCluster (setCondition ref_lib sc ty st rs m)) = okey (OSpokeCluster sc)" for sc ty st rs m
    by (simp add: setCondition_def ObjectKeyFromObject_def)
  have "\<exists>z. exec (Spoke_Reconcile ref_lib fixed_reconciler (ObjectKey [] ''edge'')) (?t1 @ (Create Hub (OSecret new), timeout_error) # ?t2) z"
    by (simp add: Spoke_Reconcile_def manage_spoke_def fixed_source_def ensureStandingKubeconfig_def hub_ops exec_simps Let_def
        timeout_error_def failWithCondition_def patchStatus_def key new)
  then obtain z where z: "exec (Spoke_Reconcile ref_lib fixed_reconciler (ObjectKey [] ''edge'')) (?t1 @ (Create Hub (OSecret new), timeout_error) # ?t2) z" ..
  have "managed (ObjectKey [] ''edge'') (set ?t1)"
    by (rule spoke_manages_only_when_managed [OF ref_library.finalizers_axioms spoke_fields_fixed z]) simp
  with z show ?thesis by (metis managing_simps(1))
qed

section \<open>Cleaning up\<close>

text \<open>
  C4.  Whatever is deleted, or reported as a failed cleanup, belongs to a spoke that has the finalizer and either is
  being deleted, or is not to be managed: the HubConfig was not found, is being deleted, or
  says another mode than the credential source has.
\<close>

theorem spoke_cleans_up_only_when_unmanaged:
  assumes "finalizers L" and "spoke_fields r" and "exec (Spoke_Reconcile L r key) t z" and "(q, a) \<in> set t" and "unmanaging q"
  shows "\<exists>sc t'. t = (Get Hub KSpokeCluster key, RObj (OSpokeCluster sc)) # t' \<and> spokeClusterFinalizer \<in> set (m_finalizers (sc_meta sc)) \<and>
    (\<not> IsZero (m_deletion (sc_meta sc)) \<or>
     (\<exists>b t''. t' = (Get Hub KHubConfig (ObjectKey [] ''cluster''), b) # t'' \<and>
       ((\<exists>e. b = RErr e \<and> IsNotFound e) \<or>
        (\<exists>hc. b = RObj (OHubConfig hc) \<and> (\<not> IsZero (m_deletion (hc_meta hc)) \<or> \<not> credentialSourceMatchesMode sc hc)))))"
proof -
  note c = finalizers.contains_finalizer [OF assms(1)]
  have m: "(q, a) \<notin> set t'" if "exec (manage_spoke L r sc) t' z" for t' sc
    using all_reqs_exec [OF that spoke_fields.manage_not_unmanaging [OF assms(2)]] assms(5) by blast
  from assms(3,4,5) m show ?thesis
    by (fastforce simp: Spoke_Reconcile_def hub_ops exec_simps c resp_obj_Inr resp_obj_Inl reconcileDelete_def)
qed

definition deleted_spoke :: spokecluster where
  "deleted_spoke = finalized_spoke\<lparr>sc_meta := (sc_meta finalized_spoke)\<lparr>m_deletion := Some 0\<rparr>\<rparr>"

lemma deleted_spoke_simps [simp]:
  "\<not> IsZero (m_deletion (sc_meta deleted_spoke))" "m_finalizers (sc_meta deleted_spoke) = [spokeClusterFinalizer]"
  "sc_name deleted_spoke = ''edge''"
  by (simp_all add: deleted_spoke_def IsZero_def zero_time_def)

theorem spoke_cleans_up_only_when_unmanaged_witness:
  "\<exists>t z q a. exec (Spoke_Reconcile ref_lib fixed_reconciler (ObjectKey [] ''edge'')) t z \<and> (q, a) \<in> set t \<and> unmanaging q \<and>
    (\<exists>sc t'. t = (Get Hub KSpokeCluster (ObjectKey [] ''edge''), RObj (OSpokeCluster sc)) # t')"
proof -
  let ?del = "\<lambda>k. (Delete Hub KSecret k, ROk)"
  let ?t = "[(Get Hub KSpokeCluster (ObjectKey [] ''edge''), RObj (OSpokeCluster deleted_spoke)),
    (Get Hub KSecret (standing_key fixed_reconciler deleted_spoke), timeout_error), ?del (standing_key fixed_reconciler deleted_spoke),
    ?del (adapter_key fixed_reconciler deleted_spoke), (Get Hub KDeployment (ObjectKey ''hub'' adapterName), timeout_error),
    (Update Hub (OSpokeCluster (deleted_spoke\<lparr>sc_meta := lib_RemoveFinalizer ref_lib (sc_meta deleted_spoke) spokeClusterFinalizer\<rparr>)), ROk)]"
  have "\<exists>z. exec (Spoke_Reconcile ref_lib fixed_reconciler (ObjectKey [] ''edge'')) ?t z"
    by (simp add: Spoke_Reconcile_def reconcileDelete_def cleanupSpokeResources_def cleanup_spoke_side_def restartAdapterDeployment_def
        hub_ops exec_simps timeout_error_def update_result_def)
  then obtain z where z: "exec (Spoke_Reconcile ref_lib fixed_reconciler (ObjectKey [] ''edge'')) ?t z" ..
  let ?q = "Delete Hub KSecret (standing_key fixed_reconciler deleted_spoke)"
  have m: "(?q, ROk) \<in> set ?t" "unmanaging ?q" by simp_all
  from spoke_cleans_up_only_when_unmanaged [OF ref_library.finalizers_axioms spoke_fields_fixed z m] z m show ?thesis by blast
qed

text \<open>The hub side of a cleanup, after the spoke side returned.\<close>

definition failure_event :: "spoke_reconciler \<Rightarrow> spokecluster \<Rightarrow> bool \<Rightarrow> req list" where
  "failure_event r sc failed = (if failed \<and> sr_recorder r
     then [Eventf (sc_name sc) ''Warning'' ''SpokeCleanupFailed''
       ''Spoke-side cleanup failed (check operator logs for details); hub-side cleanup proceeded'']
     else [])"

lemma ex_events:
  "(\<exists>th. map fst th = [] \<and> P th) \<longleftrightarrow> P []"
  "(\<exists>th :: event list. map fst th = q # qs \<and> P' th) \<longleftrightarrow> (\<exists>a th. map fst th = qs \<and> P' ((q, a) # th))"
  by (auto simp: map_eq_Cons_conv)

lemma exec_cleanup:
  assumes "spoke_fields r"
  shows "exec (cleanupSpokeResources L r sc) t z \<longleftrightarrow>
    (\<exists>ts failed th tr e. exec (cleanup_spoke_side L r sc) ts (Done failed) \<and>
      map fst th = failure_event r sc failed @ [Delete Hub KSecret (standing_key r sc), Delete Hub KSecret (adapter_key r sc)] \<and>
      exec (restartAdapterDeployment (sr_operatorNamespace r)) tr (Done e) \<and> t = ts @ th @ tr \<and> z = Done ())"
proof -
  have np: "never_panics (cleanup_spoke_side L r sc)"
    using spoke_fields.client_reads(2) [OF assms]
    by (auto simp: cleanup_spoke_side_def DeprovisionAdapter_def Deprovision_def hub_ops intro!: never_panics_and_then split: sum.splits option.splits)
  let ?hub = "\<lambda>failed. and_then (if failed \<and> sr_recorder r
      then Vis (Eventf (sc_name sc) ''Warning'' ''SpokeCleanupFailed''
        ''Spoke-side cleanup failed (check operator logs for details); hub-side cleanup proceeded'') (\<lambda>_. Ret ())
      else Ret ()) (\<lambda>_.
    and_then (client_delete Hub KSecret (standing_key r sc)) (\<lambda>_.
    and_then (client_delete Hub KSecret (adapter_key r sc)) (\<lambda>_.
    and_then (restartAdapterDeployment (sr_operatorNamespace r)) (\<lambda>_. Ret ()))))"
  have hub: "exec (?hub failed) t2 z \<longleftrightarrow> (\<exists>th tr e.
      map fst th = failure_event r sc failed @ [Delete Hub KSecret (standing_key r sc), Delete Hub KSecret (adapter_key r sc)] \<and>
      exec (restartAdapterDeployment (sr_operatorNamespace r)) tr (Done e) \<and> t2 = th @ tr \<and> z = Done ())" for failed t2
    by (cases "failed \<and> sr_recorder r")
      (auto simp: failure_event_def exec_Vis_iff exec_delete exec_seq_Ret [OF never_panics_restart] ex_events)
  have "exec (cleanupSpokeResources L r sc) t z \<longleftrightarrow>
      (\<exists>t1 t2 failed. t = t1 @ t2 \<and> exec (cleanup_spoke_side L r sc) t1 (Done failed) \<and> exec (?hub failed) t2 z)"
    unfolding cleanupSpokeResources_def exec_seq [OF np] by simp
  then show ?thesis unfolding hub by blast
qed

text \<open>
  C10.  Deleting a SpokeCluster that has the finalizer.  A run works through the spoke-side cleanup,
  then the deletes of both Secrets of the spoke, then the restart of the adapter, and last the
  update that takes the finalizer away and changes nothing else.  None of the earlier answers
  stops it: an unreachable spoke cannot hold up the deletion, and only the failure of that
  update is returned.
\<close>

theorem spoke_delete_runs:
  assumes "finalizers L" and "spoke_fields r"
    and "\<not> IsZero (m_deletion (sc_meta sc))" and "spokeClusterFinalizer \<in> set (m_finalizers (sc_meta sc))"
  shows "exec (Spoke_Reconcile L r key) ((Get Hub KSpokeCluster key, RObj (OSpokeCluster sc)) # t) z \<longleftrightarrow>
    (\<exists>ts failed th tr e m a. exec (cleanup_spoke_side L r sc) ts (Done failed) \<and>
      map fst th = failure_event r sc failed @ [Delete Hub KSecret (standing_key r sc), Delete Hub KSecret (adapter_key r sc)] \<and>
      exec (restartAdapterDeployment (sr_operatorNamespace r)) tr (Done e) \<and>
      m = lib_RemoveFinalizer L (sc_meta sc) spokeClusterFinalizer \<and>
      t = ts @ th @ tr @ [(Update Hub (OSpokeCluster (sc\<lparr>sc_meta := m\<rparr>)), a)] \<and>
      z = Done (no_requeue, map_option (\<lambda>e. Errorf [W (CtrlErr ErrRemovingFinalizer), S '': '', W (ApiErr e)]) (resp_error a)))" (is "?l \<longleftrightarrow> ?r")
proof -
  let ?sc = "sc\<lparr>sc_meta := lib_RemoveFinalizer L (sc_meta sc) spokeClusterFinalizer\<rparr>"
  have opt: "(case x of Some e \<Rightarrow> (no_requeue, Some (f e)) | None \<Rightarrow> (no_requeue, None)) = (no_requeue, map_option f x)" for x :: "api_error option" and f :: "api_error \<Rightarrow> go_error"
    by (cases x) simp_all
  have "?l \<longleftrightarrow>
      (\<exists>t1 t2. t = t1 @ t2 \<and> exec (cleanupSpokeResources L r sc) t1 (Done ()) \<and> (\<exists>a. t2 = [(Update Hub (OSpokeCluster ?sc), a)] \<and>
        z = Done (no_requeue, map_option (\<lambda>e. Errorf [W (CtrlErr ErrRemovingFinalizer), S '': '', W (ApiErr e)]) (resp_error a))))"
    using assms(3,4)
    by (simp add: Spoke_Reconcile_def reconcileDelete_def hub_ops exec_get finalizers.contains_finalizer [OF assms(1)]
        exec_seq [OF spoke_fields.never_panics_cleanup [OF assms(2)]] exec_update_then opt)
  also have "\<dots> \<longleftrightarrow> ?r" unfolding exec_cleanup [OF assms(2)] by (auto 0 0) (metis append_assoc)+
  finally show ?thesis .
qed

theorem spoke_delete_runs_witness:
  "\<exists>t. exec (Spoke_Reconcile ref_lib fixed_reconciler (ObjectKey [] ''edge''))
    ((Get Hub KSpokeCluster (ObjectKey [] ''edge''), RObj (OSpokeCluster deleted_spoke)) # t) (Done (no_requeue, None))"
proof -
  obtain ts failed where ts: "exec (cleanup_spoke_side ref_lib fixed_reconciler deleted_spoke) ts (Done failed)"
  proof
    show "exec (cleanup_spoke_side ref_lib fixed_reconciler deleted_spoke)
        [(Get Hub KSecret (standing_key fixed_reconciler deleted_spoke), timeout_error)] (Done True)"
      by (simp add: cleanup_spoke_side_def hub_ops exec_simps timeout_error_def)
  qed
  obtain tr e where tr: "exec (restartAdapterDeployment ''hub'') tr (Done e)"
    using exec_exists [of "restartAdapterDeployment ''hub''"] never_panics_exec [OF never_panics_restart] by (metis outcome.exhaust)
  let ?th = "map (\<lambda>q. (q, ROk)) (failure_event fixed_reconciler deleted_spoke failed @
    [Delete Hub KSecret (standing_key fixed_reconciler deleted_spoke), Delete Hub KSecret (adapter_key fixed_reconciler deleted_spoke)])"
  let ?u = "(Update Hub (OSpokeCluster (deleted_spoke\<lparr>sc_meta := lib_RemoveFinalizer ref_lib (sc_meta deleted_spoke) spokeClusterFinalizer\<rparr>)), ROk)"
  have "map fst ?th = failure_event fixed_reconciler deleted_spoke failed @
    [Delete Hub KSecret (standing_key fixed_reconciler deleted_spoke), Delete Hub KSecret (adapter_key fixed_reconciler deleted_spoke)]"
    by (simp add: comp_def)
  with ts tr show ?thesis
    by (intro exI [of _ "ts @ ?th @ tr @ [?u]"],
        subst spoke_delete_runs [OF ref_library.finalizers_axioms spoke_fields_fixed]) (simp, simp, force)
qed

section \<open>When a spoke is reported ready\<close>

definition ready_true :: "spokecluster \<Rightarrow> bool" where
  "ready_true sc \<longleftrightarrow> map_option c_status (condition_of conditionTypeReady (sc_conditions sc)) = Some ConditionTrue"

text \<open>Objects that were created or existed already.\<close>

definition in_place :: "target \<Rightarrow> obj list \<Rightarrow> event set \<Rightarrow> bool" where
  "in_place c xs E \<longleftrightarrow> (\<forall>x \<in> set xs. \<exists>a. (Create c x, a) \<in> E \<and> create_failure a = None)"

text \<open>The SpokeCluster as it was read in this run, with whatever conditions have been set on the copy since.\<close>

definition read_from :: "object_key \<Rightarrow> event set \<Rightarrow> spokecluster \<Rightarrow> bool" where
  "read_from key E sc \<longleftrightarrow> (\<exists>sc0 cs. (Get Hub KSpokeCluster key, RObj (OSpokeCluster sc0)) \<in> E \<and> sc = sc0\<lparr>sc_conditions := cs\<rparr>)"

text \<open>
  A Secret is stored: it was created, or an existing one was read that does not differ, or an update of the existing one to the
  data and the owners wanted was accepted.
\<close>

definition secret_stored :: "secret \<Rightarrow> (secret \<Rightarrow> bool) \<Rightarrow> event set \<Rightarrow> bool" where
  "secret_stored new changed E \<longleftrightarrow>
    (\<exists>a. (Create Hub (OSecret new), a) \<in> E \<and> resp_error a = None) \<or>
    (\<exists>old. (Get Hub KSecret (okey (OSecret new)), RObj (OSecret old)) \<in> E \<and>
      (changed old \<longrightarrow> (\<exists>a. (Update Hub (OSecret (old\<lparr>s_data := s_data new,
        s_meta := (s_meta old)\<lparr>m_owners := m_owners (s_meta new)\<rparr>\<rparr>)), a) \<in> E \<and> resp_error a = None)))"

text \<open>
  The adapter credential of the spoke is stored on the hub: the Secret built from the token that was kept or issued, from the
  URL of the Alertmanager as the spoke showed it, and from its ingress CA.
\<close>

definition credential_stored :: "k8s_lib \<Rightarrow> spoke_reconciler \<Rightarrow> spokecluster \<Rightarrow> rest_config \<Rightarrow> event set \<Rightarrow> bool" where
  "credential_stored L r sc cfg E \<longleftrightarrow> (\<exists>tt tu tc token expiry url ca new. set tt \<union> set tu \<union> set tc \<subseteq> E \<and>
     exec (resolveAdapterToken r sc cfg) tt (Done (Inr (token, expiry))) \<and>
     exec (sr_DiscoverAlertmanagerURL r (Spoke cfg)) tu (Done (Inr url)) \<and>
     exec (readIngressCA (Spoke cfg)) tc (Done ca) \<and>
     BuildAdapterCredentialSecret L sc url token (Format_RFC3339 expiry) ca (sr_operatorNamespace r) = Inr new \<and>
     secret_stored new (adapter_changed new) E)"

text \<open>
  The adapter knows of the spoke: the SpokeCluster already has the label that names the credential, or an update that sets it was
  accepted and the adapter was restarted (or not deployed).
\<close>

definition adapter_informed :: "spoke_reconciler \<Rightarrow> spokecluster \<Rightarrow> event set \<Rightarrow> bool" where
  "adapter_informed r sc E \<longleftrightarrow> go_str (m_labels (sc_meta sc)) AdapterCredentialLabel = AdapterCredentialName (sc_name sc) \<or>
    (\<exists>x a l tr. (Update Hub (OSpokeCluster x), a) \<in> E \<and> resp_error a = None \<and> m_labels (sc_meta x) = Some l \<and>
      map_of l AdapterCredentialLabel = Some (AdapterCredentialName (sc_name sc)) \<and>
      set tr \<subseteq> E \<and> exec (restartAdapterDeployment (sr_operatorNamespace r)) tr (Done None))"

definition ready_evidence :: "k8s_lib \<Rightarrow> spoke_reconciler \<Rightarrow> object_key \<Rightarrow> event set \<Rightarrow> bool" where
  "ready_evidence L r key E \<longleftrightarrow> (\<exists>sc cfg. read_from key E sc \<and> answered cfg E \<and>
     in_place (Spoke cfg) (map fst provision_calls @ map fst provision_adapter_calls) E \<and>
     credential_stored L r sc cfg E \<and> adapter_informed r sc E)"

text \<open>The API server keeps at most one condition for each type.\<close>

definition unique_conditions :: "event set \<Rightarrow> bool" where
  "unique_conditions E \<longleftrightarrow> (\<forall>q sc. (q, RObj (OSpokeCluster sc)) \<in> E \<longrightarrow> distinct (map c_type (sc_conditions sc)))"

definition tame :: "event set \<Rightarrow> spokecluster \<Rightarrow> bool" where
  "tame E sc \<longleftrightarrow> (unique_conditions E \<longrightarrow> distinct (map c_type (sc_conditions sc)))"

definition ready_ok :: "k8s_lib \<Rightarrow> spoke_reconciler \<Rightarrow> object_key \<Rightarrow> event set \<Rightarrow> req \<Rightarrow> bool" where
  "ready_ok L r key E q = (case q of StatusPatch b n \<Rightarrow> unique_conditions E \<longrightarrow> ready_true n \<longrightarrow> ready_evidence L r key E | _ \<Rightarrow> True)"

lemma evidence_mono:
  "E \<subseteq> E' \<Longrightarrow> answered cfg E \<Longrightarrow> answered cfg E'" "E \<subseteq> E' \<Longrightarrow> in_place c xs E \<Longrightarrow> in_place c xs E'"
  "E \<subseteq> E' \<Longrightarrow> ready_evidence L r key E \<Longrightarrow> ready_evidence L r key E'" "E \<subseteq> E' \<Longrightarrow> unique_conditions E' \<Longrightarrow> unique_conditions E"
  "E \<subseteq> E' \<Longrightarrow> credential_stored L r sc cfg E \<Longrightarrow> credential_stored L r sc cfg E'" "E \<subseteq> E' \<Longrightarrow> adapter_informed r sc E \<Longrightarrow> adapter_informed r sc E'"
  "E \<subseteq> E' \<Longrightarrow> read_from key E sc \<Longrightarrow> read_from key E' sc"
proof -
  show a: "E \<subseteq> E' \<Longrightarrow> answered cfg E \<Longrightarrow> answered cfg E'" for cfg by (auto simp: answered_def)
  show i: "E \<subseteq> E' \<Longrightarrow> in_place c xs E \<Longrightarrow> in_place c xs E'" for c xs unfolding in_place_def by blast
  have s: "E \<subseteq> E' \<Longrightarrow> secret_stored new f E \<Longrightarrow> secret_stored new f E'" for new f unfolding secret_stored_def by blast
  have c: "E \<subseteq> E' \<Longrightarrow> credential_stored L r sc cfg E \<Longrightarrow> credential_stored L r sc cfg E'" for sc cfg
    unfolding credential_stored_def using s by (meson subset_trans)
  have l: "E \<subseteq> E' \<Longrightarrow> adapter_informed r sc E \<Longrightarrow> adapter_informed r sc E'" for sc
    unfolding adapter_informed_def by (meson subset_trans subsetD)
  have f: "E \<subseteq> E' \<Longrightarrow> read_from key E sc \<Longrightarrow> read_from key E' sc" for sc unfolding read_from_def by blast
  show "E \<subseteq> E' \<Longrightarrow> credential_stored L r sc cfg E \<Longrightarrow> credential_stored L r sc cfg E'" "E \<subseteq> E' \<Longrightarrow> adapter_informed r sc E \<Longrightarrow> adapter_informed r sc E'"
    "E \<subseteq> E' \<Longrightarrow> read_from key E sc \<Longrightarrow> read_from key E' sc" by (fact c l f)+
  show "E \<subseteq> E' \<Longrightarrow> ready_evidence L r key E \<Longrightarrow> ready_evidence L r key E'" unfolding ready_evidence_def using a i c l f by meson
  show "E \<subseteq> E' \<Longrightarrow> unique_conditions E' \<Longrightarrow> unique_conditions E" unfolding unique_conditions_def by blast
qed

lemma tame_mono: "tame E sc \<Longrightarrow> E \<subseteq> E' \<Longrightarrow> tame E' sc"
  unfolding tame_def using evidence_mono(4) by blast

lemma tame_union [intro]: "tame E sc \<Longrightarrow> tame (E \<union> E') sc"
  by (rule tame_mono) auto

lemma ready_ok_simps [simp]:
  "ready_ok L r key E (Get c k key')" "ready_ok L r key E (Update c x)" "ready_ok L r key E (Delete c k key')" "ready_ok L r key E (Eventf e1 e2 e3 e4)"
  by (simp_all add: ready_ok_def)

lemma ready_ok_no_patch: "all_reqs (\<lambda>q. \<forall>b n. q \<noteq> StatusPatch b n) p \<Longrightarrow> guarded (ready_ok L r key) E p"
  by (erule guarded_all_reqs) (auto simp: ready_ok_def split: req.split)

lemma not_patch: "\<not> is_write q \<Longrightarrow> q \<noteq> StatusPatch b n" "manage_req q \<Longrightarrow> q \<noteq> StatusPatch b n"
  by (auto simp: manage_req_def)

lemma ready_ok_reads: "read_only p \<Longrightarrow> guarded (ready_ok L r key) E p" "all_reqs manage_req p \<Longrightarrow> guarded (ready_ok L r key) E p"
  by (rule ready_ok_no_patch, erule all_reqs_mono, simp add: not_patch)+

lemma in_place_created: "exec (create_each c calls) t (Done None) \<Longrightarrow> in_place c (map fst calls) (set t)"
proof -
  assume "exec (create_each c calls) t (Done None)"
  then have "created_all c (map fst calls) t" by (rule exec_create_each) auto
  then have q: "map fst t = map (Create c) (map fst calls)" and ok: "\<forall>(q, r) \<in> set t. create_failure r = None"
    by (simp_all add: created_all_def)
  have "\<exists>a. (Create c x, a) \<in> set t" if "x \<in> set (map fst calls)" for x
  proof -
    have "Create c x \<in> set (map fst t)" unfolding q using that by (simp only: set_map imageI)
    then show ?thesis by auto
  qed
  with ok show ?thesis unfolding in_place_def by blast
qed

lemma same_conditions_status:
  "same_conditions a b \<Longrightarrow> map_option c_status (condition_of ty a) = map_option c_status (condition_of ty b)"
proof -
  assume "same_conditions a b"
  then have "rel_option same_condition (condition_of ty a) (condition_of ty b)" by (simp add: same_conditions_def)
  then show ?thesis by (cases rule: option.rel_cases) (auto simp: same_condition_def)
qed

context status_conditions
begin

lemma ready_setCondition:
  "ready_true (setCondition L sc ty st rs m) \<longleftrightarrow> (if ty = conditionTypeReady then st = ConditionTrue else ready_true sc)"
proof -
  let ?c = "new_condition sc ty st rs m"
  have t: "c_type ?c = ty" "c_status ?c = st" by (simp_all add: new_condition_def)
  from condition_of_set(1) [of ?c "sc_conditions sc"] condition_of_set(2) [of conditionTypeReady ?c "sc_conditions sc"] t
  show ?thesis by (auto simp: ready_true_def setCondition_def same_condition_def)
qed

lemma distinct_setCondition:
  "distinct (map c_type (sc_conditions sc)) \<Longrightarrow> distinct (map c_type (sc_conditions (setCondition L sc ty st rs m)))"
  unfolding setCondition_def by (simp add: distinct_set_condition)

lemma tame_setCondition [intro]: "tame E sc \<Longrightarrow> tame E (setCondition L sc ty st rs m)"
  unfolding tame_def by (simp add: distinct_setCondition)

lemma ready_remove_condition:
  "ty \<noteq> conditionTypeReady \<Longrightarrow> ready_true (remove_condition L ty sc) \<longleftrightarrow> ready_true sc"
  "tame E sc \<Longrightarrow> tame E (remove_condition L ty sc)"
  by (simp_all add: tame_def ready_true_def remove_condition_def remove_condition condition_of_filter [where P = "\<lambda>x. x \<noteq> ty"] distinct_map_filter)

lemma guarded_patchStatus:
  assumes "tame E sc" and "ready_true sc \<Longrightarrow> ready_evidence L r key E"
  shows "guarded (ready_ok L r key) E (patchStatus L sc)"
proof -
  let ?q = "Get Hub KSpokeCluster (okey (OSpokeCluster sc))"
  let ?new = "\<lambda>base. base\<lparr>sc_conditions := drop_conditions L (sc_conditions sc) (apply_conditions L (sc_conditions sc) (sc_conditions base))\<rparr>"
  have "ready_evidence L r key (insert (?q, RObj (OSpokeCluster base)) E)"
    if u: "unique_conditions (insert (?q, RObj (OSpokeCluster base)) E)" and rt: "ready_true (?new base)" for base
  proof -
    have d: "distinct (map c_type (sc_conditions base))" using u by (auto simp: unique_conditions_def)
    have "distinct (map c_type (sc_conditions sc))" using assms(1) u evidence_mono(4) [OF subset_insertI] unfolding tame_def by blast
    from same_conditions_status [OF merged_conditions(1) [OF this d]] rt have "ready_true sc" by (simp add: ready_true_def)
    then show ?thesis using assms(2) evidence_mono(3) [OF subset_insertI] by blast
  qed
  then show ?thesis
    by (auto simp: patchStatus_def hub_ops Let_def resp_obj_Inr ready_ok_def split: sum.split)
qed

lemma guarded_failures:
  assumes "tame E sc"
  shows "guarded (ready_ok L r key) E (failWithCondition L sc ty rs e)" "guarded (ready_ok L r key) E (handleConnectivityFailure L sc e)"
  using assms by (auto simp: failWithCondition_def handleConnectivityFailure_def Let_def ready_setCondition
      intro!: guarded_seq guarded_patchStatus split: option.split)

end

lemma reconcileAdapters_result:
  assumes "spoke_fields r" and "exec (reconcileAdapters L r sc c cfg) t (Done (sc', e))"
  shows "sc_conditions sc' = sc_conditions sc" and "e = None \<Longrightarrow> in_place c (map fst provision_adapter_calls) (set t)"
proof -
  have label: "sc_conditions sc'' = sc_conditions sc" if "exec (label_and_restart r sc) t (Done (sc'', e))" for sc'' e t
    using that by (auto simp: label_and_restart_def ensureAdapterLabel_def hub_ops exec_seq exec_simps Let_def split: option.splits if_splits)
  have np: "never_panics (ProvisionAdapter c)" by (simp add: ProvisionAdapter_def)
  from assms(2) obtain t1 t2 pe where t: "t = t1 @ t2" "exec (ProvisionAdapter c) t1 (Done pe)"
    and rest: "pe = None \<and> sc_conditions sc' = sc_conditions sc \<or> (\<exists>x. pe = Some x \<and> sc' = sc \<and> e \<noteq> None)"
    using spoke_fields.never_panics_resolve [OF assms(1)] spoke_fields.discover_reads(2) [OF assms(1)]
    by (auto simp: reconcileAdapters_def exec_seq [OF np] exec_case_option exec_case_sum exec_case_prod exec_seq dest!: label)
  from rest show "sc_conditions sc' = sc_conditions sc" by auto
  show "in_place c (map fst provision_adapter_calls) (set t)" if "e = None"
    using rest that t in_place_created [of c provision_adapter_calls t1] evidence_mono(2) [of "set t1" "set t"]
    by (auto simp: ProvisionAdapter_def)
qed

lemma exec_ensure_secret: "exec (ensure_secret new changed ec eg eu) t (Done None) \<Longrightarrow> secret_stored new changed (set t)"
  by (auto simp: ensure_secret_def secret_stored_def hub_ops exec_simps resp_obj_Inr dest!: update_result_Inr split: if_splits)

lemma exec_label_and_restart:
  assumes "exec (label_and_restart r sc) t (Done (sc', None))"
  shows "adapter_informed r sc (set t)"
proof -
  from assms obtain t1 t2 sc1 lres where t1: "t = t1 @ t2" "exec (ensureAdapterLabel sc) t1 (Done (sc1, lres))"
    and rest: "exec (case lres of Inl err \<Rightarrow> Ret (sc1, Some (Errorf [W (CtrlErr ErrLabelingSpokeCluster), S '': '', W err]))
      | Inr changed \<Rightarrow> if changed then and_then (restartAdapterDeployment (sr_operatorNamespace r)) (\<lambda>rerr. case rerr of
            Some err \<Rightarrow> Ret (sc1, Some (Errorf [W (CtrlErr ErrRestartingAdapter), S '': '', W err])) | None \<Rightarrow> Ret (sc1, None))
          else Ret (sc1, None)) t2 (Done (sc', None))"
    by (auto simp: label_and_restart_def exec_seq)
  from rest obtain ch where lres: "lres = Inr ch" by (cases lres) simp_all
  have restart: "exec (restartAdapterDeployment (sr_operatorNamespace r)) t2 (Done None)" and same: "sc1 = sc'" if ch
    using rest that unfolding lres by (auto simp: exec_seq exec_case_option split: option.splits)
  have "sc1 = sc'" if "\<not> ch" using rest that unfolding lres by simp
  with same t1 lres have t: "t = t1 @ t2" "exec (ensureAdapterLabel sc) t1 (Done (sc', Inr ch))" by (cases ch; simp)+
  show ?thesis
  proof (cases ch)
    case False
    have init: "(case m of None \<Rightarrow> Some [] | Some l \<Rightarrow> Some l) = Some (case m of None \<Rightarrow> [] | Some l \<Rightarrow> l)" for m :: "string go_map option"
      by (cases m) simp_all
    from t(2) False have "go_str (m_labels (sc_meta sc)) AdapterCredentialLabel = AdapterCredentialName (sc_name sc)"
      unfolding ensureAdapterLabel_def Let_def init map_put_Some by (auto simp: hub_ops exec_simps split: if_splits)
    then show ?thesis by (simp add: adapter_informed_def)
  next
    case True
    from ensureAdapterLabel_changed [OF t(2) [unfolded eqTrueI [OF True]]] obtain l x a u
      where "(Update Hub (OSpokeCluster x), a) \<in> set t1" "update_result (OSpokeCluster x) a = Inr u" "m_labels (sc_meta x) = Some l"
        "map_of l AdapterCredentialLabel = Some (AdapterCredentialName (sc_name sc))" by blast
    with restart True t(1) update_result_Inr show ?thesis unfolding adapter_informed_def
      by (intro disjI2 exI [of _ x] exI [of _ a] exI [of _ l] exI [of _ t2]) auto
  qed
qed

lemma reconcileAdapters_stores:
  assumes "spoke_fields r" and "exec (reconcileAdapters L r sc (Spoke cfg) cfg) t (Done (sc', None))"
  shows "credential_stored L r sc cfg (set t)" and "adapter_informed r sc (set t)"
proof -
  have np: "never_panics (ProvisionAdapter c)" "never_panics (readIngressCA c)" for c
    by (auto simp: ProvisionAdapter_def readIngressCA_def hub_ops intro!: never_panics_and_then split: sum.split option.split)
  from assms(2) obtain t1 tt tu tc te tl token expiry url ca where t: "t = t1 @ tt @ tu @ tc @ te @ tl"
    and e: "exec (resolveAdapterToken r sc cfg) tt (Done (Inr (token, expiry)))" "exec (sr_DiscoverAlertmanagerURL r (Spoke cfg)) tu (Done (Inr url))"
      "exec (readIngressCA (Spoke cfg)) tc (Done ca)"
    and s: "exec (ensureAdapterCredentialSecret L r sc url token (Format_RFC3339 expiry) ca) te (Done None)"
    and l: "exec (label_and_restart r sc) tl (Done (sc', None))"
    using spoke_fields.never_panics_resolve [OF assms(1)] spoke_fields.discover_reads(2) [OF assms(1)] np
    by (auto simp: reconcileAdapters_def exec_seq exec_case_option exec_case_sum exec_case_prod)
  show "adapter_informed r sc (set t)" using t by (intro evidence_mono(6) [OF _ exec_label_and_restart [OF l]]) auto
  obtain new where new: "BuildAdapterCredentialSecret L sc url token (Format_RFC3339 expiry) ca (sr_operatorNamespace r) = Inr new"
    using s by (auto simp: ensureAdapterCredentialSecret_def split: sum.splits)
  have "secret_stored new (adapter_changed new) (set te)"
    using s unfolding ensureAdapterCredentialSecret_eq [OF new] by (rule exec_ensure_secret)
  then have "secret_stored new (adapter_changed new) (set t)" using t unfolding secret_stored_def by auto
  with e new t show "credential_stored L r sc cfg (set t)" unfolding credential_stored_def
    by (intro exI [of _ tt] exI [of _ tu] exI [of _ tc] exI [of _ token] exI [of _ expiry] exI [of _ url] exI [of _ ca] exI [of _ new]) auto
qed

lemma cleanup_no_patch: "spoke_fields r \<Longrightarrow> all_reqs (\<lambda>q. \<forall>b n. q \<noteq> StatusPatch b n) (cleanupSpokeResources L r sc)"
proof -
  assume "spoke_fields r"
  then have "all_reqs (\<lambda>q. \<forall>b n. q \<noteq> StatusPatch b n) (sr_NewSpokeClient r cfg)" for cfg
    by (intro all_reqs_mono [OF spoke_fields.client_reads(1)]) (simp_all add: not_patch)
  then show ?thesis
    by (auto simp: cleanupSpokeResources_def cleanup_spoke_side_def DeprovisionAdapter_def Deprovision_def hub_ops
        intro!: all_reqs_and_then all_reqs_restart all_reqs_delete_each split: sum.splits option.splits)
qed

text \<open>The reconciler with function fields as the constructor sets them, over a library that meets its documentation.\<close>

locale spoke_controller = status_conditions L + spoke_fields r for L :: k8s_lib and r :: spoke_reconciler
begin

lemma read_from_setCondition [intro]: "read_from key E sc \<Longrightarrow> read_from key E (setCondition L sc ty st rs m)"
proof -
  assume "read_from key E sc"
  then obtain sc0 cs where "(Get Hub KSpokeCluster key, RObj (OSpokeCluster sc0)) \<in> E" "sc = sc0\<lparr>sc_conditions := cs\<rparr>"
    unfolding read_from_def by blast
  then show ?thesis unfolding read_from_def setCondition_def
    by (intro exI [of _ sc0] exI [of _ "lib_SetStatusCondition L (sc_conditions sc) (new_condition sc ty st rs m)"]) simp
qed

lemma read_from_union [intro]: "read_from key E sc \<Longrightarrow> read_from key (E \<union> E') sc"
  by (rule evidence_mono(7)) auto

lemma guarded_finish_adapters:
  assumes "tame E sc" and "read_from key E sc" and "answered cfg E" and "in_place (Spoke cfg) (map fst provision_calls) E"
  shows "guarded (ready_ok L r key) E (finish_adapters L r sc (Spoke cfg) cfg)"
  unfolding finish_adapters_def
proof (rule guarded_seq [OF ready_ok_reads(2) [OF manage_req_reconcileAdapters]], goal_cases)
  case (1 t x)
  obtain sc1 err where x: "x = (sc1, err)" by (cases x)
  note res = reconcileAdapters_result [OF spoke_fields_axioms 1 [unfolded x]]
  have "tame (E \<union> set t) sc1" using tame_union [OF assms(1)] by (simp add: tame_def res(1))
  moreover have "ready_evidence L r key (E \<union> set t)" if "err = None"
  proof -
    note stored = reconcileAdapters_stores [OF spoke_fields_axioms 1 [unfolded x that]]
    have "in_place (Spoke cfg) (map fst provision_calls @ map fst provision_adapter_calls) (E \<union> set t)"
      using assms(4) res(2) [OF that] unfolding in_place_def by auto
    moreover have "credential_stored L r sc cfg (E \<union> set t)" "adapter_informed r sc (E \<union> set t)"
      using evidence_mono(5) [OF _ stored(1)] evidence_mono(6) [OF _ stored(2)] by simp_all
    moreover have "answered cfg (E \<union> set t)" using assms(3) by (rule evidence_mono(1) [rotated]) simp
    ultimately show ?thesis using assms(2) unfolding ready_evidence_def by blast
  qed
  ultimately show ?case unfolding x Let_def
    by (auto intro!: guarded_failures guarded_seq guarded_patchStatus split: option.split)
qed

lemma guarded_provision:
  assumes "tame E sc" and "read_from key E sc" and "answered cfg E"
  shows "guarded (ready_ok L r key) E (and_then (Provision (Spoke cfg)) (\<lambda>perr. case perr of
      Some err \<Rightarrow> failWithCondition L sc ty rs err
    | None \<Rightarrow> finish_adapters L r (setCondition L sc ty' st rs' m) (Spoke cfg) cfg))"
proof (rule guarded_seq, goal_cases)
  case 1
  show ?case unfolding Provision_def by (rule ready_ok_reads(2), rule all_reqs_create_each) simp
next
  case (2 t perr)
  have "in_place (Spoke cfg) (map fst provision_calls) (E \<union> set t)" if "perr = None"
    using 2 that unfolding Provision_def by (intro evidence_mono(2) [OF _ in_place_created]) simp_all
  moreover have "answered cfg (E \<union> set t)" using assms(3) by (rule evidence_mono(1) [rotated]) simp
  ultimately show ?case using assms(1,2)
    by (auto intro!: guarded_failures guarded_finish_adapters split: option.split)
qed

lemma guarded_connect_and_provision:
  assumes "tame E sc" and "read_from key E sc"
  shows "guarded (ready_ok L r key) E (connect_and_provision L r sc cfg)"
  unfolding connect_and_provision_def Let_def
proof (rule guarded_seq [OF ready_ok_reads(1) [OF connectivity_reads(1)]], goal_cases)
  case (1 t1 cerr)
  show ?case
  proof (cases cerr)
    case None
    show ?thesis unfolding None option.case
    proof (rule guarded_seq [OF ready_ok_reads(1) [OF client_reads(1)]], goal_cases)
      case (1 t2 nres)
      have "answered cfg (E \<union> set t1 \<union> set t2)"
        using connectivity [OF \<open>exec (sr_CheckConnectivity r cfg) t1 (Done cerr)\<close> [unfolded None]] by (rule evidence_mono(1) [rotated]) auto
      with 1 assms show ?case
        by (auto dest!: client_target intro!: guarded_failures guarded_provision split: sum.split)
    qed
  qed (use assms in \<open>auto intro!: guarded_failures\<close>)
qed

lemma guarded_manage_spoke:
  assumes "tame E sc" and "read_from key E sc"
  shows "guarded (ready_ok L r key) E (manage_spoke L r sc)"
proof -
  have fail: "guarded (ready_ok L r key) (E \<union> E') (failWithCondition L sc ty rs err)" for E' ty rs err
    using assms by (auto intro!: guarded_failures)
  have load: "guarded (ready_ok L r key) (E \<union> E') (and_then (loadStandingKubeconfig L r sc) (\<lambda>lres. case lres of
      Inl err \<Rightarrow> failWithCondition L sc conditionTypeConnected reasonCredentialError err
    | Inr standingCfg \<Rightarrow> connect_and_provision L r sc standingCfg))" for E'
    by (rule guarded_seq [OF ready_ok_reads(2) [OF manage_reqs(2)]])
      (use assms in \<open>auto intro!: guarded_failures guarded_connect_and_provision split: sum.split\<close>)
  show ?thesis unfolding manage_spoke_def Let_def
    by (rule guarded_seq [OF ready_ok_reads(1) [OF credential_source.source_read_only [OF source]]])
      (auto simp: Un_assoc intro!: fail load guarded_seq [OF ready_ok_reads(2) [OF manage_reqs(1)]] split: sum.split option.split)
qed

lemma guarded_unmanage:
  assumes "tame E sc"
  shows "guarded (ready_ok L r key) E (unmanageSpoke L r sc rs m)" "guarded (ready_ok L r key) E (reconcileDelete L r sc)"
proof -
  note cleanup = ready_ok_no_patch [OF cleanup_no_patch [OF spoke_fields_axioms]]
  show "guarded (ready_ok L r key) E (reconcileDelete L r sc)"
    by (auto simp: reconcileDelete_def intro!: guarded_seq [OF cleanup] split: sum.split)
  show "guarded (ready_ok L r key) E (unmanageSpoke L r sc rs m)" unfolding unmanageSpoke_def Let_def
    by (rule guarded_seq [OF cleanup], rule guarded_seq [OF guarded_patchStatus])
      (use assms in \<open>auto intro!: ready_remove_condition(2) simp: ready_remove_condition(1) ready_setCondition hub_consts split: option.split\<close>)
qed

lemma guarded_ready: "guarded (ready_ok L r key) {} (Spoke_Reconcile L r key)"
proof -
  have "tame E sc" if "(q, RObj (OSpokeCluster sc)) \<in> E" for E sc q
    using that by (auto simp: tame_def unique_conditions_def)
  moreover have "read_from key E sc" if "(Get Hub KSpokeCluster key, RObj (OSpokeCluster sc)) \<in> E" for E sc
    using that unfolding read_from_def by (intro exI [of _ sc] exI [of _ "sc_conditions sc"]) simp
  ultimately have "guarded (ready_ok L r key) E (manage_spoke L r sc)" "guarded (ready_ok L r key) E (unmanageSpoke L r sc rs m)"
      "guarded (ready_ok L r key) E (reconcileDelete L r sc)" if "(Get Hub KSpokeCluster key, RObj (OSpokeCluster sc)) \<in> E" for E sc rs m
    using that by (blast intro: guarded_manage_spoke guarded_unmanage)+
  then show ?thesis
    by (auto simp: Spoke_Reconcile_def hub_ops resp_obj_Inr split: sum.split)
qed

end

interpretation default_controller: spoke_controller ref_lib
  "NewSpokeClusterReconciler ref_lib (Dispatching_GetRESTConfig ref_lib ns) opns" for ns opns
  by (intro spoke_controller.intro ref_library.status_conditions_axioms default_fields.spoke_fields_axioms)

text \<open>
  C2.  A spoke is reported ready only when it is.  When the reconciler patches the status of a
  SpokeCluster so that \<open>Ready\<close> is true, then before that, in the same run, the SpokeCluster was read; the spoke answered the
  version request; each of the spoke-side resources of the agent and of the adapter was
  created there or existed already; the adapter credential, built from the token kept or issued, the Alertmanager URL and the
  ingress CA of the spoke, was stored on the hub (created, found equal, or updated); and the label that tells the adapter of it was there, or was
  accepted and the adapter was restarted.
\<close>

theorem spoke_ready_is_honest:
  assumes "status_conditions L" and "spoke_fields r"
    and "exec (Spoke_Reconcile L r key) (t1 @ (StatusPatch base new, a) # t2) z"
    and "unique_conditions (set t1)" and "ready_true new"
  shows "ready_evidence L r key (set t1)"
  using guarded_exec [OF assms(3) spoke_controller.guarded_ready [OF spoke_controller.intro [OF assms(1,2)]] refl] assms(4,5)
  by (simp add: ready_ok_def)

text \<open>A run that ends with a ready spoke.\<close>

definition labelled_spoke :: spokecluster where
  "labelled_spoke = finalized_spoke\<lparr>sc_meta := (sc_meta finalized_spoke)\<lparr>m_labels := Some [(AdapterCredentialLabel, AdapterCredentialName ''edge'')]\<rparr>\<rparr>"

lemma labelled_spoke_simps [simp]:
  "IsZero (m_deletion (sc_meta labelled_spoke))" "m_finalizers (sc_meta labelled_spoke) = [spokeClusterFinalizer]"
  "sc_name labelled_spoke = ''edge''" "credentialSourceMatchesMode labelled_spoke secret_hubconfig" "sc_conditions labelled_spoke = []"
  "m_labels (sc_meta labelled_spoke) = Some [(AdapterCredentialLabel, AdapterCredentialName ''edge'')]"
  "okey (OSpokeCluster labelled_spoke) = ObjectKey [] ''edge''"
  by (simp_all add: labelled_spoke_def finalized_spoke_def edge_spoke_def IsZero_def credentialSourceMatchesMode_def secret_hubconfig_def
      ObjectKeyFromObject_def)

lemma exec_then: "exec p t1 (Done x) \<Longrightarrow> exec (f x) t2 z \<Longrightarrow> exec (and_then p f) (t1 @ t2) z"
  by (auto simp: exec_and_then_Done)

lemma exec_all_created: "exec (create_each c calls) (map (\<lambda>(x, w). (Create c x, ROk)) calls) (Done None)"
  by (induction calls) (auto simp: exec_create)

lemma setCondition_frame [simp]:
  "sc_meta (setCondition L sc ty st rs m) = sc_meta sc" "sc_spec (setCondition L sc ty st rs m) = sc_spec sc"
  "okey (OSpokeCluster (setCondition L sc ty st rs m)) = okey (OSpokeCluster sc)"
  by (simp_all add: setCondition_def ObjectKeyFromObject_def)

definition am_route :: unstructured where
  "am_route = \<lparr>u_gvk = alertmanager_route_gvk, u_meta = new_meta ''openshift-monitoring'' ''alertmanager-main'',
     u_object = JObj [(''spec'', JObj [(''host'', JStr ''am.spoke'')])]\<rparr>"

lemma patch_run:
  assumes "okey (OSpokeCluster sc) = ObjectKey [] ''edge''" "distinct (map c_type (sc_conditions sc))" "ready_true sc"
  shows "\<exists>new. ready_true new \<and> exec (patchStatus ref_lib sc)
    [(Get Hub KSpokeCluster (ObjectKey [] ''edge''), RObj (OSpokeCluster labelled_spoke)), (StatusPatch labelled_spoke new, ROk)] (Done None)"
proof -
  let ?cs = "drop_conditions ref_lib (sc_conditions sc) (apply_conditions ref_lib (sc_conditions sc) [])"
  have same: "same_conditions ?cs (sc_conditions sc)"
    by (rule ref_library.merged_conditions(1) [OF assms(2)]) simp
  have r: "ready_true (labelled_spoke\<lparr>sc_conditions := ?cs\<rparr>)"
    using same_conditions_status [OF same] assms(3) by (simp add: ready_true_def)
  then have "?cs \<noteq> []" by (auto simp: ready_true_def)
  then have "\<not> conditionsEqual ref_lib [] ?cs" by (simp add: conditionsEqual_def)
  then have "exec (patchStatus ref_lib sc) [(Get Hub KSpokeCluster (ObjectKey [] ''edge''), RObj (OSpokeCluster labelled_spoke)),
      (StatusPatch labelled_spoke (labelled_spoke\<lparr>sc_conditions := ?cs\<rparr>), ROk)] (Done None)"
    by (simp add: patchStatus_def hub_ops exec_simps assms(1) Let_def)
  with r show ?thesis by blast
qed

lemma finish_run:
  assumes "sc_meta sc = sc_meta labelled_spoke" "distinct (map c_type (sc_conditions sc))"
  shows "\<exists>t new. ready_true new \<and> unique_conditions (set t) \<and>
    exec (finish_adapters ref_lib fixed_reconciler sc (Spoke cfg) cfg) (t @ [(StatusPatch labelled_spoke new, ROk)]) (Done (no_requeue, None))"
proof -
  obtain sec where sec: "BuildAdapterCredentialSecret ref_lib sc ''https://am.spoke'' ''tok'' (Format_RFC3339 0) [] ''hub'' = Inr sec"
    using assms(1) by (simp add: BuildAdapterCredentialSecret_def ref_SetControllerReference_def labelled_spoke_def finalized_spoke_def edge_spoke_def Let_def)
  let ?t = "map (\<lambda>(x, w). (Create (Spoke cfg) x, ROk)) provision_adapter_calls @
    [(Get Hub KSecret (adapter_key fixed_reconciler sc), timeout_error), (NewClientset cfg, ROk),
     (CreateToken cfg ManagedNamespace AlertAdapterServiceAccount (adapterTokenLifetime div Second), RToken ''tok'' 0),
     (Get (Spoke cfg) (KUnstructured alertmanager_route_gvk) (ObjectKey MonitoringNamespace ''alertmanager-main''), RObj (OUnstructured am_route)),
     (Get (Spoke cfg) KConfigMap (ObjectKey ''openshift-config-managed'' ''default-ingress-cert''), timeout_error), (Create Hub (OSecret sec), ROk)]"
  have lab: "label_and_restart fixed_reconciler sc = Ret (sc, None)"
    using assms(1) by (intro label_present [of _ "[(AdapterCredentialLabel, AdapterCredentialName ''edge'')]"]) simp_all
  have adapters: "exec (reconcileAdapters ref_lib fixed_reconciler sc (Spoke cfg) cfg) ?t (Done (sc, None))"
    unfolding reconcileAdapters_def
    by (rule exec_then [OF exec_all_created [of "Spoke cfg" provision_adapter_calls, folded ProvisionAdapter_def]])
      (simp add: resolveAdapterToken_def readExistingTokenAndExpiry_def hub_ops exec_simps timeout_error_def defaultRequestSAToken_def exec_Vis_iff
        defaultDiscoverAlertmanagerURL_def ref_NestedString_def am_route_def readIngressCA_def ensureAdapterCredentialSecret_def sec lab Let_def)
  let ?sc3 = "setCondition ref_lib (setCondition ref_lib sc conditionTypeAdaptersReady ConditionTrue reasonAdaptersReady
    ''adapter credential Secrets provisioned'') conditionTypeReady ConditionTrue reasonManaged ''spoke is managed by hub''"
  have "okey (OSpokeCluster ?sc3) = ObjectKey [] ''edge''"
    using assms(1) labelled_spoke_simps(7) by (simp add: ObjectKeyFromObject_def)
  moreover have "distinct (map c_type (sc_conditions ?sc3))"
    by (intro ref_library.distinct_setCondition assms(2))
  moreover have "ready_true ?sc3" by (simp add: ref_library.ready_setCondition)
  ultimately obtain new where new: "ready_true new" "exec (patchStatus ref_lib ?sc3)
    [(Get Hub KSpokeCluster (ObjectKey [] ''edge''), RObj (OSpokeCluster labelled_spoke)), (StatusPatch labelled_spoke new, ROk)] (Done None)"
    using patch_run by blast
  have "exec (finish_adapters ref_lib fixed_reconciler sc (Spoke cfg) cfg) (?t @
    [(Get Hub KSpokeCluster (ObjectKey [] ''edge''), RObj (OSpokeCluster labelled_spoke)), (StatusPatch labelled_spoke new, ROk)]) (Done (no_requeue, None))"
    unfolding finish_adapters_def Let_def
    by (rule exec_then [OF adapters], unfold prod.case option.case, rule exec_then [OF new(2), of _ "[]", unfolded append_Nil2]) simp
  moreover have "unique_conditions (set (?t @ [(Get Hub KSpokeCluster (ObjectKey [] ''edge''), RObj (OSpokeCluster labelled_spoke))]))"
    by (auto simp: unique_conditions_def timeout_error_def provision_adapter_calls_def)
  ultimately show ?thesis using new(1)
    by (intro exI [of _ "?t @ [(Get Hub KSpokeCluster (ObjectKey [] ''edge''), RObj (OSpokeCluster labelled_spoke))]"] exI [of _ new]) simp
qed

lemma connect_run:
  "\<exists>t new. ready_true new \<and> unique_conditions (set t) \<and>
    exec (connect_and_provision ref_lib fixed_reconciler labelled_spoke cfg) (t @ [(StatusPatch labelled_spoke new, ROk)]) (Done (no_requeue, None))"
proof -
  let ?sc1 = "setCondition ref_lib labelled_spoke conditionTypeConnected ConditionTrue reasonConnectionSucceeded ''spoke API server is reachable''"
  let ?sc2 = "setCondition ref_lib ?sc1 conditionTypeProvisioned ConditionTrue reasonProvisioningSucceeded ''spoke-side resources provisioned''"
  have "distinct (map c_type (sc_conditions ?sc2))" by (intro ref_library.distinct_setCondition) simp
  then obtain t new where fin: "ready_true new" "unique_conditions (set t)"
    "exec (finish_adapters ref_lib fixed_reconciler ?sc2 (Spoke cfg) cfg) (t @ [(StatusPatch labelled_spoke new, ROk)]) (Done (no_requeue, None))"
    using finish_run [of ?sc2 cfg] by auto
  let ?p = "map (\<lambda>(x, w). (Create (Spoke cfg) x, ROk)) provision_calls"
  let ?t = "[(NewDiscoveryClient cfg, ROk), (ServerVersion cfg, ROk), (NewClient cfg, ROk)] @ ?p @ t"
  have prov: "exec (Provision (Spoke cfg)) ?p (Done None)" unfolding Provision_def by (rule exec_all_created)
  have "exec (connect_and_provision ref_lib fixed_reconciler labelled_spoke cfg) (?t @ [(StatusPatch labelled_spoke new, ROk)]) (Done (no_requeue, None))"
    unfolding connect_and_provision_def
    by (simp add: defaultCheckConnectivity_def defaultNewSpokeClient_def exec_Vis_iff Let_def)
      (rule exec_then [OF prov], simp add: fin(3))
  moreover have "unique_conditions (set ?t)" using fin(2) by (auto simp: unique_conditions_def)
  ultimately show ?thesis using fin(1) by blast
qed

theorem spoke_ready_is_honest_witness:
  "\<exists>t new. exec (Spoke_Reconcile ref_lib fixed_reconciler (ObjectKey [] ''edge'')) (t @ [(StatusPatch labelled_spoke new, ROk)]) (Done (no_requeue, None)) \<and>
    ready_evidence ref_lib fixed_reconciler (ObjectKey [] ''edge'') (set t)"
proof -
  let ?cfg = "spoke_config\<lparr>rc_Timeout := spokeDialTimeout\<rparr>"
  let ?srv = "sp_apiServer (sc_spec labelled_spoke)"
  have mce: "sc_mce labelled_spoke = None" by (simp add: labelled_spoke_def finalized_spoke_def edge_spoke_def)
  obtain b where b: "ref_Write (buildKubeconfigAPI ?cfg ?srv) = Inr b"
    by (simp add: ref_Write_def ref_wf_config_def buildKubeconfigAPI_def Let_def)
  from b obtain new where new: "BuildStandingKubeconfig ref_lib ?cfg labelled_spoke ?srv ''hub'' = Inr new" and d: "s_data new = [(KubeconfigKey, b)]"
    by (auto simp: BuildStandingKubeconfig_def ref_SetControllerReference_def labelled_spoke_def finalized_spoke_def edge_spoke_def Let_def)
  obtain cfg where cfg: "ref_RESTConfig b = Inr cfg"
    using ref_load_Write [OF b] by (cases "rc_BearerToken ?cfg = []") (simp_all add: ref_RESTConfig_def buildKubeconfigAPI_def client_config_def Let_def)
  obtain t p where c: "ready_true p" "unique_conditions (set t)"
    "exec (connect_and_provision ref_lib fixed_reconciler labelled_spoke (cfg\<lparr>rc_Timeout := spokeDialTimeout\<rparr>)) (t @ [(StatusPatch labelled_spoke p, ROk)]) (Done (no_requeue, None))"
    using connect_run by blast
  let ?t = "[(Get Hub KSpokeCluster (ObjectKey [] ''edge''), RObj (OSpokeCluster labelled_spoke)),
    (Get Hub KHubConfig (ObjectKey [] ''cluster''), RObj (OHubConfig secret_hubconfig)), (Create Hub (OSecret new), ROk),
    (Get Hub KSecret (standing_key fixed_reconciler labelled_spoke), RObj (OSecret new))] @ t"
  have e: "exec (Spoke_Reconcile ref_lib fixed_reconciler (ObjectKey [] ''edge'')) (?t @ [(StatusPatch labelled_spoke p, ROk)]) (Done (no_requeue, None))"
    by (simp add: Spoke_Reconcile_def manage_spoke_def fixed_source_def ensureStandingKubeconfig_def loadStandingKubeconfig_def hub_ops exec_simps
        Let_def mce new d cfg c(3))
  have u: "unique_conditions (set ?t)" using c(2) by (auto simp: unique_conditions_def)
  from spoke_ready_is_honest [OF ref_library.status_conditions_axioms spoke_fields_fixed e u c(1)] e show ?thesis by blast
qed

text \<open>
  C36.  The first reconcile of a SpokeCluster does nothing but add the finalizer: one update that
  changes the list of finalizers only, then a requeue, or the error of that update.
\<close>

theorem spoke_finalizer_first:
  assumes "finalizers L" and "IsZero (m_deletion (sc_meta sc))" and "spokeClusterFinalizer \<notin> set (m_finalizers (sc_meta sc))"
  shows "exec (Spoke_Reconcile L r key) ((Get Hub KSpokeCluster key, RObj (OSpokeCluster sc)) # t) z \<longleftrightarrow>
    (\<exists>m a. t = [(Update Hub (OSpokeCluster (sc\<lparr>sc_meta := m\<rparr>)), a)] \<and> m = lib_AddFinalizer L (sc_meta sc) spokeClusterFinalizer \<and>
      set (m_finalizers m) = insert spokeClusterFinalizer (set (m_finalizers (sc_meta sc))) \<and>
      m\<lparr>m_finalizers := []\<rparr> = (sc_meta sc)\<lparr>m_finalizers := []\<rparr> \<and>
      z = Done (case resp_error a of
          None \<Rightarrow> (\<lparr>Requeue = True, RequeueAfter = 0\<rparr>, None)
        | Some e \<Rightarrow> (no_requeue, Some (Errorf [W (CtrlErr ErrAddingFinalizer), S '': '', W (ApiErr e)]))))"
  using assms(2,3)
  by (simp add: Spoke_Reconcile_def hub_ops exec_get exec_update_then finalizers.contains_finalizer [OF assms(1)]
      finalizers.add_finalizer [OF assms(1)] finalizers.add_finalizer_frame [OF assms(1)])

theorem spoke_finalizer_first_witness:
  "exec (Spoke_Reconcile ref_lib fixed_reconciler (ObjectKey [] ''edge''))
    [(Get Hub KSpokeCluster (ObjectKey [] ''edge''), RObj (OSpokeCluster edge_spoke)), (Update Hub (OSpokeCluster finalized_spoke), ROk)]
    (Done (\<lparr>Requeue = True, RequeueAfter = 0\<rparr>, None))"
  by (subst spoke_finalizer_first [OF ref_library.finalizers_axioms])
    (simp_all add: edge_spoke_def finalized_spoke_def IsZero_def)

section \<open>What triggers a reconcile\<close>

lemma spoke_fields_recorder: "spoke_fields r \<Longrightarrow> spoke_fields (r\<lparr>sr_recorder := b\<rparr>)"
  by (simp add: spoke_fields_def)

lemma SetEventRecorder_overwritten:
  "spoke_SetupWithManager e (SetEventRecorder r b) = spoke_SetupWithManager e r"
  "spoke_fields r \<Longrightarrow> spoke_fields (SetEventRecorder r b)"
  by (simp_all add: spoke_SetupWithManager_def SetEventRecorder_def spoke_fields_recorder)

definition connected_status :: "spokecluster \<Rightarrow> condition_status option" where
  "connected_status sc = map_option c_status (condition_of conditionTypeConnected (sc_conditions sc))"

text \<open>
  An update of a SpokeCluster triggers a reconcile exactly when its generation changed, its
  deletion was requested, or its \<open>Connected\<close> status changed (appeared, disappeared or flipped).
\<close>

lemma spoke_update_event_iff:
  assumes "status_conditions L" and "event_predicates L"
  shows "spoke_update_event L old new \<longleftrightarrow> m_generation (sc_meta old) \<noteq> m_generation (sc_meta new) \<or>
    (IsZero (m_deletion (sc_meta old)) \<and> \<not> IsZero (m_deletion (sc_meta new))) \<or> connected_status old \<noteq> connected_status new"
  by (auto simp: spoke_update_event_def connected_status_def status_conditions.find_is_condition_of [OF assms(1)]
      event_predicates.generation_changed [OF assms(2)] Let_def split: option.splits)

end
