(* ===== verification/Health_Handler.thy ===== *)
theory Health_Handler
  imports Spoke_Adapters
begin

text \<open>
  The periodic health check (\<^verbatim>\<open>internal/controller/spoke_health_handler.go\<close>): for every SpokeCluster with
  a standing kubeconfig it dials the spoke and keeps the \<open>Connected\<close> condition up to date.
\<close>

record health_handler =
  hh_operatorNamespace :: string
  hh_checkInterval :: duration
  hh_CheckConnectivity :: "rest_config \<Rightarrow> go_error option prog"

definition NewSpokeHealthHandler :: "string \<Rightarrow> duration \<Rightarrow> health_handler" where
  "NewSpokeHealthHandler ns interval =
    \<lparr>hh_operatorNamespace = ns, hh_checkInterval = interval, hh_CheckConnectivity = defaultCheckConnectivity\<rparr>"

text \<open>Status, reason and message for what the connectivity check returned.\<close>

definition connected_verdict :: "go_error option \<Rightarrow> condition_status \<times> string \<times> string" where
  "connected_verdict connectErr =
    (case connectErr of
       Some err \<Rightarrow> (ConditionFalse, reasonConnectionFailed, error_text err)
     | None \<Rightarrow> (ConditionTrue, reasonConnectionSucceeded, ''spoke API server is reachable''))"

definition report_connected :: "k8s_lib \<Rightarrow> spokecluster \<Rightarrow> go_error option \<Rightarrow> unit prog" where
  "report_connected L sc connectErr =
    (case connected_verdict connectErr of (newStatus, reason, message) \<Rightarrow>
     let existing = lib_FindStatusCondition L (sc_conditions sc) conditionTypeConnected in
     if (case existing of None \<Rightarrow> False | Some c \<Rightarrow> c_status c = newStatus) then Ret ()
     else and_then (client_status_patch sc
       (sc\<lparr>sc_conditions := lib_SetStatusCondition L (sc_conditions sc)
         (new_condition sc conditionTypeConnected newStatus reason message)\<rparr>)) (\<lambda>_. Ret ()))"

definition checkSpoke :: "k8s_lib \<Rightarrow> health_handler \<Rightarrow> spokecluster \<Rightarrow> unit prog" where
  "checkSpoke L h sc =
    and_then (get_secret (ObjectKey (hh_operatorNamespace h) (StandingKubeconfigName (sc_name sc)))) (\<lambda>res.
    case res of
      Inl err \<Rightarrow> Ret ()
    | Inr sec \<Rightarrow>
        (case map_of (s_data sec) KubeconfigKey of
           None \<Rightarrow> Ret ()
         | Some kubeconfigBytes \<Rightarrow>
             (case lib_RESTConfigFromKubeConfig L kubeconfigBytes of
                Inl err \<Rightarrow> Ret ()
              | Inr cfg \<Rightarrow>
                  and_then (hh_CheckConnectivity h (cfg\<lparr>rc_Timeout := spokeDialTimeout\<rparr>)) (report_connected L sc))))"

fun check_spokes :: "k8s_lib \<Rightarrow> health_handler \<Rightarrow> spokecluster list \<Rightarrow> unit prog" where
  "check_spokes L h [] = Ret ()"
| "check_spokes L h (sc # scs) = and_then (checkSpoke L h sc) (\<lambda>_. check_spokes L h scs)"

definition CheckAll :: "k8s_lib \<Rightarrow> health_handler \<Rightarrow> unit prog" where
  "CheckAll L h =
    and_then (client_list KSpokeCluster as_spokecluster []) (\<lambda>res.
    case res of
      Inl err \<Rightarrow> Ret ()
    | Inr spokes \<Rightarrow> check_spokes L h spokes)"

text \<open>
  \<open>Start\<close> checks once and then once for each tick that is taken before the context is done; \<open>time.NewTicker\<close> panics on an
  interval that is not positive.  The number of ticks is the parameter.
\<close>

fun check_ticks :: "k8s_lib \<Rightarrow> health_handler \<Rightarrow> nat \<Rightarrow> unit prog" where
  "check_ticks L h 0 = Ret ()"
| "check_ticks L h (Suc n) = and_then (CheckAll L h) (\<lambda>_. check_ticks L h n)"

definition Health_Start :: "k8s_lib \<Rightarrow> health_handler \<Rightarrow> nat \<Rightarrow> unit prog" where
  "Health_Start L h ticks =
    and_then (CheckAll L h) (\<lambda>_.
    if hh_checkInterval h \<le> 0 then Panic ''non-positive interval for NewTicker''
    else check_ticks L h ticks)"

section \<open>Lemmas\<close>

lemma never_panics_report [simp]: "never_panics (report_connected L sc e)"
  by (auto simp: report_connected_def Let_def intro!: never_panics_and_then split: prod.splits)

lemma never_panics_checkSpoke:
  "(\<And>cfg. never_panics (hh_CheckConnectivity h cfg)) \<Longrightarrow> never_panics (checkSpoke L h sc)"
  by (auto simp: checkSpoke_def hub_ops intro!: never_panics_and_then split: sum.splits option.splits)

lemma never_panics_CheckAll:
  assumes "\<And>cfg. never_panics (hh_CheckConnectivity h cfg)"
  shows "never_panics (CheckAll L h)" "never_panics (check_ticks L h n)"
proof -
  have s: "never_panics (check_spokes L h scs)" for scs
    by (induction scs) (simp_all add: assms never_panics_and_then never_panics_checkSpoke)
  then show c: "never_panics (CheckAll L h)"
    by (auto simp: CheckAll_def intro!: never_panics_and_then split: sum.splits)
  show "never_panics (check_ticks L h n)" by (induction n) (simp_all add: c never_panics_and_then)
qed

lemma never_panics_Health_Start:
  assumes "0 < interval"
  shows "never_panics (Health_Start L (NewSpokeHealthHandler ns interval) n)"
  using assms never_panics_CheckAll [of "NewSpokeHealthHandler ns interval"]
  by (auto simp: Health_Start_def NewSpokeHealthHandler_def defaultCheckConnectivity_safe intro!: never_panics_and_then)

text \<open>
  C37.  The health handler built by the constructor never panics, however often it ticks and whatever
  the clusters answer, exactly when its interval is positive; an interval of zero or less makes \<open>Start\<close> panic
  after the first check, in every run.
\<close>

theorem health_handler_panics_iff:
  "never_panics (Health_Start L (NewSpokeHealthHandler ns interval) n) \<longleftrightarrow> 0 < interval"
proof
  let ?h = "NewSpokeHealthHandler ns interval"
  have np: "\<And>cfg. never_panics (hh_CheckConnectivity ?h cfg)" by (simp add: NewSpokeHealthHandler_def defaultCheckConnectivity_safe)
  show "never_panics (Health_Start L ?h n)" if "0 < interval"
    using that by (rule never_panics_Health_Start)
  show "0 < interval" if p: "never_panics (Health_Start L ?h n)"
  proof (rule ccontr)
    assume "\<not> 0 < interval"
    moreover obtain t z where "exec (CheckAll L ?h) t z" using exec_exists by blast
    moreover from this obtain x where "z = Done x"
      using never_panics_exec [OF never_panics_CheckAll(1) [OF np]] by (cases z) auto
    ultimately have "exec (Health_Start L ?h n) t (Panicked ''non-positive interval for NewTicker'')"
      by (auto simp: Health_Start_def exec_and_then_Done NewSpokeHealthHandler_def)
    with p show False using never_panics_exec by blast
  qed
qed

section \<open>One check\<close>

text \<open>Whether a spoke answered the version request in a run.\<close>

definition reachable :: "event list \<Rightarrow> bool" where
  "reachable t \<longleftrightarrow> (\<exists>cfg. answered cfg (set t))"

text \<open>The SpokeCluster with only its \<open>Connected\<close> condition set to a status it did not have.\<close>

definition connected_set :: "condition_status \<Rightarrow> spokecluster \<Rightarrow> spokecluster \<Rightarrow> bool" where
  "connected_set st sc new \<longleftrightarrow> sc_meta new = sc_meta sc \<and> sc_spec new = sc_spec sc \<and>
    (\<forall>ty. ty \<noteq> conditionTypeConnected \<longrightarrow> condition_of ty (sc_conditions new) = condition_of ty (sc_conditions sc)) \<and>
    map_option c_status (condition_of conditionTypeConnected (sc_conditions new)) = Some st \<and>
    map_option c_status (condition_of conditionTypeConnected (sc_conditions sc)) \<noteq> Some st"

lemma exec_report_connected:
  assumes "status_conditions L"
  shows "exec (report_connected L sc e) t z \<longleftrightarrow> z = Done () \<and>
    (let st = (if e = None then ConditionTrue else ConditionFalse) in
     if map_option c_status (condition_of conditionTypeConnected (sc_conditions sc)) = Some st then t = []
     else (\<exists>a. t = [(StatusPatch sc (sc\<lparr>sc_conditions := lib_SetStatusCondition L (sc_conditions sc)
       (new_condition sc conditionTypeConnected st (fst (snd (connected_verdict e))) (snd (snd (connected_verdict e))))\<rparr>), a)]))"
  by (cases e; cases "condition_of conditionTypeConnected (sc_conditions sc)")
    (auto simp: report_connected_def connected_verdict_def Let_def exec_status_patch exec_if
      status_conditions.find_is_condition_of [OF assms])

lemma connected_set_new:
  assumes "status_conditions L" and "map_option c_status (condition_of conditionTypeConnected (sc_conditions sc)) \<noteq> Some st"
  shows "connected_set st sc (sc\<lparr>sc_conditions := lib_SetStatusCondition L (sc_conditions sc) (new_condition sc conditionTypeConnected st rs m)\<rparr>)"
proof -
  let ?c = "new_condition sc conditionTypeConnected st rs m"
  have ty: "c_type ?c = conditionTypeConnected" "c_status ?c = st" by (simp_all add: new_condition_def)
  obtain c' where "condition_of conditionTypeConnected (lib_SetStatusCondition L (sc_conditions sc) ?c) = Some c'" "same_condition c' ?c"
    using status_conditions.condition_of_set(1) [OF assms(1), of ?c "sc_conditions sc"] by (auto simp: ty)
  with status_conditions.condition_of_set(2) [OF assms(1), of _ ?c "sc_conditions sc"] assms(2) ty show ?thesis
    by (auto simp: connected_set_def same_condition_def)
qed

text \<open>
  C26.  One check of a spoke, for every behaviour of hub and spoke: it returns, and writes at most
  once, as its last request.  That write is a status patch of the spoke that was listed
  which changes nothing but the \<open>Connected\<close> condition: to true exactly when the spoke answered the
  version request, and only when the condition did not say so already.
\<close>

theorem checkSpoke_runs:
  assumes "status_conditions L" and "exec (checkSpoke L (NewSpokeHealthHandler ns interval) sc) t z"
  shows "z = Done () \<and> (\<exists>reads w. t = reads @ w \<and> (\<forall>(q, a) \<in> set reads. \<not> is_write q) \<and>
    (w = [] \<or> (\<exists>new a. w = [(StatusPatch sc new, a)] \<and>
      connected_set (if reachable reads then ConditionTrue else ConditionFalse) sc new)))"
proof -
  let ?key = "ObjectKey ns (StandingKubeconfigName (sc_name sc))"
  from assms(2) obtain r t' where t: "t = (Get Hub KSecret ?key, r) # t'" and
    body: "z = Done () \<and> t' = [] \<or> (\<exists>cfg t1 t2 e. t' = t1 @ t2 \<and> exec (defaultCheckConnectivity cfg) t1 (Done e) \<and>
      exec (report_connected L sc e) t2 z)"
    by (auto simp: checkSpoke_def NewSpokeHealthHandler_def hub_ops exec_get exec_case_sum exec_case_option
        exec_seq [OF defaultCheckConnectivity_safe(2)]) blast
  show ?thesis
  proof (cases "z = Done () \<and> t' = []")
    case True
    with t show ?thesis by (intro conjI exI [of _ t] exI [of _ "[]"]) auto
  next
    case False
    with body obtain cfg t1 t2 e where c: "t' = t1 @ t2" "exec (defaultCheckConnectivity cfg) t1 (Done e)"
      and rep: "exec (report_connected L sc e) t2 z" by blast
    let ?reads = "(Get Hub KSecret ?key, r) # t1"
    have "(e = None) = reachable ?reads" and ro: "\<forall>(q, a) \<in> set ?reads. \<not> is_write q"
      using exec_defaultCheckConnectivity(1) [OF c(2)] all_reqs_exec [OF c(2) defaultCheckConnectivity_safe(1)]
      by (auto simp: reachable_def answered_def)
    with rep have "z = Done ()" "t2 = [] \<or> (\<exists>new a. t2 = [(StatusPatch sc new, a)] \<and>
        connected_set (if reachable ?reads then ConditionTrue else ConditionFalse) sc new)"
      unfolding exec_report_connected [OF assms(1)] Let_def
      by (auto split: if_splits intro!: connected_set_new [OF assms(1)])
    with t c(1) ro show ?thesis by (intro conjI exI [of _ ?reads] exI [of _ t2]) simp_all
  qed
qed

definition standing_bytes :: bytes where
  "standing_bytes = projr (ref_Write (buildKubeconfigAPI spoke_config (rc_Host spoke_config)))"

definition standing_secret :: secret where
  "standing_secret = \<lparr>s_meta = new_meta ''hub'' ''spoke-kubeconfig-edge'', s_data = [(KubeconfigKey, standing_bytes)]\<rparr>"

theorem checkSpoke_runs_witness:
  "\<exists>t new a. exec (checkSpoke ref_lib (NewSpokeHealthHandler ''hub'' 1) edge_spoke) (t @ [(StatusPatch edge_spoke new, a)]) (Done ()) \<and>
    connected_set ConditionTrue edge_spoke new"
proof -
  have "\<exists>cfg. ref_RESTConfig standing_bytes = Inr cfg"
    by (simp add: standing_bytes_def ref_RESTConfig_def ref_Write_def ref_wf_config_def buildKubeconfigAPI_def ref_load_def client_config_def Let_def)
  then obtain cfg where cfg: "ref_RESTConfig standing_bytes = Inr cfg" ..
  let ?c = "cfg\<lparr>rc_Timeout := spokeDialTimeout\<rparr>"
  let ?reads = "[(Get Hub KSecret (ObjectKey ''hub'' (StandingKubeconfigName (sc_name edge_spoke))), RObj (OSecret standing_secret)),
    (NewDiscoveryClient ?c, ROk), (ServerVersion ?c, ROk)]"
  have "\<exists>new. exec (checkSpoke ref_lib (NewSpokeHealthHandler ''hub'' 1) edge_spoke) (?reads @ [(StatusPatch edge_spoke new, ROk)]) (Done ())"
    using cfg by (auto simp: checkSpoke_def NewSpokeHealthHandler_def hub_ops exec_simps standing_secret_def defaultCheckConnectivity_def
        exec_Vis_iff report_connected_def connected_verdict_def edge_spoke_def Let_def)
  then obtain new where e: "exec (checkSpoke ref_lib (NewSpokeHealthHandler ''hub'' 1) edge_spoke) (?reads @ [(StatusPatch edge_spoke new, ROk)]) (Done ())" ..
  obtain reads w where w: "?reads @ [(StatusPatch edge_spoke new, ROk)] = reads @ w" "\<forall>(q, a) \<in> set reads. \<not> is_write q"
    "w = [] \<or> (\<exists>new a. w = [(StatusPatch edge_spoke new, a)] \<and> connected_set (if reachable reads then ConditionTrue else ConditionFalse) edge_spoke new)"
    using checkSpoke_runs [OF ref_library.status_conditions_axioms e] by blast
  from w(1,2) have "w \<noteq> []" by auto
  with w obtain new' where "reads = ?reads" "w = [(StatusPatch edge_spoke new', ROk)]" "new' = new"
    "connected_set (if reachable reads then ConditionTrue else ConditionFalse) edge_spoke new'" by auto
  moreover have "reachable ?reads" unfolding reachable_def answered_def by (rule exI [of _ ?c], rule exI [of _ ROk]) simp
  ultimately have "connected_set ConditionTrue edge_spoke new" by simp
  with e show ?thesis by blast
qed

text \<open>
  C38.  A concurrent change of the status is lost.  The patch is computed from the copy that was listed,
  and a merge patch replaces the list of conditions as a whole: on an API server as documented, when a check changes
  the \<open>Connected\<close> condition, every other condition of the stored SpokeCluster goes back to what it was
  in the listed copy, whatever the reconciler has written since.
\<close>

theorem health_patch_overwrites:
  assumes "api_server H store" and "status_conditions L"
    and "store w Hub KSpokeCluster (okey (OSpokeCluster sc)) = Some (OSpokeCluster stored)"
    and "map_option c_status (condition_of conditionTypeConnected (sc_conditions sc)) \<noteq>
      Some (if e = None then ConditionTrue else ConditionFalse)"
  shows "\<exists>w' p. run H (report_connected L sc e) w = (Done (), w') \<and>
    store w' Hub KSpokeCluster (okey (OSpokeCluster sc)) = Some (OSpokeCluster p) \<and> sc_spec p = sc_spec stored \<and>
    (\<forall>ty. ty \<noteq> conditionTypeConnected \<longrightarrow> condition_of ty (sc_conditions p) = condition_of ty (sc_conditions sc))"
proof -
  let ?st = "if e = None then ConditionTrue else ConditionFalse"
  let ?new = "sc\<lparr>sc_conditions := lib_SetStatusCondition L (sc_conditions sc) (new_condition sc conditionTypeConnected ?st
    (fst (snd (connected_verdict e))) (snd (snd (connected_verdict e))))\<rparr>"
  have set: "connected_set ?st sc ?new" by (rule connected_set_new [OF assms(2,4)])
  then have differ: "sc_conditions sc \<noteq> sc_conditions ?new" by (auto simp: connected_set_def)
  have key: "okey (OSpokeCluster ?new) = okey (OSpokeCluster sc)" by (simp add: ObjectKeyFromObject_def)
  from api_server.status_patch [OF assms(1), of w ?new stored sc] assms(3) obtain r z w' where
    h: "H w (StatusPatch sc ?new) = (r, w')" and
    a: "admits (OSpokeCluster (stored\<lparr>sc_conditions := merge_conditions sc ?new (sc_conditions stored)\<rparr>)) z" and
    st: "store w' = store_put (store w) Hub KSpokeCluster (okey (OSpokeCluster sc)) (Some z)"
    unfolding key by auto
  from a differ obtain p where p: "z = OSpokeCluster p" "sc_conditions p = sc_conditions ?new" "sc_spec p = sc_spec stored"
    by (auto simp: admits_def merge_conditions_def)
  have "run H (report_connected L sc e) w = (Done (), w')"
    using h assms(4) by (cases e) (auto simp: report_connected_def connected_verdict_def client_status_patch_def Let_def
      status_conditions.find_is_condition_of [OF assms(2)] split: option.splits)
  with st p set show ?thesis by (auto simp: connected_set_def)
qed

text \<open>A hub whose reconciler has just reported \<open>Ready\<close> on a spoke that the handler listed before.\<close>

definition ready_hub :: cluster where
  "ready_hub = \<lparr>objects = [(Hub, OSpokeCluster (edge_spoke\<lparr>sc_conditions := [ready_condition]\<rparr>))], serial = 8, clock = 0\<rparr>"

theorem health_patch_overwrites_witness:
  "\<exists>w' p. run ref_server (report_connected ref_lib edge_spoke None) ready_hub = (Done (), w') \<and>
    ref_store w' Hub KSpokeCluster (ObjectKey [] ''edge'') = Some (OSpokeCluster p) \<and>
    condition_of conditionTypeReady (sc_conditions p) = None"
proof -
  have k: "okey (OSpokeCluster edge_spoke) = ObjectKey [] ''edge''" by (simp add: edge_spoke_def ObjectKeyFromObject_def)
  have s: "ref_store ready_hub Hub KSpokeCluster (okey (OSpokeCluster edge_spoke)) = Some (OSpokeCluster (edge_spoke\<lparr>sc_conditions := [ready_condition]\<rparr>))"
    by (simp add: ready_hub_def lookup_def ObjectKeyFromObject_def)
  have n: "condition_of ty (sc_conditions edge_spoke) = None" for ty by (simp add: edge_spoke_def)
  obtain w' p where "run ref_server (report_connected ref_lib edge_spoke None) ready_hub = (Done (), w')"
    "ref_store w' Hub KSpokeCluster (okey (OSpokeCluster edge_spoke)) = Some (OSpokeCluster p)"
    "\<forall>ty. ty \<noteq> conditionTypeConnected \<longrightarrow> condition_of ty (sc_conditions p) = condition_of ty (sc_conditions edge_spoke)"
    using health_patch_overwrites [OF ref.api_server_axioms ref_library.status_conditions_axioms s, of None] n by auto
  moreover have "conditionTypeReady \<noteq> conditionTypeConnected" by (simp add: hub_consts)
  ultimately show ?thesis using k n by auto
qed

end
