(* ===== verification/Mce_Discovery.thy ===== *)
theory Mce_Discovery
  imports Credential Ref_Server
begin

text \<open>
  The inventory controller of MCE mode (\<^verbatim>\<open>internal/controller/mce_discovery_controller.go\<close>): it lists the
  ManagedClusters, keeps one labelled SpokeCluster for each that the HubConfig selects, and beside
  it a ManagedServiceAccount and a ManifestWork that give the hub its access.  The content of an
  unstructured object is its JSON without type and metadata, so a new one starts with an empty map.
\<close>

section \<open>Constants\<close>

definition localClusterLabel :: string where
  [hub_consts]: "localClusterLabel = ''local-cluster''"
definition singletonKey :: string where
  [hub_consts]: "singletonKey = ''cluster''"
definition msaGroup :: string where
  [hub_consts]: "msaGroup = ''authentication.open-cluster-management.io''"
definition msaVersion :: string where
  [hub_consts]: "msaVersion = ''v1beta1''"
definition msaKind :: string where
  [hub_consts]: "msaKind = ''ManagedServiceAccount''"
definition manifestWorkGroup :: string where
  [hub_consts]: "manifestWorkGroup = ''work.open-cluster-management.io''"
definition manifestWorkVersion :: string where
  [hub_consts]: "manifestWorkVersion = ''v1''"
definition manifestWorkKind :: string where
  [hub_consts]: "manifestWorkKind = ''ManifestWork''"
definition msaRBACWorkName :: string where
  [hub_consts]: "msaRBACWorkName = ''lightspeed-hub-msa-rbac''"
definition msaSpokeNamespace :: string where
  [hub_consts]: "msaSpokeNamespace = ''open-cluster-management-agent-addon''"
definition spokeProvisionedNamespace :: string where
  [hub_consts]: "spokeProvisionedNamespace = ''openshift-lightspeed-managed''"

definition managedClusterGVK :: gvk where
  "managedClusterGVK = \<lparr>g_group = ''cluster.open-cluster-management.io'', g_version = ''v1'', g_kind = ''ManagedCluster''\<rparr>"
definition managedClusterListGVK :: gvk where
  "managedClusterListGVK = managedClusterGVK\<lparr>g_kind := g_kind managedClusterGVK @ ''List''\<rparr>"
definition msa_gvk :: gvk where
  "msa_gvk = \<lparr>g_group = msaGroup, g_version = msaVersion, g_kind = msaKind\<rparr>"
definition msa_list_gvk :: gvk where
  "msa_list_gvk = \<lparr>g_group = msaGroup, g_version = msaVersion, g_kind = msaKind @ ''List''\<rparr>"
definition manifestWork_gvk :: gvk where
  "manifestWork_gvk = \<lparr>g_group = manifestWorkGroup, g_version = manifestWorkVersion, g_kind = manifestWorkKind\<rparr>"

text \<open>The label that marks what discovery owns.\<close>

definition discovery_labels :: "string go_map" where
  "discovery_labels = [(MCEManagedByLabel, MCEManagedByValue)]"

abbreviation owned :: "object_meta \<Rightarrow> bool" where
  "owned m \<equiv> go_str (m_labels m) MCEManagedByLabel = MCEManagedByValue"

section \<open>The reconciler\<close>

text \<open>\<open>dr_ctrlRef\<close> and \<open>dr_cacheRef\<close> say whether the references are set.\<close>

record mce_reconciler =
  dr_operatorNamespace :: string
  dr_watchRegistered :: bool
  dr_ctrlRef :: bool
  dr_cacheRef :: bool

definition NewMCEDiscoveryReconciler :: "string \<Rightarrow> mce_reconciler" where
  "NewMCEDiscoveryReconciler operatorNamespace =
    \<lparr>dr_operatorNamespace = operatorNamespace, dr_watchRegistered = False, dr_ctrlRef = False, dr_cacheRef = False\<rparr>"

text \<open>\<open>SetupWithManager\<close>, given what building the controller returned.\<close>

definition mce_SetupWithManager :: "go_error option \<Rightarrow> mce_reconciler \<Rightarrow> mce_reconciler \<times> go_error option" where
  "mce_SetupWithManager buildErr r =
    (case buildErr of
       Some err \<Rightarrow> (r, Some err)
     | None \<Rightarrow> (r\<lparr>dr_ctrlRef := True, dr_cacheRef := True\<rparr>, None))"

definition tryRegisterWatch :: "mce_reconciler \<Rightarrow> mce_reconciler prog" where
  "tryRegisterWatch r =
    (if dr_watchRegistered r \<or> \<not> dr_ctrlRef r \<or> \<not> dr_cacheRef r then Ret r
     else Vis (RegisterWatch managedClusterGVK) (\<lambda>rsp.
       case resp_error rsp of
         Some err \<Rightarrow> Ret r
       | None \<Rightarrow> Ret (r\<lparr>dr_watchRegistered := True\<rparr>)))"

definition mapHubConfigToSingleton :: "obj \<Rightarrow> object_key list" where
  "mapHubConfigToSingleton x = [ObjectKey [] singletonKey]"

definition mapSpokeClusterToSingleton :: "obj \<Rightarrow> object_key list" where
  "mapSpokeClusterToSingleton x = (if owned (obj_meta x) then [ObjectKey [] singletonKey] else [])"

text \<open>What an update of a SpokeCluster enqueues: old and new object are mapped when the generation changed.\<close>

definition mce_spoke_update :: "k8s_lib \<Rightarrow> spokecluster \<Rightarrow> spokecluster \<Rightarrow> object_key list" where
  "mce_spoke_update L old new =
    (if lib_GenerationChanged L (sc_meta old) (sc_meta new)
     then mapSpokeClusterToSingleton (OSpokeCluster old) @ mapSpokeClusterToSingleton (OSpokeCluster new) else [])"

section \<open>ManagedClusters\<close>

record discoveredSpoke =
  ds_apiServer :: string
  ds_managedClusterName :: string

fun labels_within :: "string go_map option \<Rightarrow> (string \<times> string) list \<Rightarrow> bool" where
  "labels_within mcLabels [] = True"
| "labels_within mcLabels ((k, v) # kvs) =
     (case go_get mcLabels k of
        None \<Rightarrow> False
      | Some actual \<Rightarrow> if actual \<noteq> v then False else labels_within mcLabels kvs)"

definition matchesSelector :: "k8s_lib \<Rightarrow> string go_map option \<Rightarrow> string go_map option \<Rightarrow> bool" where
  "matchesSelector L mcLabels matchLabels =
    (case matchLabels of
       None \<Rightarrow> True
     | Some m \<Rightarrow> if length m = 0 then True else labels_within mcLabels (range_map L 2 m))"

fun first_https_url :: "json list \<Rightarrow> string option" where
  "first_https_url [] = None"
| "first_https_url (cfg # cfgs) =
     (case cfg of
        JObj cfgMap \<Rightarrow>
          (case map_of cfgMap ''url'' of
             Some (JStr url) \<Rightarrow>
               if url = [] then first_https_url cfgs
               else if HasPrefix url ''https://'' then Some url
               else first_https_url cfgs
           | _ \<Rightarrow> first_https_url cfgs)
      | _ \<Rightarrow> first_https_url cfgs)"

definition extractAPIServer :: "k8s_lib \<Rightarrow> unstructured \<Rightarrow> go_error + string" where
  "extractAPIServer L mc =
    (let none = Inl (Errorf [S ''ManagedCluster '', S (Quote (m_name (u_meta mc))), S '' has no managedClusterClientConfigs'']) in
     case lib_NestedSlice L (u_object mc) [''spec'', ''managedClusterClientConfigs''] of
       Inr (Some configs) \<Rightarrow>
         if length configs = 0 then none
         else (case first_https_url configs of
             Some url \<Rightarrow> Inr url
           | None \<Rightarrow> Inl (Errorf [S ''ManagedCluster '', S (Quote (m_name (u_meta mc))), S '' has no HTTPS client config URL'']))
     | _ \<Rightarrow> none)"

definition selector_labels :: "hubconfig \<Rightarrow> string go_map option" where
  "selector_labels hc =
    (case hs_mce (hc_spec hc) of
       None \<Rightarrow> None
     | Some selector \<Rightarrow> (case mc_selector selector of None \<Rightarrow> None | Some s \<Rightarrow> ms_matchLabels s))"

definition existing_spokes :: "spokecluster list \<Rightarrow> spokecluster go_map" where
  "existing_spokes spokes = fold (\<lambda>sc m. AList.update (sc_name sc) sc m) spokes []"

text \<open>One round of the loop that builds the desired set.\<close>

definition add_desired ::
  "k8s_lib \<Rightarrow> string go_map option \<Rightarrow> spokecluster go_map \<Rightarrow> unstructured \<Rightarrow> discoveredSpoke go_map \<Rightarrow> discoveredSpoke go_map" where
  "add_desired L matchLabels existing mc desired =
    (let name = m_name (u_meta mc); mcLabels = m_labels (u_meta mc) in
     if m_deletion (u_meta mc) \<noteq> None then desired
     else if go_str mcLabels localClusterLabel = ''true'' then desired
     else if \<not> matchesSelector L mcLabels matchLabels then desired
     else (case extractAPIServer L mc of
         Inl err \<Rightarrow>
           (case map_of existing name of
              Some sc \<Rightarrow> AList.update name \<lparr>ds_apiServer = sp_apiServer (sc_spec sc), ds_managedClusterName = name\<rparr> desired
            | None \<Rightarrow> desired)
       | Inr apiServer \<Rightarrow> AList.update name \<lparr>ds_apiServer = apiServer, ds_managedClusterName = name\<rparr> desired))"

definition desired_spokes ::
  "k8s_lib \<Rightarrow> string go_map option \<Rightarrow> spokecluster go_map \<Rightarrow> unstructured list \<Rightarrow> discoveredSpoke go_map" where
  "desired_spokes L matchLabels existing mcs = fold (add_desired L matchLabels existing) mcs []"

section \<open>Companions of a spoke\<close>

definition new_unstructured :: "gvk \<Rightarrow> string \<Rightarrow> string \<Rightarrow> unstructured" where
  "new_unstructured g ns n = \<lparr>u_gvk = g, u_meta = (new_meta ns n)\<lparr>m_labels := Some discovery_labels\<rparr>, u_object = JObj []\<rparr>"

definition msa_object :: "k8s_lib \<Rightarrow> string \<Rightarrow> unstructured" where
  "msa_object L managedClusterName =
    (let u = new_unstructured msa_gvk managedClusterName MSAName;
         j1 = or_unchanged (u_object u) (lib_SetNestedField L (u_object u) (JBool True) [''spec'', ''rotation'', ''enabled'']);
         j2 = or_unchanged j1 (lib_SetNestedField L j1 (JStr ''8760h0m0s'') [''spec'', ''rotation'', ''validity'']) in
     u\<lparr>u_object := j2\<rparr>)"

definition msa_key :: "string \<Rightarrow> object_key" where
  "msa_key managedClusterName = ObjectKey managedClusterName MSAName"

definition work_key :: "string \<Rightarrow> object_key" where
  "work_key managedClusterName = ObjectKey managedClusterName msaRBACWorkName"

text \<open>An error text about an object in the namespace of a managed cluster.\<close>

definition companion_error :: "string \<Rightarrow> object_key \<Rightarrow> api_error \<Rightarrow> go_error" where
  "companion_error what key err =
    Errorf [S what, S '' '', S (k_namespace key), S ''/'', S (k_name key), S '': '', W (ApiErr err)]"

definition foreign_error :: "string \<Rightarrow> object_key \<Rightarrow> object_meta \<Rightarrow> go_error" where
  "foreign_error what key m =
    Errorf [S what, S '' '', S (k_namespace key), S ''/'', S (k_name key),
      S '' exists but is not owned by discovery (labels: '', S (fmt_map (m_labels m)), S '')'']"

definition ensureMSA :: "k8s_lib \<Rightarrow> string \<Rightarrow> go_error option prog" where
  "ensureMSA L managedClusterName =
    and_then (client_create Hub (OUnstructured (msa_object L managedClusterName))) (\<lambda>cerr.
    case cerr of
      None \<Rightarrow> Ret None
    | Some err \<Rightarrow>
        if IsAlreadyExists err then
          and_then (get_unstructured Hub msa_gvk (msa_key managedClusterName)) (\<lambda>res.
          case res of
            Inl getErr \<Rightarrow> Ret (Some (companion_error ''verifying MSA ownership'' (msa_key managedClusterName) getErr))
          | Inr existing \<Rightarrow>
              if \<not> owned (u_meta existing)
              then Ret (Some (foreign_error ''ManagedServiceAccount'' (msa_key managedClusterName) (u_meta existing)))
              else Ret None)
        else Ret (Some (companion_error ''creating ManagedServiceAccount'' (msa_key managedClusterName) err)))"

subsection \<open>The manifests pushed to the spoke\<close>

abbreviation jstrs :: "string list \<Rightarrow> json" where
  "jstrs xs \<equiv> JArr (map JStr xs)"

definition rule_json :: "string list \<Rightarrow> string list \<Rightarrow> string list \<Rightarrow> json" where
  "rule_json groups resources verbs =
    JObj [(''apiGroups'', jstrs groups), (''resources'', jstrs resources), (''verbs'', jstrs verbs)]"

definition msa_subject_json :: json where
  "msa_subject_json = JObj [(''kind'', JStr ''ServiceAccount''), (''name'', JStr MSAName), (''namespace'', JStr msaSpokeNamespace)]"

definition roleref_json :: "string \<Rightarrow> string \<Rightarrow> json" where
  "roleref_json k n = JObj [(''apiGroup'', JStr ''rbac.authorization.k8s.io''), (''kind'', JStr k), (''name'', JStr n)]"

definition clusterRole_json :: json where
  "clusterRole_json = JObj [
     (''apiVersion'', JStr ''rbac.authorization.k8s.io/v1''),
     (''kind'', JStr ''ClusterRole''),
     (''metadata'', JObj [(''name'', JStr ''lightspeed-hub-spoke-provisioner'')]),
     (''rules'', JArr [
        rule_json [''''] [''namespaces''] [''create'', ''get''],
        JObj [(''apiGroups'', jstrs ['''']), (''resources'', jstrs [''namespaces'']), (''verbs'', jstrs [''delete'']),
              (''resourceNames'', jstrs [spokeProvisionedNamespace])],
        rule_json [''''] [''configmaps''] [''get''],
        rule_json [''rbac.authorization.k8s.io''] [''clusterroles'', ''roles'']
          [''create'', ''get'', ''update'', ''delete'', ''bind'', ''escalate''],
        rule_json [''rbac.authorization.k8s.io''] [''clusterrolebindings'', ''rolebindings''] [''create'', ''get'', ''delete''],
        rule_json [''route.openshift.io''] [''routes''] [''get'']])]"

definition crb_json :: json where
  "crb_json = JObj [
     (''apiVersion'', JStr ''rbac.authorization.k8s.io/v1''),
     (''kind'', JStr ''ClusterRoleBinding''),
     (''metadata'', JObj [(''name'', JStr ''lightspeed-hub-msa-access'')]),
     (''roleRef'', roleref_json ''ClusterRole'' ''lightspeed-hub-spoke-provisioner''),
     (''subjects'', JArr [msa_subject_json])]"

definition nsRole_json :: json where
  "nsRole_json = JObj [
     (''apiVersion'', JStr ''rbac.authorization.k8s.io/v1''),
     (''kind'', JStr ''Role''),
     (''metadata'', JObj [(''name'', JStr ''lightspeed-hub-spoke-provisioner''), (''namespace'', JStr spokeProvisionedNamespace)]),
     (''rules'', JArr [
        rule_json [''''] [''serviceaccounts'', ''secrets''] [''create'', ''get'', ''delete''],
        rule_json [''''] [''serviceaccounts/token''] [''create'']])]"

definition nsRB_json :: json where
  "nsRB_json = JObj [
     (''apiVersion'', JStr ''rbac.authorization.k8s.io/v1''),
     (''kind'', JStr ''RoleBinding''),
     (''metadata'', JObj [(''name'', JStr ''lightspeed-hub-msa-access''), (''namespace'', JStr spokeProvisionedNamespace)]),
     (''roleRef'', roleref_json ''Role'' ''lightspeed-hub-spoke-provisioner''),
     (''subjects'', JArr [msa_subject_json])]"

definition nsManifest_json :: json where
  "nsManifest_json = JObj [
     (''apiVersion'', JStr ''v1''),
     (''kind'', JStr ''Namespace''),
     (''metadata'', JObj [(''name'', JStr spokeProvisionedNamespace)])]"

definition rbac_manifests :: "json list" where
  "rbac_manifests = [nsManifest_json, clusterRole_json, crb_json, nsRole_json, nsRB_json]"

definition manifests_path :: "string list" where
  "manifests_path = [''spec'', ''workload'', ''manifests'']"

definition work_object :: "k8s_lib \<Rightarrow> string \<Rightarrow> unstructured" where
  "work_object L managedClusterName =
    (let u = new_unstructured manifestWork_gvk managedClusterName msaRBACWorkName in
     u\<lparr>u_object := or_unchanged (u_object u) (lib_SetNestedSlice L (u_object u) rbac_manifests manifests_path)\<rparr>)"

text \<open>\<open>NestedSlice\<close> with found flag and error discarded: a nil slice when there is none.\<close>

definition manifests_of :: "k8s_lib \<Rightarrow> unstructured \<Rightarrow> json list option" where
  "manifests_of L u = (case lib_NestedSlice L (u_object u) manifests_path of Inr v \<Rightarrow> v | Inl e \<Rightarrow> None)"

definition same_manifests :: "json list option \<Rightarrow> json list option \<Rightarrow> bool" where
  "same_manifests a b =
    (case (a, b) of
       (None, None) \<Rightarrow> True
     | (Some xs, Some ys) \<Rightarrow> deep_equal (JArr xs) (JArr ys)
     | _ \<Rightarrow> False)"

definition set_manifests :: "k8s_lib \<Rightarrow> json list option \<Rightarrow> unstructured \<Rightarrow> unstructured" where
  "set_manifests L ms u =
    u\<lparr>u_object := or_unchanged (u_object u)
      (lib_SetNestedSlice L (u_object u) (case ms of None \<Rightarrow> [] | Some xs \<Rightarrow> xs) manifests_path)\<rparr>"

definition ensureMSARBAC :: "k8s_lib \<Rightarrow> string \<Rightarrow> go_error option prog" where
  "ensureMSARBAC L managedClusterName =
    (let mw = work_object L managedClusterName; key = work_key managedClusterName in
     and_then (client_create Hub (OUnstructured mw)) (\<lambda>cerr.
     case cerr of
       None \<Rightarrow> Ret None
     | Some err \<Rightarrow>
         if IsAlreadyExists err then
           and_then (get_unstructured Hub manifestWork_gvk key) (\<lambda>res.
           case res of
             Inl getErr \<Rightarrow> Ret (Some (companion_error ''verifying ManifestWork ownership'' key getErr))
           | Inr existing \<Rightarrow>
               if \<not> owned (u_meta existing)
               then Ret (Some (foreign_error ''ManifestWork'' key (u_meta existing)))
               else if same_manifests (manifests_of L mw) (manifests_of L existing) then Ret None
               else and_then (client_update Hub (OUnstructured (set_manifests L (manifests_of L mw) existing))) (\<lambda>ures.
                 case ures of
                   Inl updateErr \<Rightarrow> Ret (Some (companion_error ''updating ManifestWork spec'' key updateErr))
                 | Inr _ \<Rightarrow> Ret None))
         else Ret (Some (companion_error ''creating RBAC ManifestWork'' key err))))"

subsection \<open>Removing them\<close>

definition deleteMSARBAC :: "string \<Rightarrow> go_error option prog" where
  "deleteMSARBAC managedClusterName =
    (let key = work_key managedClusterName in
     and_then (get_unstructured Hub manifestWork_gvk key) (\<lambda>res.
     case res of
       Inl err \<Rightarrow> if IsNotFound err then Ret None else Ret (Some (companion_error ''getting RBAC ManifestWork'' key err))
     | Inr mw \<Rightarrow>
         if \<not> owned (u_meta mw) then Ret None
         else and_then (client_delete Hub (KUnstructured manifestWork_gvk) (ObjectKeyFromObject (OUnstructured mw))) (\<lambda>derr.
           case derr of
             None \<Rightarrow> Ret None
           | Some err \<Rightarrow>
               if \<not> IsNotFound err then Ret (Some (companion_error ''deleting RBAC ManifestWork'' key err)) else Ret None)))"

definition deleteMSA :: "string \<Rightarrow> go_error option prog" where
  "deleteMSA managedClusterName =
    (let key = msa_key managedClusterName in
     and_then (get_unstructured Hub msa_gvk key) (\<lambda>res.
     case res of
       Inl err \<Rightarrow> if IsNotFound err then Ret None else Ret (Some (companion_error ''getting ManagedServiceAccount'' key err))
     | Inr msa \<Rightarrow>
         if \<not> owned (u_meta msa) then Ret None
         else and_then (client_delete Hub (KUnstructured msa_gvk) (ObjectKeyFromObject (OUnstructured msa))) (\<lambda>derr.
           case derr of
             None \<Rightarrow> Ret None
           | Some err \<Rightarrow>
               if \<not> IsNotFound err then Ret (Some (companion_error ''deleting ManagedServiceAccount'' key err)) else Ret None)))"

text \<open>An error about a spoke, as the loops wrap it.\<close>

definition spoke_error :: "string \<Rightarrow> string \<Rightarrow> string \<Rightarrow> go_error \<Rightarrow> go_error" where
  "spoke_error before name after err = Errorf [S before, S (Quote name), S after, S '': '', W err]"

text \<open>The two removals in a row, with the texts of the caller.\<close>

definition delete_companions :: "string \<Rightarrow> string \<Rightarrow> string \<Rightarrow> go_error option prog" where
  "delete_companions rbacText msaText ns =
    and_then (deleteMSARBAC ns) (\<lambda>rerr.
    case rerr of
      Some err \<Rightarrow> Ret (Some (spoke_error rbacText ns [] err))
    | None \<Rightarrow>
        and_then (deleteMSA ns) (\<lambda>merr.
        case merr of
          Some err \<Rightarrow> Ret (Some (spoke_error msaText ns [] err))
        | None \<Rightarrow> Ret None))"

definition discovery_msas :: "(api_error + unstructured list) prog" where
  "discovery_msas = client_list (KUnstructured msa_list_gvk) as_unstructured discovery_labels"

fun companions_loop :: "mce_reconciler \<Rightarrow> unstructured list \<Rightarrow> nat \<Rightarrow> go_error option prog" where
  "companions_loop r [] pending =
     (if pending > 0
      then Ret (Some (Errorf [S (Itoa (int pending)), S '' spoke(s) still have standing kubeconfigs, requeueing'']))
      else Ret None)"
| "companions_loop r (msa # msas) pending =
     (let ns = m_namespace (u_meta msa) in
      and_then (get_secret (ObjectKey (dr_operatorNamespace r) (StandingKubeconfigName ns))) (\<lambda>res.
      case res of
        Inr _ \<Rightarrow> companions_loop r msas (pending + 1)
      | Inl err \<Rightarrow>
          if \<not> IsNotFound err then Ret (Some (spoke_error ''checking standing kubeconfig for spoke '' ns [] (ApiErr err)))
          else and_then (delete_companions ''deleting ManifestWork for spoke '' ''deleting MSA for spoke '' ns) (\<lambda>derr.
            case derr of
              Some e \<Rightarrow> Ret (Some e)
            | None \<Rightarrow> companions_loop r msas pending)))"

definition cleanupAllDiscoveryCompanions :: "mce_reconciler \<Rightarrow> go_error option prog" where
  "cleanupAllDiscoveryCompanions r =
    and_then discovery_msas (\<lambda>res.
    case res of
      Inl err \<Rightarrow>
        if IsNoMatchError err then Ret None
        else Ret (Some (Errorf [S ''listing discovery MSAs for companion cleanup: '', W (ApiErr err)]))
    | Inr msas \<Rightarrow> companions_loop r msas 0)"

fun orphans_loop :: "unstructured list \<Rightarrow> go_error option prog" where
  "orphans_loop [] = Ret None"
| "orphans_loop (msa # msas) =
     (let msaNS = m_namespace (u_meta msa) in
      and_then (get_spokecluster (ObjectKey [] msaNS)) (\<lambda>res.
      case (case res of
          Inl err \<Rightarrow> if \<not> IsNotFound err then Inl err else Inr True
        | Inr sc \<Rightarrow> Inr (\<not> owned (sc_meta sc))) of
        Inl err \<Rightarrow> Ret (Some (spoke_error ''checking SpokeCluster '' msaNS '' for orphan cleanup'' (ApiErr err)))
      | Inr orphaned \<Rightarrow>
          if orphaned
          then and_then (delete_companions ''cleaning up RBAC for orphaned spoke '' ''cleaning up MSA for orphaned spoke '' msaNS) (\<lambda>derr.
            case derr of
              Some e \<Rightarrow> Ret (Some e)
            | None \<Rightarrow> orphans_loop msas)
          else orphans_loop msas))"

definition cleanupOrphanedCompanions :: "go_error option prog" where
  "cleanupOrphanedCompanions =
    and_then discovery_msas (\<lambda>res.
    case res of
      Inl err \<Rightarrow>
        if IsNoMatchError err then Ret None
        else Ret (Some (Errorf [S ''listing discovery MSAs for orphan cleanup: '', W (ApiErr err)]))
    | Inr msas \<Rightarrow> orphans_loop msas)"

section \<open>SpokeClusters\<close>

definition discovery_spokes :: "(api_error + spokecluster list) prog" where
  "discovery_spokes = client_list KSpokeCluster as_spokecluster discovery_labels"

fun delete_listed :: "spokecluster list \<Rightarrow> go_error option prog" where
  "delete_listed [] = Ret None"
| "delete_listed (sc # scs) =
     (if IsZero (m_deletion (sc_meta sc)) then
        and_then (client_delete Hub KSpokeCluster (ObjectKeyFromObject (OSpokeCluster sc))) (\<lambda>derr.
        case derr of
          None \<Rightarrow> delete_listed scs
        | Some err \<Rightarrow>
            if \<not> IsNotFound err then Ret (Some (spoke_error ''deleting SpokeCluster '' (sc_name sc) '' during cleanup'' (ApiErr err)))
            else delete_listed scs)
      else delete_listed scs)"

definition cleanupAllDiscoverySpokes :: "go_error option prog" where
  "cleanupAllDiscoverySpokes =
    and_then discovery_spokes (\<lambda>res.
    case res of
      Inl err \<Rightarrow> Ret (Some (Errorf [S ''listing discovery SpokeClusters for cleanup: '', W (ApiErr err)]))
    | Inr spokes \<Rightarrow> delete_listed spokes)"

definition mce_source :: "discoveredSpoke \<Rightarrow> credential_source_spec" where
  "mce_source ds = \<lparr>cs_secret = None, cs_mce = Some \<lparr>mcs_managedClusterName = ds_managedClusterName ds\<rparr>\<rparr>"

text \<open>Restoring the discovery-owned fields: the SpokeCluster, and whether it needs an update.\<close>

definition restore_spoke :: "discoveredSpoke \<Rightarrow> spokecluster \<Rightarrow> spokecluster \<times> bool" where
  "restore_spoke ds sc =
    (let (sc1, n1) = (if sp_apiServer (sc_spec sc) \<noteq> ds_apiServer ds
           then (sc\<lparr>sc_spec := (sc_spec sc)\<lparr>sp_apiServer := ds_apiServer ds\<rparr>\<rparr>, True) else (sc, False)) in
     if (case sc_mce sc1 of None \<Rightarrow> True | Some m \<Rightarrow> mcs_managedClusterName m \<noteq> ds_managedClusterName ds)
     then (sc1\<lparr>sc_spec := (sc_spec sc1)\<lparr>sp_credentialSource := mce_source ds\<rparr>\<rparr>, True) else (sc1, n1))"

definition discovery_spoke :: "string \<Rightarrow> discoveredSpoke \<Rightarrow> spokecluster" where
  "discovery_spoke name ds =
    \<lparr>sc_meta = (new_meta [] name)\<lparr>m_labels := Some discovery_labels\<rparr>,
     sc_spec = \<lparr>sp_apiServer = ds_apiServer ds, sp_credentialSource = mce_source ds\<rparr>, sc_conditions = []\<rparr>"

definition ensure_companions :: "k8s_lib \<Rightarrow> string \<Rightarrow> discoveredSpoke \<Rightarrow> go_error option prog" where
  "ensure_companions L name ds =
    and_then (ensureMSA L (ds_managedClusterName ds)) (\<lambda>merr.
    case merr of
      Some err \<Rightarrow> Ret (Some (spoke_error ''ensuring MSA for '' name [] err))
    | None \<Rightarrow>
        and_then (ensureMSARBAC L (ds_managedClusterName ds)) (\<lambda>rerr.
        case rerr of
          Some err \<Rightarrow> Ret (Some (spoke_error ''ensuring spoke RBAC for '' name [] err))
        | None \<Rightarrow> Ret None))"

text \<open>One round of the loop over the desired set: the error it appends, if any.\<close>

definition ensure_spoke ::
  "k8s_lib \<Rightarrow> spokecluster go_map \<Rightarrow> string \<Rightarrow> discoveredSpoke \<Rightarrow> go_error option prog" where
  "ensure_spoke L existing name ds =
    (case map_of existing name of
       Some sc \<Rightarrow>
         (case restore_spoke ds sc of (sc', needsUpdate) \<Rightarrow>
          if needsUpdate then
            and_then (client_update Hub (OSpokeCluster sc')) (\<lambda>ures.
            case ures of
              Inl err \<Rightarrow> Ret (Some (spoke_error ''updating SpokeCluster '' name [] (ApiErr err)))
            | Inr _ \<Rightarrow> ensure_companions L name ds)
          else ensure_companions L name ds)
     | None \<Rightarrow>
         and_then (get_spokecluster (ObjectKey [] name)) (\<lambda>res.
         case res of
           Inr existingManual \<Rightarrow> Ret None
         | Inl err \<Rightarrow>
             if \<not> IsNotFound err then Ret (Some (spoke_error ''checking for collision on '' name [] (ApiErr err)))
             else
               and_then (client_create Hub (OSpokeCluster (discovery_spoke name ds))) (\<lambda>cerr.
               case cerr of
                 Some err \<Rightarrow>
                   if IsAlreadyExists err then Ret None
                   else Ret (Some (spoke_error ''creating SpokeCluster '' name [] (ApiErr err)))
               | None \<Rightarrow> ensure_companions L name ds)))"

definition append_err :: "go_error list \<Rightarrow> go_error option \<Rightarrow> go_error list" where
  "append_err errs e = (case e of None \<Rightarrow> errs | Some err \<Rightarrow> errs @ [err])"

fun ensure_spokes ::
  "k8s_lib \<Rightarrow> spokecluster go_map \<Rightarrow> (string \<times> discoveredSpoke) list \<Rightarrow> go_error list \<Rightarrow> go_error list prog" where
  "ensure_spokes L existing [] errs = Ret errs"
| "ensure_spokes L existing ((name, ds) # xs) errs =
     and_then (ensure_spoke L existing name ds) (\<lambda>e. ensure_spokes L existing xs (append_err errs e))"

fun remove_spokes ::
  "discoveredSpoke go_map \<Rightarrow> (string \<times> spokecluster) list \<Rightarrow> go_error list \<Rightarrow> go_error list prog" where
  "remove_spokes desired [] errs = Ret errs"
| "remove_spokes desired ((name, sc) # xs) errs =
     (case map_of desired name of
        Some _ \<Rightarrow> remove_spokes desired xs errs
      | None \<Rightarrow>
          if IsZero (m_deletion (sc_meta sc)) then
            and_then (client_delete Hub KSpokeCluster (ObjectKeyFromObject (OSpokeCluster sc))) (\<lambda>derr.
            case derr of
              Some err \<Rightarrow>
                if \<not> IsNotFound err
                then remove_spokes desired xs (errs @ [spoke_error ''deleting SpokeCluster '' name [] (ApiErr err)])
                else remove_spokes desired xs errs
            | None \<Rightarrow> remove_spokes desired xs errs)
          else remove_spokes desired xs errs)"

section \<open>Reconcile\<close>

text \<open>From the desired set to the end: the three loops.\<close>

definition apply_inventory ::
  "k8s_lib \<Rightarrow> spokecluster go_map \<Rightarrow> discoveredSpoke go_map \<Rightarrow> go_error option prog" where
  "apply_inventory L existing desired =
    and_then (ensure_spokes L existing (range_map L 3 desired) []) (\<lambda>errs.
    and_then (remove_spokes desired (range_map L 4 existing) errs) (\<lambda>errs'.
    and_then cleanupOrphanedCompanions (\<lambda>cerr. Ret (errors_Join (append_err errs' cerr)))))"

definition discover :: "k8s_lib \<Rightarrow> mce_reconciler \<Rightarrow> hubconfig \<Rightarrow> (mce_reconciler \<times> reconcile_result) prog" where
  "discover L r hubConfig =
    and_then (api_reader_list (KUnstructured managedClusterListGVK) as_unstructured) (\<lambda>mres.
    case mres of
      Inl err \<Rightarrow> Ret (r, no_requeue, Some (Errorf [S ''listing ManagedClusters: '', W (ApiErr err)]))
    | Inr mcs \<Rightarrow>
        and_then (tryRegisterWatch r) (\<lambda>r'.
        and_then discovery_spokes (\<lambda>sres.
        case sres of
          Inl err \<Rightarrow> Ret (r', no_requeue, Some (Errorf [S ''listing discovery SpokeClusters: '', W (ApiErr err)]))
        | Inr spokes \<Rightarrow>
            (let existing = existing_spokes spokes;
                 desired = desired_spokes L (selector_labels hubConfig) existing mcs in
             and_then (apply_inventory L existing desired) (\<lambda>e. Ret (r', no_requeue, e))))))"

definition withdraw :: "go_error option prog" where
  "withdraw =
    and_then cleanupAllDiscoverySpokes (\<lambda>e.
    case e of
      Some err \<Rightarrow> Ret (Some err)
    | None \<Rightarrow> cleanupOrphanedCompanions)"

definition Mce_Reconcile :: "k8s_lib \<Rightarrow> mce_reconciler \<Rightarrow> (mce_reconciler \<times> reconcile_result) prog" where
  "Mce_Reconcile L r =
    and_then (get_hubconfig (ObjectKey [] singletonKey)) (\<lambda>res.
    case res of
      Inl err \<Rightarrow>
        if IsNotFound err then and_then withdraw (\<lambda>e. Ret (r, no_requeue, e))
        else Ret (r, no_requeue, Some (ApiErr err))
    | Inr hubConfig \<Rightarrow>
        if \<not> IsZero (m_deletion (hc_meta hubConfig)) then and_then withdraw (\<lambda>e. Ret (r, no_requeue, e))
        else if hs_mode (hc_spec hubConfig) \<noteq> ClusterRegistryModeMCE
        then and_then (cleanupAllDiscoveryCompanions r) (\<lambda>e. Ret (r, no_requeue, e))
        else discover L r hubConfig)"

section \<open>Totality\<close>

lemma never_panics_companions [simp]:
  "never_panics (ensureMSA L n)" "never_panics (ensureMSARBAC L n)" "never_panics (ensure_companions L name ds)"
  "never_panics (deleteMSARBAC n)" "never_panics (deleteMSA n)" "never_panics (delete_companions a b n)"
  by (auto simp: ensureMSA_def ensureMSARBAC_def ensure_companions_def deleteMSARBAC_def deleteMSA_def
      delete_companions_def hub_ops Let_def intro!: never_panics_and_then split: option.splits sum.splits)

lemma never_panics_loops [simp]:
  "never_panics (companions_loop r msas n)" "never_panics (orphans_loop msas)" "never_panics (delete_listed scs)"
  "never_panics (remove_spokes desired nscs errs)"
proof -
  show "never_panics (companions_loop r msas n)"
    by (induction r msas n rule: companions_loop.induct)
      (auto simp: hub_ops Let_def intro!: never_panics_and_then split: option.splits sum.splits)
  show "never_panics (orphans_loop msas)"
    by (induction msas) (auto simp: hub_ops Let_def intro!: never_panics_and_then split: option.splits sum.splits)
  show "never_panics (delete_listed scs)"
    by (induction scs) (auto intro!: never_panics_and_then split: option.splits)
  show "never_panics (remove_spokes desired nscs errs)"
    by (induction desired nscs errs rule: remove_spokes.induct) (auto intro!: never_panics_and_then split: option.splits)
qed

lemma never_panics_ensure_spoke [simp]: "never_panics (ensure_spoke L existing name ds)"
  by (auto simp: ensure_spoke_def hub_ops intro!: never_panics_and_then split: option.splits sum.splits prod.splits)

lemma never_panics_ensure_spokes [simp]: "never_panics (ensure_spokes L existing xs errs)"
  by (induction L existing xs errs rule: ensure_spokes.induct) (auto intro!: never_panics_and_then)

lemma never_panics_cleanups [simp]:
  "never_panics (cleanupAllDiscoveryCompanions r)" "never_panics cleanupOrphanedCompanions"
  "never_panics cleanupAllDiscoverySpokes" "never_panics withdraw" "never_panics (apply_inventory L existing desired)"
  "never_panics (tryRegisterWatch r)"
  by (auto simp: cleanupAllDiscoveryCompanions_def cleanupOrphanedCompanions_def cleanupAllDiscoverySpokes_def
      withdraw_def apply_inventory_def tryRegisterWatch_def discovery_msas_def discovery_spokes_def
      intro!: never_panics_and_then split: option.splits sum.splits)

text \<open>No answer of the API server makes the inventory reconcile panic.\<close>

lemma never_panics_Mce_Reconcile: "never_panics (Mce_Reconcile L r)"
  by (auto simp: Mce_Reconcile_def discover_def discovery_spokes_def hub_ops Let_def
      intro!: never_panics_and_then split: option.splits sum.splits)

section \<open>Which ManagedClusters are enrolled\<close>

lemma labels_within_iff: "labels_within mcLabels kvs \<longleftrightarrow> (\<forall>(k, v) \<in> set kvs. go_get mcLabels k = Some v)"
  by (induction mcLabels kvs rule: labels_within.induct) (auto split: option.splits)

text \<open>The selection the documentation describes.\<close>

definition selected :: "string go_map option \<Rightarrow> object_meta \<Rightarrow> bool" where
  "selected matchLabels m \<longleftrightarrow> m_deletion m = None \<and> go_str (m_labels m) localClusterLabel \<noteq> ''true'' \<and>
     (\<forall>k v. go_get matchLabels k = Some v \<longrightarrow> go_get (m_labels m) k = Some v)"

context map_ranging
begin

lemma matchesSelector_iff:
  assumes "\<And>m. matchLabels = Some m \<Longrightarrow> distinct (map fst m)"
  shows "matchesSelector L mcLabels matchLabels \<longleftrightarrow> (\<forall>k v. go_get matchLabels k = Some v \<longrightarrow> go_get mcLabels k = Some v)"
proof (cases matchLabels)
  case (Some m)
  with assms have d: "distinct (map fst m)" by simp
  then have "map_of m k = Some v \<longleftrightarrow> (k, v) \<in> set m" for k v by simp
  with Some set_range_map [OF d] show ?thesis
    by (auto simp: matchesSelector_def labels_within_iff)
qed (simp add: matchesSelector_def)

end

lemma first_https_url_find:
  "first_https_url cfgs = find (\<lambda>u. HasPrefix u ''https://'')
     (List.map_filter (\<lambda>cfg. case cfg of JObj m \<Rightarrow> (case map_of m ''url'' of Some (JStr u) \<Rightarrow> Some u | _ \<Rightarrow> None) | _ \<Rightarrow> None) cfgs)"
  by (induction cfgs) (auto simp: List.map_filter_def HasPrefix_def split: json.splits option.splits)

lemma restore_spoke_frame:
  "sc_meta (fst (restore_spoke ds sc)) = sc_meta sc" "sc_conditions (fst (restore_spoke ds sc)) = sc_conditions sc"
  by (auto simp: restore_spoke_def Let_def)

text \<open>The URLs among the client configurations of a ManagedCluster.\<close>

definition config_urls :: "json list \<Rightarrow> string list" where
  "config_urls cfgs = List.map_filter
     (\<lambda>cfg. case cfg of JObj m \<Rightarrow> (case map_of m ''url'' of Some (JStr u) \<Rightarrow> Some u | _ \<Rightarrow> None) | _ \<Rightarrow> None) cfgs"

text \<open>
  \<open>extractAPIServer\<close> returns the first URL with an \<open>https\<close> scheme among the client
  configurations, skipping entries that are no maps, have no URL or another scheme; it
  fails exactly when there is none.
\<close>

lemma extractAPIServer_first:
  "extractAPIServer L mc = Inr url \<longleftrightarrow>
     (\<exists>cfgs. lib_NestedSlice L (u_object mc) [''spec'', ''managedClusterClientConfigs''] = Inr (Some cfgs) \<and>
       find (\<lambda>u. HasPrefix u ''https://'') (config_urls cfgs) = Some url)"
  by (auto simp: extractAPIServer_def Let_def config_urls_def first_https_url_find [symmetric] split: sum.splits option.splits if_splits)

definition enrolment ::
  "k8s_lib \<Rightarrow> string go_map option \<Rightarrow> spokecluster go_map \<Rightarrow> unstructured \<Rightarrow> discoveredSpoke option" where
  "enrolment L matchLabels existing mc =
    (if m_deletion (u_meta mc) = None \<and> go_str (m_labels (u_meta mc)) localClusterLabel \<noteq> ''true'' \<and>
        matchesSelector L (m_labels (u_meta mc)) matchLabels
     then (case extractAPIServer L mc of
         Inr url \<Rightarrow> Some \<lparr>ds_apiServer = url, ds_managedClusterName = m_name (u_meta mc)\<rparr>
       | Inl err \<Rightarrow> map_option (\<lambda>sc. \<lparr>ds_apiServer = sp_apiServer (sc_spec sc), ds_managedClusterName = m_name (u_meta mc)\<rparr>)
           (map_of existing (m_name (u_meta mc))))
     else None)"

lemma add_desired_enrolment:
  "add_desired L ml ex mc desired =
    (case enrolment L ml ex mc of None \<Rightarrow> desired | Some ds \<Rightarrow> AList.update (m_name (u_meta mc)) ds desired)"
  by (auto simp: add_desired_def enrolment_def Let_def split: sum.splits option.splits)

lemma map_of_add_desired:
  "map_of (fold (add_desired L ml ex) mcs D) name = Some ds \<Longrightarrow>
    map_of D name = Some ds \<or> (\<exists>mc \<in> set mcs. m_name (u_meta mc) = name \<and> enrolment L ml ex mc = Some ds)"
proof (induction mcs arbitrary: D)
  case (Cons mc mcs)
  from Cons.prems have "map_of (fold (add_desired L ml ex) mcs (add_desired L ml ex mc D)) name = Some ds" by simp
  from Cons.IH [OF this] show ?case
    by (auto simp: add_desired_enrolment split: option.splits if_splits)
qed simp

lemma map_of_add_desired_keep:
  "name \<notin> (\<lambda>mc. m_name (u_meta mc)) ` set mcs \<Longrightarrow> map_of (fold (add_desired L ml ex) mcs D) name = map_of D name"
  by (induction mcs arbitrary: D) (auto simp: add_desired_enrolment split: option.splits)

lemma map_of_desired_spokes:
  assumes "distinct (map (\<lambda>mc. m_name (u_meta mc)) mcs)"
  shows "map_of (desired_spokes L ml ex mcs) name = Some ds \<longleftrightarrow>
    (\<exists>mc \<in> set mcs. m_name (u_meta mc) = name \<and> enrolment L ml ex mc = Some ds)"
proof
  assume "map_of (desired_spokes L ml ex mcs) name = Some ds"
  then show "\<exists>mc \<in> set mcs. m_name (u_meta mc) = name \<and> enrolment L ml ex mc = Some ds"
    unfolding desired_spokes_def by (auto dest: map_of_add_desired)
next
  assume "\<exists>mc \<in> set mcs. m_name (u_meta mc) = name \<and> enrolment L ml ex mc = Some ds"
  then obtain mc xs ys where mc: "mcs = xs @ mc # ys" "m_name (u_meta mc) = name" "enrolment L ml ex mc = Some ds"
    by (metis split_list)
  with assms have "name \<notin> (\<lambda>mc. m_name (u_meta mc)) ` set ys" by auto
  with mc show "map_of (desired_spokes L ml ex mcs) name = Some ds"
    by (simp add: desired_spokes_def map_of_add_desired_keep add_desired_enrolment)
qed

lemma distinct_desired_spokes: "distinct (map fst (desired_spokes L ml ex mcs))"
proof -
  have "distinct (map fst D) \<Longrightarrow> distinct (map fst (fold (add_desired L ml ex) mcs D))" for D
    by (induction mcs arbitrary: D) (auto simp: add_desired_enrolment distinct_update split: option.splits)
  then show ?thesis by (simp add: desired_spokes_def)
qed

lemma map_of_fold_update:
  "map_of (fold (\<lambda>sc m. AList.update (sc_name sc) sc m) scs D) n = Some sc \<Longrightarrow> sc \<in> set scs \<and> sc_name sc = n \<or> map_of D n = Some sc"
proof (induction scs arbitrary: D)
  case (Cons a scs)
  from Cons.prems have "map_of (fold (\<lambda>sc m. AList.update (sc_name sc) sc m) scs (AList.update (sc_name a) a D)) n = Some sc" by simp
  from Cons.IH [OF this] show ?case by (auto split: if_splits)
qed simp

lemma existing_spokes_Some: "map_of (existing_spokes scs) n = Some sc \<Longrightarrow> sc \<in> set scs \<and> sc_name sc = n"
  unfolding existing_spokes_def by (drule map_of_fold_update) simp

lemma distinct_existing_spokes: "distinct (map fst (existing_spokes scs))"
proof -
  have "distinct (map fst D) \<Longrightarrow> distinct (map fst (fold (\<lambda>sc m. AList.update (sc_name sc) sc m) scs D))" for D
    by (induction scs arbitrary: D) (auto simp: distinct_update)
  then show ?thesis by (simp add: existing_spokes_def)
qed

text \<open>
  The API server that a ManagedCluster announces: the first of the URLs listed under \<open>spec.managedClusterClientConfigs\<close>
  that has the scheme \<open>https\<close>.
\<close>

definition announced_server :: "k8s_lib \<Rightarrow> unstructured \<Rightarrow> string option" where
  "announced_server L mc =
    (case lib_NestedSlice L (u_object mc) [''spec'', ''managedClusterClientConfigs''] of
       Inr (Some cfgs) \<Rightarrow> find (\<lambda>u. take 8 u = ''https://'') (config_urls cfgs)
     | _ \<Rightarrow> None)"

lemma extractAPIServer_announced:
  "extractAPIServer L mc = Inr url \<longleftrightarrow> announced_server L mc = Some url"
proof -
  have "HasPrefix u ''https://'' \<longleftrightarrow> take 8 u = ''https://''" for u by (simp add: HasPrefix_def numeral_eq_Suc)
  then show ?thesis
    unfolding extractAPIServer_first announced_server_def by (auto split: sum.splits option.splits)
qed

text \<open>
  C21.  The desired set: a ManagedCluster is enrolled exactly when it is not being deleted, is not the
  hub's own import, carries every label of the selector (whatever order the labels are compared
  in) and announces an API server, that is, lists a URL that starts with \<open>https://\<close>, the first of which is taken (URLs of
  any other scheme are passed over wherever they stand in the list); or, when it announces none, is enrolled already, and then it
  keeps the API server it was enrolled with.
\<close>

theorem desired_spokes_iff:
  assumes "map_ranging L" and "\<And>m. matchLabels = Some m \<Longrightarrow> distinct (map fst m)"
    and "distinct (map (\<lambda>mc. m_name (u_meta mc)) mcs)"
  shows "map_of (desired_spokes L matchLabels existing mcs) name = Some ds \<longleftrightarrow>
    (\<exists>mc \<in> set mcs. m_name (u_meta mc) = name \<and> selected matchLabels (u_meta mc) \<and> ds_managedClusterName ds = name \<and>
      (case (case lib_NestedSlice L (u_object mc) [''spec'', ''managedClusterClientConfigs''] of
               Inr (Some cfgs) \<Rightarrow> find (\<lambda>u. take 8 u = ''https://'') (config_urls cfgs)
             | _ \<Rightarrow> None) of
         Some url \<Rightarrow> ds_apiServer ds = url
       | None \<Rightarrow> map_option (\<lambda>sc. sp_apiServer (sc_spec sc)) (map_of existing name) = Some (ds_apiServer ds)))"
proof -
  note m = map_ranging.matchesSelector_iff [OF assms(1,2)]
  have "enrolment L matchLabels existing mc = Some ds \<longleftrightarrow> selected matchLabels (u_meta mc) \<and>
      ds_managedClusterName ds = m_name (u_meta mc) \<and> (case announced_server L mc of
         Some url \<Rightarrow> ds_apiServer ds = url
       | None \<Rightarrow> map_option (\<lambda>sc. sp_apiServer (sc_spec sc)) (map_of existing (m_name (u_meta mc))) = Some (ds_apiServer ds))" for mc
  proof (cases "extractAPIServer L mc")
    case (Inl err)
    then have "announced_server L mc = None"
      using extractAPIServer_announced [of L mc] by (cases "announced_server L mc") auto
    with Inl show ?thesis by (cases ds) (auto simp: enrolment_def selected_def m)
  next
    case (Inr url)
    then have "announced_server L mc = Some url" by (simp only: extractAPIServer_announced)
    with Inr show ?thesis by (cases ds) (auto simp: enrolment_def selected_def m)
  qed
  then show ?thesis unfolding map_of_desired_spokes [OF assms(3)] announced_server_def by auto
qed

text \<open>A ManagedCluster that lists an entry that is no map, a plain HTTP URL, and two HTTPS URLs.\<close>

definition edge_cluster :: unstructured where
  "edge_cluster = \<lparr>u_gvk = managedClusterGVK, u_meta = (new_meta [] ''edge'')\<lparr>m_labels := Some [(''env'', ''prod'')]\<rparr>,
     u_object = JObj [(''spec'', JObj [(''managedClusterClientConfigs'',
       JArr [JStr ''x'', JObj [(''url'', JStr ''http://edge'')], JObj [(''url'', JStr ''https://edge:6443'')],
         JObj [(''url'', JStr ''https://other'')]])])]\<rparr>"

theorem desired_spokes_iff_witness:
  "map_of (desired_spokes ref_lib (Some [(''env'', ''prod'')]) [] [edge_cluster]) ''edge'' =
    Some \<lparr>ds_apiServer = ''https://edge:6443'', ds_managedClusterName = ''edge''\<rparr>"
  by (subst desired_spokes_iff [OF ref_library.map_ranging_axioms])
    (auto simp: edge_cluster_def selected_def go_str_def hub_consts ref_NestedSlice_def config_urls_def List.map_filter_def)

section \<open>What justifies a write\<close>

text \<open>What the events of a run so far establish.\<close>

definition not_found :: "event set \<Rightarrow> req \<Rightarrow> bool" where
  "not_found E q \<longleftrightarrow> (\<exists>e. (q, RErr e) \<in> E \<and> IsNotFound e)"

definition listed_spokes :: "event set \<Rightarrow> spokecluster set" where
  "listed_spokes E = {sc. \<exists>xs. (ListObjs KSpokeCluster discovery_labels, RList xs) \<in> E \<and> OSpokeCluster sc \<in> set xs}"

definition fetched :: "event set \<Rightarrow> gvk \<Rightarrow> object_key \<Rightarrow> unstructured \<Rightarrow> bool" where
  "fetched E g key u \<longleftrightarrow> (Get Hub (KUnstructured g) key, RObj (OUnstructured u)) \<in> E"

definition mce_mode :: "event set \<Rightarrow> bool" where
  "mce_mode E \<longleftrightarrow> (\<exists>hc. (Get Hub KHubConfig (ObjectKey [] singletonKey), RObj (OHubConfig hc)) \<in> E \<and>
     IsZero (m_deletion (hc_meta hc)) \<and> hs_mode (hc_spec hc) = ClusterRegistryModeMCE)"

text \<open>
  The ManifestWork of a spoke is withdrawn as far as the code cares: it was found missing; or it was read and has not discovery's
  label, in which case it stays; or it was read and its deletion was accepted, after which it may still wait for its finalizers.
\<close>

definition work_withdrawn :: "event set \<Rightarrow> string \<Rightarrow> bool" where
  "work_withdrawn E ns \<longleftrightarrow> not_found E (Get Hub (KUnstructured manifestWork_gvk) (work_key ns)) \<or>
     (\<exists>u. fetched E manifestWork_gvk (work_key ns) u \<and> (\<not> owned (u_meta u) \<or>
       (\<exists>a. (Delete Hub (KUnstructured manifestWork_gvk) (okey (OUnstructured u)), a) \<in> E \<and> (\<forall>e. a = RErr e \<longrightarrow> IsNotFound e))))"

text \<open>Nothing on the hub needs the access to a spoke any more.\<close>

definition released :: "string \<Rightarrow> event set \<Rightarrow> string \<Rightarrow> bool" where
  "released opns E ns \<longleftrightarrow> not_found E (Get Hub KSecret (ObjectKey opns (StandingKubeconfigName ns))) \<or>
     not_found E (Get Hub KSpokeCluster (ObjectKey [] ns)) \<or>
     (\<exists>sc. (Get Hub KSpokeCluster (ObjectKey [] ns), RObj (OSpokeCluster sc)) \<in> E \<and> \<not> owned (sc_meta sc))"

definition create_ok :: "event set \<Rightarrow> obj \<Rightarrow> bool" where
  "create_ok E x \<longleftrightarrow> mce_mode E \<and>
    (case x of
       OSpokeCluster sc \<Rightarrow> (\<exists>ds. sc = discovery_spoke (sc_name sc) ds) \<and> not_found E (Get Hub KSpokeCluster (ObjectKey [] (sc_name sc)))
     | OUnstructured u \<Rightarrow> owned (u_meta u) \<and> (u_gvk u, m_name (u_meta u)) \<in> {(msa_gvk, MSAName), (manifestWork_gvk, msaRBACWorkName)}
     | _ \<Rightarrow> False)"

definition update_ok :: "event set \<Rightarrow> obj \<Rightarrow> bool" where
  "update_ok E x \<longleftrightarrow> mce_mode E \<and>
    (case x of
       OSpokeCluster sc \<Rightarrow> (\<exists>sc0 \<in> listed_spokes E. sc_meta sc = sc_meta sc0 \<and> sc_conditions sc = sc_conditions sc0)
     | OUnstructured u \<Rightarrow> u_gvk u = manifestWork_gvk \<and>
         (\<exists>u0 ns. fetched E manifestWork_gvk (work_key ns) u0 \<and> owned (u_meta u0) \<and> u_meta u = u_meta u0)
     | _ \<Rightarrow> False)"

definition delete_ok :: "string \<Rightarrow> event set \<Rightarrow> kind \<Rightarrow> object_key \<Rightarrow> bool" where
  "delete_ok opns E k key \<longleftrightarrow>
    (k = KSpokeCluster \<and> (\<exists>sc \<in> listed_spokes E. key = okey (OSpokeCluster sc) \<and> IsZero (m_deletion (sc_meta sc)))) \<or>
    (k = KUnstructured manifestWork_gvk \<and> (\<exists>u ns. fetched E manifestWork_gvk (work_key ns) u \<and> owned (u_meta u) \<and>
      key = okey (OUnstructured u) \<and> released opns E ns)) \<or>
    (k = KUnstructured msa_gvk \<and> (\<exists>u ns. fetched E msa_gvk (msa_key ns) u \<and> owned (u_meta u) \<and>
      key = okey (OUnstructured u) \<and> released opns E ns \<and> work_withdrawn E ns))"

definition discovery_ok :: "string \<Rightarrow> event set \<Rightarrow> req \<Rightarrow> bool" where
  "discovery_ok opns E q \<longleftrightarrow>
    (case q of
       Create c x \<Rightarrow> c = Hub \<and> create_ok E x
     | Update c x \<Rightarrow> c = Hub \<and> update_ok E x
     | Delete c k key \<Rightarrow> c = Hub \<and> delete_ok opns E k key
     | _ \<Rightarrow> \<not> is_write q)"

lemma discovery_ok_simps [simp]:
  "discovery_ok opns E (Create c x) \<longleftrightarrow> c = Hub \<and> create_ok E x"
  "discovery_ok opns E (Update c x) \<longleftrightarrow> c = Hub \<and> update_ok E x"
  "discovery_ok opns E (Delete c k key) \<longleftrightarrow> c = Hub \<and> delete_ok opns E k key"
  "discovery_ok opns E (Get c k key)" "discovery_ok opns E (ListObjs k ls)" "discovery_ok opns E (ApiReaderList k)"
  "discovery_ok opns E (RegisterWatch g)"
  by (simp_all add: discovery_ok_def)

lemma justified_mono:
  assumes "E \<subseteq> E'"
  shows "not_found E q \<Longrightarrow> not_found E' q" "listed_spokes E \<subseteq> listed_spokes E'" "fetched E g key u \<Longrightarrow> fetched E' g key u"
    "mce_mode E \<Longrightarrow> mce_mode E'" "work_withdrawn E ns \<Longrightarrow> work_withdrawn E' ns" "released opns E ns \<Longrightarrow> released opns E' ns"
proof -
  show n: "not_found E q \<Longrightarrow> not_found E' q" for q using assms by (auto simp: not_found_def)
  show f: "fetched E g key u \<Longrightarrow> fetched E' g key u" for g key u using assms by (auto simp: fetched_def)
  show "listed_spokes E \<subseteq> listed_spokes E'" "mce_mode E \<Longrightarrow> mce_mode E'" using assms by (auto simp: listed_spokes_def mce_mode_def)
  show "work_withdrawn E ns \<Longrightarrow> work_withdrawn E' ns" using assms n f unfolding work_withdrawn_def by blast
  show "released opns E ns \<Longrightarrow> released opns E' ns" using assms n unfolding released_def by blast
qed

lemma guarded_deleteMSARBAC:
  "released opns E ns \<Longrightarrow> guarded (discovery_ok opns) E (deleteMSARBAC ns)"
  using justified_mono(6) [of E "insert ev E" for ev]
  by (fastforce simp: deleteMSARBAC_def hub_ops Let_def delete_ok_def fetched_def resp_obj_Inr split: sum.splits option.splits)

lemma deleteMSARBAC_None: "exec (deleteMSARBAC ns) t (Done None) \<Longrightarrow> work_withdrawn (set t) ns"
  by (auto simp: deleteMSARBAC_def hub_ops Let_def exec_simps resp_obj_Inr resp_obj_Inl work_withdrawn_def not_found_def fetched_def resp_error_None
      split: if_splits)

lemma guarded_deleteMSA:
  "released opns E ns \<Longrightarrow> work_withdrawn E ns \<Longrightarrow> guarded (discovery_ok opns) E (deleteMSA ns)"
  using justified_mono(5,6) [of E "insert ev E" for ev]
  by (fastforce simp: deleteMSA_def hub_ops Let_def delete_ok_def fetched_def resp_obj_Inr split: sum.splits option.splits)

lemma guarded_delete_companions:
  assumes "released opns E ns"
  shows "guarded (discovery_ok opns) E (delete_companions a b ns)"
  unfolding delete_companions_def
proof (rule guarded_seq [OF guarded_deleteMSARBAC [OF assms]])
  fix t e
  assume "exec (deleteMSARBAC ns) t (Done e)"
  then show "guarded (discovery_ok opns) (E \<union> set t)
      (case e of Some err \<Rightarrow> Ret (Some (spoke_error a ns [] err))
       | None \<Rightarrow> and_then (deleteMSA ns) (\<lambda>merr. case merr of Some err \<Rightarrow> Ret (Some (spoke_error b ns [] err)) | None \<Rightarrow> Ret None))"
  proof (cases e)
    case None
    with \<open>exec (deleteMSARBAC ns) t (Done e)\<close> have "work_withdrawn (E \<union> set t) ns"
      using deleteMSARBAC_None justified_mono(5) [of "set t" "E \<union> set t"] by blast
    moreover have "released opns (E \<union> set t) ns" using assms justified_mono(6) [of E "E \<union> set t"] by blast
    ultimately have "guarded (discovery_ok opns) (E \<union> set t) (deleteMSA ns)" by (intro guarded_deleteMSA)
    then show ?thesis using None by (auto intro!: guarded_seq split: option.splits)
  qed simp
qed

lemma guarded_companions_loop: "guarded (discovery_ok (dr_operatorNamespace r)) E (companions_loop r msas n)"
proof (induction r msas n arbitrary: E rule: companions_loop.induct)
  case (2 r msa msas n)
  let ?ns = "m_namespace (u_meta msa)"
  let ?q = "Get Hub KSecret (ObjectKey (dr_operatorNamespace r) (StandingKubeconfigName ?ns))"
  have "guarded (discovery_ok (dr_operatorNamespace r)) (insert (?q, RErr e) E)
      (and_then (delete_companions a b ?ns) (\<lambda>derr. case derr of Some e \<Rightarrow> Ret (Some e) | None \<Rightarrow> companions_loop r msas n))"
    if "IsNotFound e" for e a b
    by (rule guarded_seq [OF guarded_delete_companions])
      (use that 2 in \<open>auto simp: released_def not_found_def split: option.split\<close>)
  then show ?case using 2 by (auto simp: hub_ops Let_def resp_obj_Inl split: sum.split)
qed simp

lemma guarded_orphans_loop: "guarded (discovery_ok opns) E (orphans_loop msas)"
proof (induction msas arbitrary: E)
  case (Cons msa msas)
  let ?ns = "m_namespace (u_meta msa)"
  have d: "guarded (discovery_ok opns) E
      (and_then (delete_companions a b ?ns) (\<lambda>derr. case derr of Some e \<Rightarrow> Ret (Some e) | None \<Rightarrow> orphans_loop msas))"
    if "released opns E ?ns" for E a b
    by (rule guarded_seq [OF guarded_delete_companions [OF that]]) (use Cons in \<open>auto split: option.split\<close>)
  show ?case
    by (auto simp: hub_ops Let_def resp_obj_Inl resp_obj_Inr released_def not_found_def intro!: d Cons.IH split: sum.split)
qed simp

lemma guarded_cleanups:
  "guarded (discovery_ok opns) E cleanupOrphanedCompanions"
  "guarded (discovery_ok (dr_operatorNamespace r)) E (cleanupAllDiscoveryCompanions r)"
  by (auto simp: cleanupOrphanedCompanions_def cleanupAllDiscoveryCompanions_def discovery_msas_def guarded_orphans_loop
      guarded_companions_loop split: sum.split)

lemma guarded_delete_listed: "set scs \<subseteq> listed_spokes E \<Longrightarrow> guarded (discovery_ok opns) E (delete_listed scs)"
proof (induction scs arbitrary: E)
  case (Cons sc scs)
  have "guarded (discovery_ok opns) E' (delete_listed scs)" if "E \<subseteq> E'" for E'
    using Cons justified_mono(2) [OF that] by auto
  then have "guarded (discovery_ok opns) (insert ev E) (delete_listed scs)" "guarded (discovery_ok opns) E (delete_listed scs)" for ev
    by (simp_all add: subset_insertI)
  with Cons.prems show ?case by (auto simp: delete_ok_def split: option.split)
qed simp

lemma listed_discovery_spokes:
  "resp_list as_spokecluster r = Inr spokes \<Longrightarrow> set spokes \<subseteq> listed_spokes (insert (ListObjs KSpokeCluster discovery_labels, r) E)"
  by (fastforce simp: resp_list_Inr listed_spokes_def list_all2_conv_all_nth in_set_conv_nth)

lemma guarded_withdraw: "guarded (discovery_ok opns) E withdraw"
proof -
  have "guarded (discovery_ok opns) E cleanupAllDiscoverySpokes"
    by (auto simp: cleanupAllDiscoverySpokes_def discovery_spokes_def intro!: guarded_delete_listed listed_discovery_spokes [THEN subsetD] split: sum.split)
  then show ?thesis unfolding withdraw_def
    by (rule guarded_seq) (simp add: guarded_cleanups(1) split: option.split)
qed

lemma guarded_ensure_companions:
  assumes "mce_mode E"
  shows "guarded (discovery_ok opns) E (ensure_companions L name ds)"
proof -
  have m: "mce_mode (insert ev E')" if "mce_mode E'" for ev E' using that justified_mono(4) [of E' "insert ev E'"] by auto
  have "guarded (discovery_ok opns) E (ensureMSA L n)" if "mce_mode E" for n E
    using that by (auto simp: ensureMSA_def hub_ops create_ok_def msa_object_def new_unstructured_def discovery_labels_def go_str_def
        Let_def split: option.split sum.split)
  moreover have "guarded (discovery_ok opns) E (ensureMSARBAC L n)" if "mce_mode E" for n E
    using that by (auto simp: ensureMSARBAC_def hub_ops create_ok_def update_ok_def work_object_def new_unstructured_def discovery_labels_def go_str_def
        set_manifests_def fetched_def resp_obj_Inr Let_def m split: option.split sum.split)
  moreover have "mce_mode (E \<union> set t)" for t using assms justified_mono(4) [of E "E \<union> set t"] by auto
  ultimately show ?thesis using assms unfolding ensure_companions_def
    by (intro guarded_seq) (auto intro!: guarded_seq split: option.split)
qed

lemma guarded_ensure_spoke:
  assumes "mce_mode E" "snd ` set existing \<subseteq> listed_spokes E"
  shows "guarded (discovery_ok opns) E (ensure_spoke L existing name ds)"
proof (cases "map_of existing name")
  case None
  have m: "mce_mode (insert ev E')" if "mce_mode E'" for ev E' using that justified_mono(4) [of E' "insert ev E'"] by auto
  with assms None show ?thesis
    by (auto simp: ensure_spoke_def hub_ops create_ok_def discovery_spoke_def not_found_def resp_obj_Inl
        intro!: guarded_ensure_companions split: sum.split option.split)
next
  case (Some sc)
  with assms(2) have "sc \<in> listed_spokes E" by (force dest: map_of_SomeD)
  then have "update_ok E (OSpokeCluster (fst (restore_spoke ds sc)))"
    using assms(1) restore_spoke_frame by (auto simp: update_ok_def)
  moreover have "mce_mode (insert ev E)" for ev using assms(1) justified_mono(4) [of E "insert ev E"] by auto
  ultimately show ?thesis using Some assms(1)
    by (auto simp: ensure_spoke_def intro!: guarded_ensure_companions split: sum.split prod.split)
qed

lemma guarded_ensure_spokes:
  "mce_mode E \<Longrightarrow> snd ` set existing \<subseteq> listed_spokes E \<Longrightarrow> guarded (discovery_ok opns) E (ensure_spokes L existing xs errs)"
proof (induction L existing xs errs arbitrary: E rule: ensure_spokes.induct)
  case (2 L existing name ds xs errs)
  show ?case unfolding ensure_spokes.simps
    by (rule guarded_seq [OF guarded_ensure_spoke [OF 2(2,3)]])
      (use 2 justified_mono(2,4) [of E "E \<union> set t" for t] in blast)
qed simp

lemma guarded_remove_spokes:
  "snd ` set scs \<subseteq> listed_spokes E \<Longrightarrow> guarded (discovery_ok opns) E (remove_spokes desired scs errs)"
proof (induction desired scs errs arbitrary: E rule: remove_spokes.induct)
  case (2 desired name sc xs errs)
  have "snd ` set xs \<subseteq> listed_spokes (insert ev E)" for ev
    using 2(6) justified_mono(2) [of E "insert ev E"] by auto
  with 2 show ?case by (auto simp: delete_ok_def split: option.split)
qed simp

lemma range_map_subset: "set (range_map L i m) \<subseteq> set m"
  by (auto simp: range_map_def List.map_filter_def dest: map_of_SomeD)

lemma existing_spokes_listed: "snd ` set (existing_spokes scs) \<subseteq> set scs"
  using existing_spokes_Some map_of_SomeI [OF distinct_existing_spokes] by force

lemma guarded_apply_inventory:
  assumes "mce_mode E" "snd ` set existing \<subseteq> listed_spokes E"
  shows "guarded (discovery_ok opns) E (apply_inventory L existing desired)"
  unfolding apply_inventory_def
proof (rule guarded_seq [OF guarded_ensure_spokes [OF assms]])
  fix t errs
  have "snd ` set (range_map L 4 existing) \<subseteq> listed_spokes (E \<union> set t)"
    using assms(2) range_map_subset [of L 4 existing] justified_mono(2) [of E "E \<union> set t"] by auto
  then have "guarded (discovery_ok opns) (E \<union> set t) (remove_spokes desired (range_map L 4 existing) errs)"
    by (rule guarded_remove_spokes)
  then show "guarded (discovery_ok opns) (E \<union> set t)
      (and_then (remove_spokes desired (range_map L 4 existing) errs) (\<lambda>errs'.
       and_then cleanupOrphanedCompanions (\<lambda>cerr. Ret (errors_Join (append_err errs' cerr)))))"
    by (rule guarded_seq) (rule guarded_seq [OF guarded_cleanups(1)], simp)
qed

lemma guarded_discover:
  assumes "mce_mode E"
  shows "guarded (discovery_ok opns) E (discover L r hc)"
proof -
  have m: "mce_mode (insert ev E')" if "mce_mode E'" for ev E' using that justified_mono(4) [of E' "insert ev E'"] by auto
  have i: "guarded (discovery_ok opns) (insert (ListObjs KSpokeCluster discovery_labels, a) E)
      (and_then (apply_inventory L (existing_spokes spokes) desired) (\<lambda>e. Ret (r', no_requeue, e)))"
    if "mce_mode E" "resp_list as_spokecluster a = Inr spokes" for E a spokes desired r'
  proof (rule guarded_seq [OF guarded_apply_inventory])
    show "mce_mode (insert (ListObjs KSpokeCluster discovery_labels, a) E)" using that(1) by (rule m)
    show "snd ` set (existing_spokes spokes) \<subseteq> listed_spokes (insert (ListObjs KSpokeCluster discovery_labels, a) E)"
      using existing_spokes_listed listed_discovery_spokes [OF that(2)] by blast
  qed simp
  show ?thesis
    by (auto simp: discover_def tryRegisterWatch_def discovery_spokes_def Let_def and_then_case_option intro!: i m assms
        split: sum.split option.split)
qed

lemma guarded_Mce_Reconcile: "guarded (discovery_ok (dr_operatorNamespace r)) {} (Mce_Reconcile L r)"
proof -
  have m: "mce_mode {(Get Hub KHubConfig (ObjectKey [] singletonKey), RObj (OHubConfig hc))}"
    if "IsZero (m_deletion (hc_meta hc))" "hs_mode (hc_spec hc) = ClusterRegistryModeMCE" for hc
    using that by (simp add: mce_mode_def)
  have w: "guarded (discovery_ok opns) E (and_then withdraw (\<lambda>e. Ret (r, no_requeue, e)))" for opns E
    by (rule guarded_seq [OF guarded_withdraw]) simp
  have c: "guarded (discovery_ok (dr_operatorNamespace r)) E (and_then (cleanupAllDiscoveryCompanions r) (\<lambda>e. Ret (r, no_requeue, e)))" for E
    by (rule guarded_seq [OF guarded_cleanups(2)]) simp
  show ?thesis
    by (auto simp: Mce_Reconcile_def hub_ops resp_obj_Inr intro!: w c guarded_discover m split: sum.split)
qed

lemma discovery_justified:
  "exec (Mce_Reconcile L r) (t1 @ (q, a) # t2) z \<Longrightarrow> discovery_ok (dr_operatorNamespace r) (set t1) q"
  using guarded_exec [OF _ guarded_Mce_Reconcile refl] by force

text \<open>
  C6.  Discovery leaves SpokeClusters that it does not own alone.  Each SpokeCluster it updates or
  deletes was returned by the listing of those with its label (and keeps its metadata and status,
  or is not being deleted yet); each one it creates carries the label, under a name that was
  looked up and not found; and it creates and updates only when a live HubConfig was read that
  says MCE mode.
\<close>

theorem discovery_spoke_writes:
  assumes "exec (Mce_Reconcile L r) (t1 @ (q, a) # t2) z"
  shows "(\<forall>c sc. q = Create c (OSpokeCluster sc) \<longrightarrow> mce_mode (set t1) \<and> owned (sc_meta sc) \<and>
      not_found (set t1) (Get Hub KSpokeCluster (ObjectKey [] (sc_name sc)))) \<and>
    (\<forall>c sc. q = Update c (OSpokeCluster sc) \<longrightarrow> mce_mode (set t1) \<and>
      (\<exists>sc0 \<in> listed_spokes (set t1). sc_meta sc = sc_meta sc0 \<and> sc_conditions sc = sc_conditions sc0)) \<and>
    (\<forall>c key. q = Delete c KSpokeCluster key \<longrightarrow>
      (\<exists>sc \<in> listed_spokes (set t1). key = okey (OSpokeCluster sc) \<and> IsZero (m_deletion (sc_meta sc))))"
proof (intro conjI allI impI)
  note ok = discovery_justified [OF assms]
  have o: "owned (sc_meta (discovery_spoke n ds))" for n ds
    by (simp add: discovery_spoke_def discovery_labels_def go_str_def)
  fix c sc key
  show "mce_mode (set t1)" if "q = Create c (OSpokeCluster sc)" using ok that by (simp add: create_ok_def)
  show "owned (sc_meta sc)" if "q = Create c (OSpokeCluster sc)" using ok that o by (auto simp: create_ok_def) metis
  show "not_found (set t1) (Get Hub KSpokeCluster (ObjectKey [] (sc_name sc)))" if "q = Create c (OSpokeCluster sc)"
    using ok that by (simp add: create_ok_def)
  show "mce_mode (set t1)" if "q = Update c (OSpokeCluster sc)" using ok that by (simp add: update_ok_def)
  show "\<exists>sc0 \<in> listed_spokes (set t1). sc_meta sc = sc_meta sc0 \<and> sc_conditions sc = sc_conditions sc0"
    if "q = Update c (OSpokeCluster sc)" using ok that by (simp add: update_ok_def)
  show "\<exists>sc \<in> listed_spokes (set t1). key = okey (OSpokeCluster sc) \<and> IsZero (m_deletion (sc_meta sc))"
    if "q = Delete c KSpokeCluster key" using ok that by (simp add: delete_ok_def)
qed

definition no_such :: resp where
  "no_such = RErr \<lparr>err_reason = NotFound, err_text = ''not found''\<rparr>"

theorem discovery_spoke_writes_witness:
  "\<exists>t1 t2 z. exec (Mce_Reconcile ref_lib (NewMCEDiscoveryReconciler ''hub''))
      (t1 @ (Delete Hub KSpokeCluster (ObjectKey [] ''edge''), ROk) # t2) z \<and>
    (\<exists>sc \<in> listed_spokes (set t1). okey (OSpokeCluster sc) = ObjectKey [] ''edge'')"
proof -
  let ?t1 = "[(Get Hub KHubConfig (ObjectKey [] singletonKey), no_such),
    (ListObjs KSpokeCluster discovery_labels, RList [OSpokeCluster edge_spoke])]"
  let ?t2 = "[(ListObjs (KUnstructured msa_list_gvk) discovery_labels, RList [])]"
  let ?q = "Delete Hub KSpokeCluster (ObjectKey [] ''edge'')"
  have "\<exists>z. exec (Mce_Reconcile ref_lib (NewMCEDiscoveryReconciler ''hub'')) (?t1 @ (?q, ROk) # ?t2) z"
    by (simp add: Mce_Reconcile_def withdraw_def cleanupAllDiscoverySpokes_def discovery_spokes_def discovery_msas_def
        cleanupOrphanedCompanions_def hub_ops exec_simps no_such_def edge_spoke_def ObjectKeyFromObject_def IsZero_def)
  then obtain z where z: "exec (Mce_Reconcile ref_lib (NewMCEDiscoveryReconciler ''hub'')) (?t1 @ (?q, ROk) # ?t2) z" ..
  from discovery_spoke_writes [OF z] have "\<exists>sc \<in> listed_spokes (set ?t1). ObjectKey [] ''edge'' = okey (OSpokeCluster sc)" by blast
  then have "\<exists>sc \<in> listed_spokes (set ?t1). okey (OSpokeCluster sc) = ObjectKey [] ''edge''" by metis
  with z show ?thesis by blast
qed

text \<open>
  C5.  The companions of a spoke are withdrawn in order, and only discovery's own.  A
  ManifestWork or ManagedServiceAccount is deleted only when the standing kubeconfig of the spoke
  was found missing, or no SpokeCluster that discovery owns has the name of the spoke; the
  object deleted was read before and has discovery's label; and a deletion of the service account comes only
  after the ManifestWork of the same spoke was found missing, or was found without discovery's label (such a ManifestWork stays),
  or the server answered its deletion with success or not-found.  A deletion that is accepted need not be complete: the code does not wait until
  the finalizers of the ManifestWork are done, although its comment speaks of a ManifestWork that is still present.
\<close>

theorem discovery_companion_deletes:
  assumes "exec (Mce_Reconcile L r) (t1 @ (Delete c (KUnstructured g) key, a) # t2) z"
  shows "\<exists>ns u. (g = manifestWork_gvk \<and> fetched (set t1) g (work_key ns) u \<or>
      g = msa_gvk \<and> fetched (set t1) g (msa_key ns) u \<and>
        (not_found (set t1) (Get Hub (KUnstructured manifestWork_gvk) (work_key ns)) \<or>
         (\<exists>mw. fetched (set t1) manifestWork_gvk (work_key ns) mw \<and>
           (owned (u_meta mw) \<longrightarrow> (\<exists>b. (Delete Hub (KUnstructured manifestWork_gvk) (okey (OUnstructured mw)), b) \<in> set t1 \<and>
             (\<forall>e. b = RErr e \<longrightarrow> IsNotFound e)))))) \<and>
    c = Hub \<and> owned (u_meta u) \<and> key = okey (OUnstructured u) \<and> released (dr_operatorNamespace r) (set t1) ns"
  using discovery_justified [OF assms] unfolding delete_ok_def work_withdrawn_def discovery_ok_simps by blast

theorem discovery_companion_deletes_witness:
  "\<exists>t1 t2 z. exec (Mce_Reconcile ref_lib (NewMCEDiscoveryReconciler ''hub''))
      (t1 @ (Delete Hub (KUnstructured msa_gvk) (msa_key ''edge''), ROk) # t2) z \<and> (\<exists>ns. released ''hub'' (set t1) ns)"
proof -
  let ?msa = "new_unstructured msa_gvk ''edge'' MSAName"
  let ?t1 = "[(Get Hub KHubConfig (ObjectKey [] singletonKey), no_such), (ListObjs KSpokeCluster discovery_labels, RList []),
    (ListObjs (KUnstructured msa_list_gvk) discovery_labels, RList [OUnstructured ?msa]),
    (Get Hub KSpokeCluster (ObjectKey [] ''edge''), no_such), (Get Hub (KUnstructured manifestWork_gvk) (work_key ''edge''), no_such),
    (Get Hub (KUnstructured msa_gvk) (msa_key ''edge''), RObj (OUnstructured ?msa))]"
  let ?q = "Delete Hub (KUnstructured msa_gvk) (msa_key ''edge'')"
  have "\<exists>z. exec (Mce_Reconcile ref_lib (NewMCEDiscoveryReconciler ''hub'')) (?t1 @ (?q, ROk) # []) z"
    by (simp add: Mce_Reconcile_def withdraw_def cleanupAllDiscoverySpokes_def discovery_spokes_def discovery_msas_def
        cleanupOrphanedCompanions_def delete_companions_def deleteMSARBAC_def deleteMSA_def hub_ops exec_simps no_such_def
        new_unstructured_def discovery_labels_def go_str_def msa_key_def ObjectKeyFromObject_def Let_def) (rule exI [of _ True], simp)
  then obtain z where z: "exec (Mce_Reconcile ref_lib (NewMCEDiscoveryReconciler ''hub'')) (?t1 @ (?q, ROk) # []) z" ..
  from discovery_companion_deletes [OF z] have "\<exists>ns. released ''hub'' (set ?t1) ns"
    by (auto simp: NewMCEDiscoveryReconciler_def)
  with z show ?thesis by blast
qed

section \<open>One spoke does not hold up another\<close>

lemma append_err_append: "append_err errs e @ es = errs @ (case e of None \<Rightarrow> es | Some x \<Rightarrow> x # es)"
  by (cases e) (simp_all add: append_err_def)

lemma exec_ensure_spokes:
  "exec (ensure_spokes L existing xs errs) t z \<longleftrightarrow>
    (\<exists>tes. list_all2 (\<lambda>(name, ds) (t, e). exec (ensure_spoke L existing name ds) t (Done e)) xs tes \<and>
      t = concat (map fst tes) \<and> z = Done (errs @ List.map_filter snd tes))"
proof (induction L existing xs errs arbitrary: t rule: ensure_spokes.induct)
  case (2 L existing name ds xs errs)
  show ?case
    by (simp add: exec_seq 2 list_all2_Cons1 map_filter_simps append_err_append) (fastforce split: option.splits)
qed (auto simp: map_filter_simps)

text \<open>The SpokeClusters to delete: those no longer desired and not being deleted yet.\<close>

definition obsolete :: "discoveredSpoke go_map \<Rightarrow> (string \<times> spokecluster) list \<Rightarrow> (string \<times> spokecluster) list" where
  "obsolete desired xs = filter (\<lambda>(name, sc). map_of desired name = None \<and> IsZero (m_deletion (sc_meta sc))) xs"

definition removal_error :: "string \<Rightarrow> resp \<Rightarrow> go_error option" where
  "removal_error name a = (case resp_error a of
     Some err \<Rightarrow> if IsNotFound err then None else Some (spoke_error ''deleting SpokeCluster '' name [] (ApiErr err))
   | None \<Rightarrow> None)"

lemma remove_spokes_step:
  "exec (remove_spokes desired ((name, sc) # xs) errs) t z \<longleftrightarrow>
    (if map_of desired name = None \<and> IsZero (m_deletion (sc_meta sc))
     then \<exists>a t'. t = (Delete Hub KSpokeCluster (okey (OSpokeCluster sc)), a) # t' \<and>
       exec (remove_spokes desired xs (append_err errs (removal_error name a))) t' z
     else exec (remove_spokes desired xs errs) t z)"
proof -
  have "(case resp_error a of
        Some err \<Rightarrow> if \<not> IsNotFound err
          then remove_spokes desired xs (errs @ [spoke_error ''deleting SpokeCluster '' name [] (ApiErr err)])
          else remove_spokes desired xs errs
      | None \<Rightarrow> remove_spokes desired xs errs) = remove_spokes desired xs (append_err errs (removal_error name a))" for a
    by (auto simp: removal_error_def append_err_def split: option.split)
  then show ?thesis by (cases "map_of desired name") (simp_all add: exec_delete)
qed

lemma ex_length_Suc: "(\<exists>as. length as = Suc n \<and> P as) \<longleftrightarrow> (\<exists>a as. length as = n \<and> P (a # as))"
  by (auto simp: length_Suc_conv)

definition removal_events :: "(string \<times> spokecluster) list \<Rightarrow> resp list \<Rightarrow> event list" where
  "removal_events xs as = map2 (\<lambda>(name, sc) a. (Delete Hub KSpokeCluster (okey (OSpokeCluster sc)), a)) xs as"

definition removal_errors :: "(string \<times> spokecluster) list \<Rightarrow> resp list \<Rightarrow> go_error list" where
  "removal_errors xs as = List.map_filter id (map2 (\<lambda>(name, sc) a. removal_error name a) xs as)"

lemma removal_simps [simp]:
  "removal_events [] as = []" "removal_errors [] as = []"
  "removal_events ((name, sc) # xs) (a # as) = (Delete Hub KSpokeCluster (okey (OSpokeCluster sc)), a) # removal_events xs as"
  "removal_errors ((name, sc) # xs) (a # as) =
    (case removal_error name a of None \<Rightarrow> removal_errors xs as | Some e \<Rightarrow> e # removal_errors xs as)"
  by (simp_all add: removal_events_def removal_errors_def map_filter_simps split: option.split)

lemma exec_remove_spokes:
  "exec (remove_spokes desired xs errs) t z \<longleftrightarrow>
    (\<exists>as. length as = length (obsolete desired xs) \<and> t = removal_events (obsolete desired xs) as \<and>
      z = Done (errs @ removal_errors (obsolete desired xs) as))"
proof (induction xs arbitrary: t errs)
  case Nil
  then show ?case by (auto simp: obsolete_def)
next
  case (Cons x xs)
  obtain name sc where x: "x = (name, sc)" by (cases x)
  show ?case
  proof (cases "map_of desired name = None \<and> IsZero (m_deletion (sc_meta sc))")
    case True
    then have o: "obsolete desired (x # xs) = (name, sc) # obsolete desired xs" by (simp add: obsolete_def x)
    from True have "exec (remove_spokes desired (x # xs) errs) t z \<longleftrightarrow>
        (\<exists>a t'. t = (Delete Hub KSpokeCluster (okey (OSpokeCluster sc)), a) # t' \<and>
          exec (remove_spokes desired xs (append_err errs (removal_error name a))) t' z)"
      unfolding x remove_spokes_step by (rule if_P)
    also have "\<dots> \<longleftrightarrow> (\<exists>as. length as = Suc (length (obsolete desired xs)) \<and>
        t = removal_events ((name, sc) # obsolete desired xs) as \<and> z = Done (errs @ removal_errors ((name, sc) # obsolete desired xs) as))"
      unfolding Cons.IH ex_length_Suc removal_simps append_err_append by blast
    finally show ?thesis by (simp only: o list.size add_0_right add_Suc_right)
  next
    case False
    then have "obsolete desired (x # xs) = obsolete desired xs" by (auto simp: obsolete_def x)
    moreover from False have "exec (remove_spokes desired (x # xs) errs) t z \<longleftrightarrow> exec (remove_spokes desired xs errs) t z"
      unfolding x remove_spokes_step by (rule if_not_P)
    ultimately show ?thesis by (simp only: Cons.IH)
  qed
qed

text \<open>
  C22.  Applying the inventory: whatever happens to one spoke, every desired spoke is worked on in
  turn, then a delete is issued for every spoke that is no longer desired and not being
  deleted yet, then the orphans are cleaned up; the reconcile fails exactly when some step did,
  and its error joins the errors of all of them in order.
\<close>

theorem inventory_runs:
  "exec (apply_inventory L existing desired) t z \<longleftrightarrow>
    (\<exists>tes as tc ce.
      list_all2 (\<lambda>(name, ds) (t, e). exec (ensure_spoke L existing name ds) t (Done e)) (range_map L 3 desired) tes \<and>
      length as = length (obsolete desired (range_map L 4 existing)) \<and>
      exec cleanupOrphanedCompanions tc (Done ce) \<and>
      t = concat (map fst tes) @ removal_events (obsolete desired (range_map L 4 existing)) as @ tc \<and>
      z = Done (errors_Join (append_err (List.map_filter snd tes @ removal_errors (obsolete desired (range_map L 4 existing)) as) ce)))"
  (is "?l \<longleftrightarrow> ?r")
proof -
  have "?l \<longleftrightarrow> (\<exists>t1 t2 errs. t = t1 @ t2 \<and> exec (ensure_spokes L existing (range_map L 3 desired) []) t1 (Done errs) \<and>
      (\<exists>t3 t4 errs'. t2 = t3 @ t4 \<and> exec (remove_spokes desired (range_map L 4 existing) errs) t3 (Done errs') \<and>
        (\<exists>ce. exec cleanupOrphanedCompanions t4 (Done ce) \<and> z = Done (errors_Join (append_err errs' ce)))))"
    unfolding apply_inventory_def exec_seq [OF never_panics_ensure_spokes] exec_seq [OF never_panics_loops(4)]
      exec_seq_Ret [OF never_panics_cleanups(2)] ..
  also have "\<dots> \<longleftrightarrow> ?r" unfolding exec_ensure_spokes exec_remove_spokes outcome.inject append_Nil by blast
  finally show ?thesis .
qed

section \<open>What is written is valid\<close>

lemma range_map_Some: "(k, v) \<in> set (range_map L i m) \<Longrightarrow> map_of m k = Some v"
  by (auto simp: range_map_def List.map_filter_def)

lemma desired_spokes_valid:
  assumes "map_of (desired_spokes L ml existing mcs) name = Some ds" and "snd ` set existing \<subseteq> Collect spokecluster_valid"
    and "\<forall>mc \<in> set mcs. m_name (u_meta mc) \<noteq> []"
  shows "ds_apiServer ds \<noteq> [] \<and> ds_managedClusterName ds = name \<and> name \<noteq> []"
proof -
  from map_of_add_desired [OF assms(1) [unfolded desired_spokes_def]] obtain mc where
    mc: "mc \<in> set mcs" "m_name (u_meta mc) = name" "enrolment L ml existing mc = Some ds" by auto
  have "url \<noteq> []" if "extractAPIServer L mc = Inr url" for url
    using that by (auto simp: extractAPIServer_def Let_def first_https_url_find find_Some_iff HasPrefix_def split: sum.splits option.splits if_splits)
  moreover have "sp_apiServer (sc_spec sc) \<noteq> []" if "map_of existing name = Some sc" for sc
    using assms(2) map_of_SomeD [OF that] by (force simp: spokecluster_valid_def)
  ultimately show ?thesis using mc assms(3) by (auto simp: enrolment_def split: if_splits sum.splits)
qed

lemma restore_spoke_valid:
  "spokecluster_valid sc \<Longrightarrow> ds_apiServer ds \<noteq> [] \<Longrightarrow> ds_managedClusterName ds \<noteq> [] \<Longrightarrow> spokecluster_valid (fst (restore_spoke ds sc))"
  by (auto simp: restore_spoke_def spokecluster_valid_def mce_source_def split: option.splits)

definition valid_write :: "req \<Rightarrow> bool" where
  "valid_write q = (case q of
     Create c (OSpokeCluster sc) \<Rightarrow> spokecluster_valid sc | Update c (OSpokeCluster sc) \<Rightarrow> spokecluster_valid sc | _ \<Rightarrow> True)"

lemma valid_write_simps [simp]:
  "valid_write (Create c (OSpokeCluster sc)) \<longleftrightarrow> spokecluster_valid sc" "valid_write (Update c (OSpokeCluster sc)) \<longleftrightarrow> spokecluster_valid sc"
  "valid_write (Create c (OUnstructured u))" "valid_write (Update c (OUnstructured u))"
  "valid_write (Get c k key)" "valid_write (ListObjs k ls)" "valid_write (Delete c k key)"
  by (simp_all add: valid_write_def)

text \<open>
  C23.  Every SpokeCluster that the inventory creates or updates passes the validation of the API: a non-empty
  API server, exactly one credential source, a non-empty managed cluster name.  What was listed need only be valid itself, and
  ManagedClusters have names; errors and other answers in between change nothing about it.
\<close>

theorem inventory_writes_valid:
  assumes "\<forall>sc \<in> set spokes. spokecluster_valid sc" and "\<forall>mc \<in> set mcs. m_name (u_meta mc) \<noteq> []"
  shows "all_reqs valid_write
    (apply_inventory L (existing_spokes spokes) (desired_spokes L ml (existing_spokes spokes) mcs))"
proof -
  let ?ex = "existing_spokes spokes"
  have ex: "snd ` set ?ex \<subseteq> Collect spokecluster_valid" using existing_spokes_listed [of spokes] assms(1) by auto
  have companions: "all_reqs valid_write (ensure_companions L n ds)" "all_reqs valid_write (delete_companions a b n)" for n ds a b L
    by (auto simp: ensure_companions_def ensureMSA_def ensureMSARBAC_def delete_companions_def deleteMSARBAC_def deleteMSA_def hub_ops Let_def
        intro!: all_reqs_and_then split: option.splits sum.splits)
  have one: "all_reqs valid_write (ensure_spoke L ?ex name ds)" if "ds_apiServer ds \<noteq> [] \<and> ds_managedClusterName ds = name \<and> name \<noteq> []" for name ds L
  proof -
    have new: "spokecluster_valid (discovery_spoke name ds)"
      using that by (simp add: discovery_spoke_def spokecluster_valid_def mce_source_def)
    have upd: "spokecluster_valid (fst (restore_spoke ds sc))" if "map_of ?ex name = Some sc" for sc
      using map_of_SomeD [OF that] ex \<open>ds_apiServer ds \<noteq> [] \<and> _\<close> by (intro restore_spoke_valid) force+
    show ?thesis
      by (auto simp: ensure_spoke_def hub_ops new intro!: all_reqs_and_then companions dest!: upd split: option.splits sum.splits prod.splits)
  qed
  have "all_reqs valid_write (ensure_spokes L ?ex xs errs)"
    if "\<forall>(name, ds) \<in> set xs. ds_apiServer ds \<noteq> [] \<and> ds_managedClusterName ds = name \<and> name \<noteq> []" for xs errs
    using that by (induction L ?ex xs errs rule: ensure_spokes.induct) (auto intro!: all_reqs_and_then one)
  then have ensure: "all_reqs valid_write (ensure_spokes L ?ex (range_map L 3 (desired_spokes L ml ?ex mcs)) [])"
    using desired_spokes_valid [OF range_map_Some ex assms(2)] by blast
  have remove: "all_reqs valid_write (remove_spokes D ys errs)" for D ys errs
    by (induction D ys errs rule: remove_spokes.induct) (auto intro!: all_reqs_and_then split: option.splits)
  have "all_reqs valid_write (orphans_loop msas)" for msas
    by (induction msas) (auto simp: hub_ops Let_def intro!: all_reqs_and_then companions split: sum.splits option.splits)
  then show ?thesis
    by (auto simp: apply_inventory_def cleanupOrphanedCompanions_def discovery_msas_def intro!: all_reqs_and_then ensure remove
        split: sum.splits)
qed

theorem inventory_writes_valid_witness:
  "all_reqs valid_write
    (apply_inventory ref_lib (existing_spokes []) (desired_spokes ref_lib None (existing_spokes []) [edge_cluster]))"
  by (rule inventory_writes_valid) (simp_all add: edge_cluster_def)

end
