(* ===== verification/Cmd_Main.thy ===== *)
theory Cmd_Main
  imports HubConfig_Controller Spoke_Controller Health_Handler Mce_Discovery
begin

text \<open>
  The entry point (\<^verbatim>\<open>cmd/main.go\<close>): validation of the flags and construction of the three controllers
  and the health handler.  The parsed flags, the environment and what the manager answers are
  parameters; registering with the manager and running it are its own code.
\<close>

record flags =
  fl_metricsAddr :: string
  fl_healthAddr :: string
  fl_namespace :: string
  fl_alertsAdapterImage :: string
  fl_leaderElect :: bool
  fl_healthCheckInterval :: duration

definition default_flags :: flags where
  "default_flags = \<lparr>fl_metricsAddr = '':8080'', fl_healthAddr = '':8081'', fl_namespace = [], fl_alertsAdapterImage = [],
     fl_leaderElect = False, fl_healthCheckInterval = 5 * Minute\<rparr>"

text \<open>The answers of the manager, in the order they are asked for.\<close>

record manager_answers =
  ma_NewManager :: "go_error option"
  ma_SpokeCluster :: "go_error option"
  ma_MCEDiscovery :: "go_error option"
  ma_HubConfig :: "go_error option"
  ma_Add :: "go_error option"
  ma_Healthz :: "go_error option"
  ma_Readyz :: "go_error option"

text \<open>The ways to exit with status 1 before the manager is started.\<close>

datatype startup_failure =
    NamespaceRequired | IntervalNotPositive | ImageRequired | NoManager go_error
  | NoController string go_error | NoHealthHandler go_error | NoHealthCheck go_error | NoReadyCheck go_error

record operator =
  op_spoke :: spoke_reconciler
  op_discovery :: mce_reconciler
  op_hubconfig :: hubconfig_reconciler
  op_health :: health_handler

definition operator_namespace :: "flags \<Rightarrow> string \<Rightarrow> startup_failure + string" where
  "operator_namespace fl podNamespace =
    (if fl_namespace fl = [] then (if podNamespace = [] then Inl NamespaceRequired else Inr podNamespace)
     else Inr (fl_namespace fl))"

definition register_all :: "k8s_lib \<Rightarrow> flags \<Rightarrow> string \<Rightarrow> manager_answers \<Rightarrow> startup_failure + operator" where
  "register_all L fl namespace mgr =
    (let credSource = Dispatching_GetRESTConfig L namespace;
         (spoke, serr) = spoke_SetupWithManager (ma_SpokeCluster mgr) (NewSpokeClusterReconciler L credSource namespace);
         (discovery, derr) = mce_SetupWithManager (ma_MCEDiscovery mgr) (NewMCEDiscoveryReconciler namespace);
         hub = NewHubConfigReconciler namespace (fl_alertsAdapterImage fl);
         health = NewSpokeHealthHandler namespace (fl_healthCheckInterval fl) in
     case serr of Some err \<Rightarrow> Inl (NoController ''SpokeCluster'' err) | None \<Rightarrow>
     case derr of Some err \<Rightarrow> Inl (NoController ''MCEDiscovery'' err) | None \<Rightarrow>
     case ma_HubConfig mgr of Some err \<Rightarrow> Inl (NoController ''HubConfig'' err) | None \<Rightarrow>
     case ma_Add mgr of Some err \<Rightarrow> Inl (NoHealthHandler err) | None \<Rightarrow>
     case ma_Healthz mgr of Some err \<Rightarrow> Inl (NoHealthCheck err) | None \<Rightarrow>
     case ma_Readyz mgr of Some err \<Rightarrow> Inl (NoReadyCheck err) | None \<Rightarrow>
     Inr \<lparr>op_spoke = spoke, op_discovery = discovery, op_hubconfig = hub, op_health = health\<rparr>)"

definition main_setup :: "k8s_lib \<Rightarrow> flags \<Rightarrow> string \<Rightarrow> manager_answers \<Rightarrow> startup_failure + operator" where
  "main_setup L fl podNamespace mgr =
    (case operator_namespace fl podNamespace of
       Inl f \<Rightarrow> Inl f
     | Inr namespace \<Rightarrow>
         if fl_healthCheckInterval fl \<le> 0 then Inl IntervalNotPositive
         else if fl_alertsAdapterImage fl = [] then Inl ImageRequired
         else (case ma_NewManager mgr of
             Some err \<Rightarrow> Inl (NoManager err)
           | None \<Rightarrow> register_all L fl namespace mgr))"

text \<open>The exit status of the process; \<open>started\<close> is what running the manager returned.\<close>

definition main_exit :: "k8s_lib \<Rightarrow> flags \<Rightarrow> string \<Rightarrow> manager_answers \<Rightarrow> go_error option \<Rightarrow> nat" where
  "main_exit L fl podNamespace mgr started =
    (case main_setup L fl podNamespace mgr of
       Inl f \<Rightarrow> 1
     | Inr op \<Rightarrow> (case started of Some err \<Rightarrow> 1 | None \<Rightarrow> 0))"

lemma main_exit_success:
  "main_exit L fl pod mgr started = 0 \<longleftrightarrow> (\<exists>op. main_setup L fl pod mgr = Inr op) \<and> started = None"
  by (auto simp: main_exit_def split: sum.splits option.splits)

lemma register_all_Inr:
  "register_all L fl ns mgr = Inr op \<Longrightarrow>
    op_spoke op = (NewSpokeClusterReconciler L (Dispatching_GetRESTConfig L ns) ns)\<lparr>sr_recorder := True\<rparr> \<and>
    op_discovery op = (NewMCEDiscoveryReconciler ns)\<lparr>dr_ctrlRef := True, dr_cacheRef := True\<rparr> \<and>
    op_hubconfig op = NewHubConfigReconciler ns (fl_alertsAdapterImage fl) \<and>
    op_health op = NewSpokeHealthHandler ns (fl_healthCheckInterval fl)"
  by (auto simp: register_all_def spoke_SetupWithManager_def mce_SetupWithManager_def Let_def split: option.splits)

lemma main_setup_Inr:
  "main_setup L fl pod mgr = Inr op \<Longrightarrow> \<exists>ns. operator_namespace fl pod = Inr ns \<and> 0 < fl_healthCheckInterval fl \<and>
    fl_alertsAdapterImage fl \<noteq> [] \<and> register_all L fl ns mgr = Inr op"
  by (auto simp: main_setup_def split: sum.splits if_splits option.splits)

lemma operator_namespace_set: "operator_namespace fl pod = Inr ns \<Longrightarrow> ns \<noteq> []"
  by (auto simp: operator_namespace_def split: if_splits)

lemma operator_np:
  assumes "main_setup L fl pod mgr = Inr op"
  shows "never_panics (Spoke_Reconcile L (op_spoke op) key)" "never_panics (Mce_Reconcile L (op_discovery op))"
    "never_panics (HubConfig_Reconcile L (op_hubconfig op) key')" "never_panics (Health_Start L (op_health op) n)"
proof -
  from main_setup_Inr [OF assms] obtain ns where pos: "0 < fl_healthCheckInterval fl" and reg: "register_all L fl ns mgr = Inr op" by blast
  show "never_panics (Spoke_Reconcile L (op_spoke op) key)"
    unfolding conjunct1 [OF register_all_Inr [OF reg]]
    by (rule spoke_fields.never_panics_Spoke_Reconcile [OF spoke_fields_recorder [OF default_fields.spoke_fields_axioms]])
  show "never_panics (Health_Start L (op_health op) n)" using register_all_Inr [OF reg] pos by (simp add: never_panics_Health_Start)
qed (rule never_panics_Mce_Reconcile never_panics_HubConfig_Reconcile)+

lemma never_panics_run: "never_panics p \<Longrightarrow> \<exists>x w'. run H p w = (Done x, w')"
  using exec_run [of p H w] never_panics_exec [of p] by (cases "run H p w"; cases "fst (run H p w)") auto

text \<open>Flags as the deployment manifest passes them.\<close>

definition deployed_flags :: flags where
  "deployed_flags = default_flags\<lparr>fl_alertsAdapterImage := ''quay.io/adapter:1'', fl_leaderElect := True\<rparr>"

definition willing_manager :: manager_answers where
  "willing_manager = \<lparr>ma_NewManager = None, ma_SpokeCluster = None, ma_MCEDiscovery = None, ma_HubConfig = None, ma_Add = None,
     ma_Healthz = None, ma_Readyz = None\<rparr>"

lemma deployed_operator: "\<exists>op. main_setup ref_lib deployed_flags ''lightspeed'' willing_manager = Inr op"
  by (simp add: main_setup_def deployed_flags_def default_flags_def willing_manager_def operator_namespace_def register_all_def
      spoke_SetupWithManager_def mce_SetupWithManager_def Let_def hub_consts)

text \<open>
  In an operator that passes the checks at startup the namespace is set, and the three reconcilers and the health handler agree
  on it.
\<close>

lemma operator_namespaces:
  assumes "main_setup L fl pod mgr = Inr op"
  shows "\<exists>ns. ns \<noteq> [] \<and> sr_operatorNamespace (op_spoke op) = ns \<and> dr_operatorNamespace (op_discovery op) = ns \<and>
      hcr_operatorNamespace (op_hubconfig op) = ns \<and> hh_operatorNamespace (op_health op) = ns"
proof -
  from main_setup_Inr [OF assms] obtain ns where ns: "operator_namespace fl pod = Inr ns" and reg: "register_all L fl ns mgr = Inr op" by blast
  from register_all_Inr [OF reg] operator_namespace_set [OF ns] show ?thesis
    by (simp add: NewMCEDiscoveryReconciler_def NewHubConfigReconciler_def NewSpokeHealthHandler_def)
qed

text \<open>
  C24.  Every run of an operator that passes the checks at startup ends with a result.  Against any server, in any
  state, a reconcile of a SpokeCluster or of a HubConfig, an inventory, and the health handler for as many ticks as it is given, come to
  their end after finitely many requests and return; none of their loops runs forever and none panics.
\<close>

theorem operator_returns:
  assumes "main_setup L fl pod mgr = Inr op"
  shows "(\<exists>res w'. run H (Spoke_Reconcile L (op_spoke op) key) w = (Done res, w')) \<and>
    (\<exists>res w'. run H (Mce_Reconcile L (op_discovery op)) w = (Done res, w')) \<and>
    (\<exists>res w'. run H (HubConfig_Reconcile L (op_hubconfig op) key') w = (Done res, w')) \<and>
    (\<exists>w'. run H (Health_Start L (op_health op) n) w = (Done (), w'))"
  using operator_np [OF assms] never_panics_run by (metis (full_types) old.unit.exhaust)

theorem operator_returns_witness:
  "\<exists>op res w'. main_setup ref_lib deployed_flags ''lightspeed'' willing_manager = Inr op \<and>
    run ref_server (Spoke_Reconcile ref_lib (op_spoke op) (ObjectKey [] ''edge'')) ready_hub = (Done res, w')"
proof -
  obtain op where "main_setup ref_lib deployed_flags ''lightspeed'' willing_manager = Inr op" using deployed_operator by blast
  with operator_returns [OF this, where H = ref_server and w = ready_hub] show ?thesis by blast
qed

text \<open>
  The operator starts exactly when a namespace is given by flag or environment, the health-check
  interval is positive, an adapter image is given, and the manager accepts every registration.
\<close>

lemma main_setup_starts_iff:
  "(\<exists>op. main_setup L fl pod mgr = Inr op) \<longleftrightarrow>
    \<not> (fl_namespace fl = [] \<and> pod = []) \<and> 0 < fl_healthCheckInterval fl \<and> fl_alertsAdapterImage fl \<noteq> [] \<and>
    mgr = willing_manager"
  by (cases mgr) (auto simp: main_setup_def operator_namespace_def register_all_def spoke_SetupWithManager_def mce_SetupWithManager_def
      Let_def willing_manager_def not_le split: option.splits)

end
