(* ===== verification/Permissions.thy ===== *)
theory Permissions
  imports Cmd_Main
begin

text \<open>
  Permissions.  The markers \<^verbatim>\<open>+kubebuilder:rbac\<close> of the three controllers are the rules of the ClusterRole the
  operator runs under; the manifests that discovery pushes to a spoke are the rules of the account it
  uses there.  The theory shows that both are enough for every request the operator makes.
\<close>

section \<open>The markers\<close>

abbreviation rbac_rule :: "string \<Rightarrow> string list \<Rightarrow> string list \<Rightarrow> policy_rule" where
  "rbac_rule g rs verbs \<equiv> \<lparr>pr_apiGroups = [g], pr_resources = rs, pr_resourceNames = [], pr_verbs = verbs\<rparr>"

definition spokecluster_markers :: "policy_rule list" where
  "spokecluster_markers =
    [rbac_rule ''hub.openshift.io'' [''hubconfigs''] [''get'', ''list'', ''watch''],
     rbac_rule ''hub.openshift.io'' [''spokeclusters''] [''get'', ''list'', ''watch'', ''update'', ''patch''],
     rbac_rule ''hub.openshift.io'' [''spokeclusters/status''] [''get'', ''update'', ''patch''],
     rbac_rule ''hub.openshift.io'' [''spokeclusters/finalizers''] [''update''],
     rbac_rule '''' [''secrets''] [''get'', ''list'', ''watch'', ''create'', ''update'', ''delete''],
     rbac_rule '''' [''configmaps'', ''serviceaccounts''] [''create'', ''delete'', ''get'', ''list'', ''watch''],
     rbac_rule '''' [''services''] [''get'', ''list'', ''watch''],
     rbac_rule '''' [''events''] [''create'', ''patch'']]"

definition hubconfig_markers :: "policy_rule list" where
  "hubconfig_markers =
    [rbac_rule ''hub.openshift.io'' [''hubconfigs''] [''get'', ''list'', ''watch'', ''update'', ''patch''],
     rbac_rule ''hub.openshift.io'' [''hubconfigs/finalizers''] [''update''],
     rbac_rule ''apps'' [''deployments''] [''get'', ''list'', ''watch'', ''create'', ''update'', ''delete''],
     rbac_rule '''' [''serviceaccounts'', ''configmaps''] [''get'', ''list'', ''create'', ''delete''],
     rbac_rule ''rbac.authorization.k8s.io'' [''roles'', ''rolebindings'', ''clusterroles'', ''clusterrolebindings'']
       [''get'', ''list'', ''watch'', ''create'', ''update'', ''delete''],
     rbac_rule ''agentic.openshift.io'' [''agenticruns''] [''create'', ''list'', ''get''],
     rbac_rule ''agentic.openshift.io'' [''agenticolsconfigs''] [''get''],
     \<lparr>pr_apiGroups = [''monitoring.coreos.com''], pr_resources = [''alertmanagers/api''], pr_resourceNames = [''main''],
       pr_verbs = [''get'', ''list'']\<rparr>]"

definition discovery_markers :: "policy_rule list" where
  "discovery_markers =
    [rbac_rule ''hub.openshift.io'' [''spokeclusters''] [''get'', ''list'', ''watch'', ''create'', ''update'', ''delete''],
     rbac_rule ''multicluster.openshift.io'' [''multiclusterengines''] [''get'', ''list'', ''watch''],
     rbac_rule ''cluster.open-cluster-management.io'' [''managedclusters''] [''get'', ''list'', ''watch''],
     rbac_rule ''authentication.open-cluster-management.io'' [''managedserviceaccounts'']
       [''get'', ''list'', ''watch'', ''create'', ''delete''],
     rbac_rule ''work.open-cluster-management.io'' [''manifestworks'']
       [''get'', ''list'', ''watch'', ''create'', ''update'', ''delete'']]"

definition operator_rules :: "policy_rule list" where
  "operator_rules = spokecluster_markers @ hubconfig_markers @ discovery_markers"

section \<open>Authorization\<close>

text \<open>
  What the API server's authorizer asks about: group, resource, name (\<open>None\<close> for any) and verb.  A rule
  with resource names allows those only.
\<close>

record attributes =
  at_group :: string
  at_resource :: string
  at_name :: "string option"
  at_verb :: string

definition rule_allows :: "policy_rule \<Rightarrow> attributes \<Rightarrow> bool" where
  "rule_allows p a \<longleftrightarrow> at_group a \<in> set (pr_apiGroups p) \<and> at_resource a \<in> set (pr_resources p) \<and>
     at_verb a \<in> set (pr_verbs p) \<and>
     (pr_resourceNames p = [] \<or> (case at_name a of None \<Rightarrow> False | Some n \<Rightarrow> n \<in> set (pr_resourceNames p)))"

definition allowed :: "policy_rule list \<Rightarrow> attributes \<Rightarrow> bool" where
  "allowed rules a \<longleftrightarrow> list_ex (\<lambda>p. rule_allows p a) rules"

text \<open>Everything a rule grants.\<close>

definition rule_attributes :: "policy_rule \<Rightarrow> attributes list" where
  "rule_attributes p =
    concat (map (\<lambda>g. concat (map (\<lambda>r. concat (map (\<lambda>v.
      map (\<lambda>n. \<lparr>at_group = g, at_resource = r, at_name = n, at_verb = v\<rparr>)
        (if pr_resourceNames p = [] then [None] else map Some (pr_resourceNames p)))
      (pr_verbs p))) (pr_resources p))) (pr_apiGroups p))"

text \<open>The API group and resource of a kind; a list kind stands for that of its items.\<close>

definition gvk_resources :: "(string \<times> string) list" where
  "gvk_resources =
    [(''MultiClusterEngineList'', ''multiclusterengines''),
     (''ManagedCluster'', ''managedclusters''), (''ManagedClusterList'', ''managedclusters''),
     (''ManagedServiceAccount'', ''managedserviceaccounts''), (''ManagedServiceAccountList'', ''managedserviceaccounts''),
     (''ManifestWork'', ''manifestworks''), (''Route'', ''routes'')]"

fun api_resource :: "kind \<Rightarrow> string \<times> string" where
  "api_resource KSecret = ('''', ''secrets'')"
| "api_resource KConfigMap = ('''', ''configmaps'')"
| "api_resource KService = ('''', ''services'')"
| "api_resource KServiceAccount = ('''', ''serviceaccounts'')"
| "api_resource KNamespace = ('''', ''namespaces'')"
| "api_resource KRole = (''rbac.authorization.k8s.io'', ''roles'')"
| "api_resource KRoleBinding = (''rbac.authorization.k8s.io'', ''rolebindings'')"
| "api_resource KClusterRole = (''rbac.authorization.k8s.io'', ''clusterroles'')"
| "api_resource KClusterRoleBinding = (''rbac.authorization.k8s.io'', ''clusterrolebindings'')"
| "api_resource KDeployment = (''apps'', ''deployments'')"
| "api_resource KSpokeCluster = (''hub.openshift.io'', ''spokeclusters'')"
| "api_resource KHubConfig = (''hub.openshift.io'', ''hubconfigs'')"
| "api_resource (KUnstructured g) =
     (g_group g, (case map_of gvk_resources (g_kind g) of Some r \<Rightarrow> r | None \<Rightarrow> []))"

definition attrs :: "kind \<Rightarrow> string option \<Rightarrow> string list \<Rightarrow> attributes list" where
  "attrs k n verbs = map (\<lambda>v. \<lparr>at_group = fst (api_resource k), at_resource = snd (api_resource k), at_name = n, at_verb = v\<rparr>) verbs"

text \<open>
  What a request to the hub needs.  Objects with a Go type are read from the manager's
  cache, which lists and watches their kind; unstructured ones are read from the server.
\<close>

definition read_attrs :: "kind \<Rightarrow> string list \<Rightarrow> string option \<Rightarrow> attributes list" where
  "read_attrs k verbs n = (case k of KUnstructured g \<Rightarrow> attrs k n verbs | _ \<Rightarrow> attrs k None [''get'', ''list'', ''watch''])"

fun hub_needs :: "req \<Rightarrow> attributes list" where
  "hub_needs (Get Hub k key) = read_attrs k [''get''] (Some (k_name key))"
| "hub_needs (ListObjs k ls) = read_attrs k [''list''] None"
| "hub_needs (ApiReaderList k) = attrs k None [''list'']"
| "hub_needs (Create Hub x) = attrs (obj_kind x) None [''create'']"
| "hub_needs (Update Hub x) = attrs (obj_kind x) (Some (m_name (obj_meta x))) [''update'']"
| "hub_needs (Delete Hub k key) = attrs k (Some (k_name key)) [''delete'']"
| "hub_needs (StatusPatch b n) =
     [\<lparr>at_group = ''hub.openshift.io'', at_resource = ''spokeclusters/status'', at_name = Some (sc_name n), at_verb = ''patch''\<rparr>]"
| "hub_needs (Eventf a b c d) =
     map (\<lambda>v. \<lparr>at_group = '''', at_resource = ''events'', at_name = None, at_verb = v\<rparr>) [''create'', ''patch'']"
| "hub_needs (RegisterWatch g) = attrs (KUnstructured g) None [''list'', ''watch'']"
| "hub_needs q = []"

text \<open>
  What a request to the hub grants: writing a role its rules, writing a binding the rules of the role it refers to
  (\<open>R\<close>).  The API server refuses to grant what the caller does not hold.
\<close>

fun grants :: "(role_ref \<Rightarrow> policy_rule list) \<Rightarrow> obj \<Rightarrow> policy_rule list" where
  "grants R (ORole r) = role_rules r"
| "grants R (OClusterRole r) = role_rules r"
| "grants R (ORoleBinding b) = R (b_roleRef b)"
| "grants R (OClusterRoleBinding b) = R (b_roleRef b)"
| "grants R x = []"

fun hub_grants :: "(role_ref \<Rightarrow> policy_rule list) \<Rightarrow> req \<Rightarrow> policy_rule list" where
  "hub_grants R (Create Hub x) = grants R x"
| "hub_grants R (Update Hub x) = grants R x"
| "hub_grants R q = []"

definition hub_permitted :: "(role_ref \<Rightarrow> policy_rule list) \<Rightarrow> req \<Rightarrow> bool" where
  "hub_permitted R q \<longleftrightarrow> list_all (allowed operator_rules) (hub_needs q) \<and>
     list_all (\<lambda>p. list_all (allowed operator_rules) (rule_attributes p)) (hub_grants R q)"

section \<open>The account on a spoke\<close>

text \<open>Reading the manifests: the roles, and the bindings of the account that discovery creates.\<close>

definition jget :: "string \<Rightarrow> json \<Rightarrow> json" where
  "jget k j = (case j of JObj m \<Rightarrow> (case map_of m k of Some v \<Rightarrow> v | None \<Rightarrow> JNull) | _ \<Rightarrow> JNull)"

definition jtext :: "json \<Rightarrow> string" where
  "jtext j = (case j of JStr s \<Rightarrow> s | _ \<Rightarrow> [])"

definition jitems :: "json \<Rightarrow> json list" where
  "jitems j = (case j of JArr xs \<Rightarrow> xs | _ \<Rightarrow> [])"

definition rule_of_json :: "json \<Rightarrow> policy_rule" where
  "rule_of_json j = \<lparr>pr_apiGroups = map jtext (jitems (jget ''apiGroups'' j)), pr_resources = map jtext (jitems (jget ''resources'' j)),
     pr_resourceNames = map jtext (jitems (jget ''resourceNames'' j)), pr_verbs = map jtext (jitems (jget ''verbs'' j))\<rparr>"

definition meta_text :: "string \<Rightarrow> json \<Rightarrow> string" where
  "meta_text k j = jtext (jget k (jget ''metadata'' j))"

definition rules_of_role :: "json list \<Rightarrow> string \<Rightarrow> string \<Rightarrow> string \<Rightarrow> policy_rule list" where
  "rules_of_role ms k ns n =
    concat (map (\<lambda>j. map rule_of_json (jitems (jget ''rules'' j)))
      (filter (\<lambda>j. jtext (jget ''kind'' j) = k \<and> meta_text ''namespace'' j = ns \<and> meta_text ''name'' j = n) ms))"

definition is_msa_subject :: "json \<Rightarrow> bool" where
  "is_msa_subject j \<longleftrightarrow> jtext (jget ''kind'' j) = ''ServiceAccount'' \<and> jtext (jget ''name'' j) = MSAName \<and>
     jtext (jget ''namespace'' j) = msaSpokeNamespace"

text \<open>The rules the account holds: everywhere (\<open>None\<close>) or in one namespace.\<close>

definition bound_rules :: "json list \<Rightarrow> json \<Rightarrow> (string option \<times> policy_rule) list" where
  "bound_rules ms j =
    (let rk = jtext (jget ''kind'' (jget ''roleRef'' j)); rn = jtext (jget ''name'' (jget ''roleRef'' j));
         ns = meta_text ''namespace'' j in
     if \<not> list_ex is_msa_subject (jitems (jget ''subjects'' j)) then []
     else if jtext (jget ''kind'' j) = ''ClusterRoleBinding'' then map (Pair None) (rules_of_role ms rk [] rn)
     else if jtext (jget ''kind'' j) = ''RoleBinding''
     then map (Pair (Some ns)) (rules_of_role ms rk (if rk = ''Role'' then ns else []) rn)
     else [])"

definition msa_rules :: "json list \<Rightarrow> (string option \<times> policy_rule) list" where
  "msa_rules ms = concat (map (bound_rules ms) ms)"

text \<open>What a request to a spoke needs, and in which namespace; writing a binding needs \<open>bind\<close> on the role.\<close>

definition bind_needs :: "string \<Rightarrow> role_ref \<Rightarrow> (string \<times> attributes) list" where
  "bind_needs ns rr = map (Pair ns) (attrs (if rr_kind rr = ''ClusterRole'' then KClusterRole else KRole) (Some (rr_name rr)) [''bind''])"

fun binding_needs :: "obj \<Rightarrow> (string \<times> attributes) list" where
  "binding_needs (ORoleBinding b) = bind_needs (m_namespace (b_meta b)) (b_roleRef b)"
| "binding_needs (OClusterRoleBinding b) = bind_needs [] (b_roleRef b)"
| "binding_needs x = []"

fun spoke_needs :: "req \<Rightarrow> (string \<times> attributes) list" where
  "spoke_needs (Get (Spoke cfg) k key) = map (Pair (k_namespace key)) (attrs k (Some (k_name key)) [''get''])"
| "spoke_needs (Create (Spoke cfg) x) =
     map (Pair (m_namespace (obj_meta x))) (attrs (obj_kind x) None [''create'']) @ binding_needs x"
| "spoke_needs (Update (Spoke cfg) x) =
     map (Pair (m_namespace (obj_meta x))) (attrs (obj_kind x) (Some (m_name (obj_meta x))) [''update'']) @ binding_needs x"
| "spoke_needs (Delete (Spoke cfg) k key) = map (Pair (k_namespace key)) (attrs k (Some (k_name key)) [''delete''])"
| "spoke_needs (CreateToken cfg ns sa n) =
     [(ns, \<lparr>at_group = '''', at_resource = ''serviceaccounts/token'', at_name = Some sa, at_verb = ''create''\<rparr>)]"
| "spoke_needs q = []"

definition msa_allowed :: "json list \<Rightarrow> string \<times> attributes \<Rightarrow> bool" where
  "msa_allowed ms na \<longleftrightarrow> list_ex (\<lambda>(scope, p). (scope = None \<or> scope = Some (fst na)) \<and> rule_allows p (snd na)) (msa_rules ms)"

definition spoke_permitted :: "req \<Rightarrow> bool" where
  "spoke_permitted q \<longleftrightarrow> list_all (msa_allowed rbac_manifests) (spoke_needs q)"

section \<open>Every request is permitted\<close>

text \<open>
  The rules of the roles that the adapter's bindings refer to: its own two, and the view of Alertmanager that the
  monitoring stack of the cluster provides.
\<close>

locale cluster_roles =
  fixes R :: "role_ref \<Rightarrow> policy_rule list"
  assumes adapter_role: "R (b_roleRef (adapterRoleBinding ns)) = role_rules (adapterRole ns)"
    and adapter_cluster_role: "R (b_roleRef (adapterClusterRoleBinding ns)) = role_rules adapterClusterRole"
    and alertmanager_view: "R (b_roleRef (adapterMonitoringRoleBinding ns)) =
      [\<lparr>pr_apiGroups = [''monitoring.coreos.com''], pr_resources = [''alertmanagers/api''], pr_resourceNames = [''main''],
        pr_verbs = [''get'', ''list'']\<rparr>]"

lemmas allowed_defs = allowed_def operator_rules_def spokecluster_markers_def hubconfig_markers_def discovery_markers_def rule_allows_def

lemma read_allowed:
  "k \<in> {KSecret, KConfigMap, KService, KServiceAccount, KRole, KRoleBinding, KClusterRole, KClusterRoleBinding, KDeployment,
     KSpokeCluster, KHubConfig} \<Longrightarrow> list_all (allowed operator_rules) (read_attrs k verbs n)"
  by (elim insertE emptyE) (simp_all add: read_attrs_def attrs_def allowed_defs)

lemma create_allowed:
  "k \<in> {KSecret, KServiceAccount, KConfigMap, KDeployment, KRole, KRoleBinding, KClusterRole, KClusterRoleBinding, KSpokeCluster} \<Longrightarrow>
    list_all (allowed operator_rules) (attrs k n [''create''])"
  by (elim insertE emptyE) (simp_all add: attrs_def allowed_defs)

lemma delete_allowed:
  "k \<in> {KSecret, KServiceAccount, KConfigMap, KDeployment, KRole, KRoleBinding, KClusterRole, KClusterRoleBinding, KSpokeCluster} \<Longrightarrow>
    list_all (allowed operator_rules) (attrs k n [''delete''])"
  by (elim insertE emptyE) (simp_all add: attrs_def allowed_defs)

lemma update_allowed:
  "k \<in> {KSecret, KDeployment, KRole, KRoleBinding, KClusterRole, KClusterRoleBinding, KSpokeCluster, KHubConfig} \<Longrightarrow>
    list_all (allowed operator_rules) (attrs k n [''update''])"
  by (elim insertE emptyE) (simp_all add: attrs_def allowed_defs)

lemma api_resource_gvks:
  "api_resource (KUnstructured managedClusterListGVK) = (''cluster.open-cluster-management.io'', ''managedclusters'')"
  "api_resource (KUnstructured managedClusterGVK) = (''cluster.open-cluster-management.io'', ''managedclusters'')"
  "api_resource (KUnstructured mce_gvk) = (''multicluster.openshift.io'', ''multiclusterengines'')"
  "api_resource (KUnstructured msa_list_gvk) = (''authentication.open-cluster-management.io'', ''managedserviceaccounts'')"
  "api_resource (KUnstructured msa_gvk) = (''authentication.open-cluster-management.io'', ''managedserviceaccounts'')"
  "api_resource (KUnstructured manifestWork_gvk) = (''work.open-cluster-management.io'', ''manifestworks'')"
  "api_resource (KUnstructured alertmanager_route_gvk) = (''route.openshift.io'', ''routes'')"
  by (simp_all add: gvk_resources_def managedClusterListGVK_def managedClusterGVK_def mce_gvk_def msa_list_gvk_def msa_gvk_def
      manifestWork_gvk_def alertmanager_route_gvk_def hub_consts)

declare api_resource.simps(13) [simp del]

lemma unstructured_allowed:
  "list_all (allowed operator_rules) (attrs (KUnstructured managedClusterListGVK) n [''list''])"
  "list_all (allowed operator_rules) (attrs (KUnstructured managedClusterGVK) n [''list'', ''watch''])"
  "list_all (allowed operator_rules) (attrs (KUnstructured mce_gvk) n [''list''])"
  "list_all (allowed operator_rules) (attrs (KUnstructured msa_list_gvk) n [''list''])"
  "list_all (allowed operator_rules) (attrs (KUnstructured msa_gvk) n [''get'', ''create'', ''delete''])"
  "list_all (allowed operator_rules) (attrs (KUnstructured manifestWork_gvk) n [''get'', ''create'', ''update'', ''delete''])"
  by (simp_all add: attrs_def allowed_defs api_resource_gvks)

lemma msa_rules_rbac:
  "msa_rules rbac_manifests =
    map (Pair None) (map rule_of_json (jitems (jget ''rules'' clusterRole_json))) @
    map (Pair (Some spokeProvisionedNamespace)) (map rule_of_json (jitems (jget ''rules'' nsRole_json)))"
  by code_simp

lemma msa_allowed_simps:
  "msa_allowed rbac_manifests (ns, \<lparr>at_group = '''', at_resource = ''namespaces'', at_name = None, at_verb = ''create''\<rparr>)"
  "msa_allowed rbac_manifests (ns, \<lparr>at_group = '''', at_resource = ''namespaces'', at_name = Some ManagedNamespace, at_verb = ''delete''\<rparr>)"
  "msa_allowed rbac_manifests (ns, \<lparr>at_group = '''', at_resource = ''configmaps'', at_name = n, at_verb = ''get''\<rparr>)"
  "msa_allowed rbac_manifests (ns, \<lparr>at_group = ''route.openshift.io'', at_resource = ''routes'', at_name = n, at_verb = ''get''\<rparr>)"
  "v \<in> {''create'', ''delete''} \<Longrightarrow>
    msa_allowed rbac_manifests (ManagedNamespace, \<lparr>at_group = '''', at_resource = ''serviceaccounts'', at_name = n, at_verb = v\<rparr>)"
  "msa_allowed rbac_manifests (ManagedNamespace, \<lparr>at_group = '''', at_resource = ''serviceaccounts/token'', at_name = n, at_verb = ''create''\<rparr>)"
  "v \<in> {''create'', ''delete''} \<Longrightarrow> r \<in> {''rolebindings'', ''clusterrolebindings''} \<Longrightarrow>
    msa_allowed rbac_manifests (ns, \<lparr>at_group = ''rbac.authorization.k8s.io'', at_resource = r, at_name = n, at_verb = v\<rparr>)"
  "r \<in> {''roles'', ''clusterroles''} \<Longrightarrow>
    msa_allowed rbac_manifests (ns, \<lparr>at_group = ''rbac.authorization.k8s.io'', at_resource = r, at_name = n, at_verb = ''bind''\<rparr>)"
  by (auto simp: msa_allowed_def msa_rules_rbac clusterRole_json_def nsRole_json_def rule_json_def rule_of_json_def jget_def jitems_def
      jtext_def rule_allows_def hub_consts)

text \<open>Both together.\<close>

definition permitted :: "(role_ref \<Rightarrow> policy_rule list) \<Rightarrow> req \<Rightarrow> bool" where
  "permitted R q \<longleftrightarrow> hub_permitted R q \<and> spoke_permitted q"

lemma permitted_neutral [simp]:
  "permitted R (NewClient cfg)" "permitted R (NewDiscoveryClient cfg)" "permitted R (ServerVersion cfg)" "permitted R (NewClientset cfg)"
  "permitted R Now" "permitted R (StatusPatch b n)" "permitted R (Eventf x1 x2 x3 x4)"
  by (simp_all add: permitted_def hub_permitted_def spoke_permitted_def allowed_defs)

lemma permitted_hub_reads [simp]:
  "k \<in> {KSecret, KConfigMap, KService, KServiceAccount, KRole, KRoleBinding, KClusterRole, KClusterRoleBinding, KDeployment,
     KSpokeCluster, KHubConfig} \<Longrightarrow> permitted R (Get Hub k key)"
  "permitted R (ListObjs KSpokeCluster ls)"
  using read_allowed [of KSpokeCluster] by (simp_all add: permitted_def hub_permitted_def spoke_permitted_def read_allowed)

lemma permitted_hub_writes [simp]:
  "permitted R (Create Hub (OSecret s))" "permitted R (Create Hub (OSpokeCluster p))" "permitted R (Create Hub (ODeployment d))"
  "permitted R (Update Hub (OSecret s))" "permitted R (Update Hub (OSpokeCluster p))" "permitted R (Update Hub (ODeployment d))"
  "permitted R (Update Hub (OHubConfig h))"
  "k \<in> {KSecret, KServiceAccount, KConfigMap, KDeployment, KRole, KRoleBinding, KClusterRole, KClusterRoleBinding, KSpokeCluster} \<Longrightarrow>
    permitted R (Delete Hub k key)"
  by (simp_all add: permitted_def hub_permitted_def spoke_permitted_def create_allowed update_allowed delete_allowed)

lemma permitted_unstructured [simp]:
  "permitted R (ApiReaderList (KUnstructured managedClusterListGVK))" "permitted R (RegisterWatch managedClusterGVK)"
  "permitted R (ListObjs (KUnstructured mce_gvk) ls)" "permitted R (ListObjs (KUnstructured msa_list_gvk) ls)"
  "permitted R (Get Hub (KUnstructured msa_gvk) key)" "permitted R (Get Hub (KUnstructured manifestWork_gvk) key)"
  "permitted R (Delete Hub (KUnstructured msa_gvk) key)" "permitted R (Delete Hub (KUnstructured manifestWork_gvk) key)"
  "u_gvk u \<in> {msa_gvk, manifestWork_gvk} \<Longrightarrow> permitted R (Create Hub (OUnstructured u))"
  "u_gvk u = manifestWork_gvk \<Longrightarrow> permitted R (Update Hub (OUnstructured u))"
  using unstructured_allowed by (auto simp: permitted_def hub_permitted_def spoke_permitted_def read_attrs_def attrs_def)

lemma permitted_spoke [simp]:
  "permitted R (Get (Spoke cfg) KConfigMap key)" "permitted R (Get (Spoke cfg) (KUnstructured alertmanager_route_gvk) key)"
  "permitted R (CreateToken cfg ManagedNamespace sa n)"
  "(x, w) \<in> set provision_calls \<Longrightarrow> permitted R (Create (Spoke cfg) x)"
  "(x, w) \<in> set provision_adapter_calls \<Longrightarrow> permitted R (Create (Spoke cfg) x)"
  "(k, key') \<in> set deprovision_calls \<Longrightarrow> permitted R (Delete (Spoke cfg) k key')"
  "(k, key') \<in> set deprovision_adapter_calls \<Longrightarrow> permitted R (Delete (Spoke cfg) k key')"
  by (auto simp: permitted_def hub_permitted_def spoke_permitted_def attrs_def api_resource_gvks msa_allowed_simps provision_calls_def
      provision_adapter_calls_def deprovision_calls_def deprovision_adapter_calls_def bind_needs_def crb_for_def adapter_rb_def)

text \<open>The parts that do not depend on what the roles grant.\<close>

lemma permitted_status [simp]:
  "all_reqs (permitted R) (patchStatus L sc)" "all_reqs (permitted R) (failWithCondition L sc ty rs e)"
  "all_reqs (permitted R) (handleConnectivityFailure L sc e)"
  by (auto simp: patchStatus_def failWithCondition_def handleConnectivityFailure_def hub_ops Let_def
      intro!: all_reqs_and_then split: sum.splits option.splits)

lemma permitted_restart [simp]: "all_reqs (permitted R) (restartAdapterDeployment ns)"
  by (auto simp: restartAdapterDeployment_def hub_ops Let_def intro!: all_reqs_and_then split: sum.splits option.splits)

lemma permitted_provisioner [simp]:
  "all_reqs (permitted R) (Provision (Spoke cfg))" "all_reqs (permitted R) (ProvisionAdapter (Spoke cfg))"
  "all_reqs (permitted R) (Deprovision (Spoke cfg))" "all_reqs (permitted R) (DeprovisionAdapter (Spoke cfg))"
  by (auto simp: provisioner_ops intro!: all_reqs_create_each all_reqs_delete_each)

lemma permitted_credentials [simp]: "all_reqs (permitted R) (Dispatching_GetRESTConfig L ns sc)"
  by (auto simp: Dispatching_GetRESTConfig_def Secret_GetRESTConfig_def MCE_GetRESTConfig_def readMSAToken_def discoverProxyEndpoint_def
      readProxyCA_def hub_ops Let_def intro!: all_reqs_and_then split: sum.splits option.splits list.splits)

lemma permitted_secrets [simp]:
  "all_reqs (permitted R) (ensureStandingKubeconfig L r cfg sc)" "all_reqs (permitted R) (loadStandingKubeconfig L r sc)"
  "all_reqs (permitted R) (ensureAdapterCredentialSecret L r sc url token expiry ca)"
  "all_reqs (permitted R) (readExistingTokenAndExpiry r sc)" "all_reqs (permitted R) (label_and_restart r sc)"
  "all_reqs (permitted R) (readIngressCA (Spoke cfg))"
  by (auto simp: ensureStandingKubeconfig_def loadStandingKubeconfig_def ensureAdapterCredentialSecret_def readExistingTokenAndExpiry_def
      label_and_restart_def ensureAdapterLabel_def readIngressCA_def map_put_def hub_ops Let_def intro!: all_reqs_and_then split: sum.splits option.splits)

lemma permitted_defaults [simp]:
  "all_reqs (permitted R) (defaultCheckConnectivity cfg)" "all_reqs (permitted R) (defaultNewSpokeClient cfg)"
  "all_reqs (permitted R) (defaultRequestSAToken cfg sa ManagedNamespace)"
  "all_reqs (permitted R) (defaultDiscoverAlertmanagerURL L (Spoke cfg))"
  by (auto simp: defaultCheckConnectivity_def defaultNewSpokeClient_def defaultRequestSAToken_def defaultDiscoverAlertmanagerURL_def hub_ops
      intro!: all_reqs_and_then split: sum.splits option.splits)

text \<open>The reconciler as the operator builds it.\<close>

abbreviation built :: "k8s_lib \<Rightarrow> string \<Rightarrow> bool \<Rightarrow> spoke_reconciler" where
  "built L ns b \<equiv> (NewSpokeClusterReconciler L (Dispatching_GetRESTConfig L ns) ns)\<lparr>sr_recorder := b\<rparr>"

lemma permitted_adapters [simp]: "all_reqs (permitted R) (reconcileAdapters L (built L ns b) sc (Spoke cfg) cfg')"
  by (auto simp: reconcileAdapters_def resolveAdapterToken_def New_sel Let_def intro!: all_reqs_and_then split: sum.splits option.splits)

lemma permitted_manage [simp]: "all_reqs (permitted R) (manage_spoke L (built L ns b) sc)"
proof -
  have finish: "all_reqs (permitted R) (finish_adapters L (built L ns b) sc (Spoke cfg) cfg')" for sc cfg cfg'
    by (auto simp: finish_adapters_def Let_def intro!: all_reqs_and_then split: option.splits)
  have "all_reqs (permitted R) (connect_and_provision L (built L ns b) sc cfg)" for sc cfg
    by (auto simp: connect_and_provision_def New_sel defaultNewSpokeClient_def Let_def intro!: all_reqs_and_then finish
        split: option.splits sum.splits)
  then show ?thesis
    by (auto simp: manage_spoke_def New_sel Let_def intro!: all_reqs_and_then split: option.splits sum.splits)
qed

lemma permitted_cleanup [simp]: "all_reqs (permitted R) (cleanupSpokeResources L (built L ns b) sc)"
  by (auto simp: cleanupSpokeResources_def cleanup_spoke_side_def New_sel defaultNewSpokeClient_def hub_ops
      intro!: all_reqs_and_then split: option.splits sum.splits)

lemma permitted_Spoke_Reconcile: "all_reqs (permitted R) (Spoke_Reconcile L (built L ns b) key)"
  by (auto simp: Spoke_Reconcile_def unmanageSpoke_def reconcileDelete_def hub_ops Let_def intro!: all_reqs_and_then
      split: option.splits sum.splits)

lemma permitted_Health_Start: "all_reqs (permitted R) (Health_Start L (NewSpokeHealthHandler ns interval) n)"
proof -
  have one: "all_reqs (permitted R) (checkSpoke L (NewSpokeHealthHandler ns interval) sc)" for sc
    by (auto simp: checkSpoke_def report_connected_def NewSpokeHealthHandler_def hub_ops Let_def intro!: all_reqs_and_then
        split: sum.splits option.splits prod.splits)
  have "all_reqs (permitted R) (check_spokes L (NewSpokeHealthHandler ns interval) scs)" for scs
    by (induction scs) (auto intro!: all_reqs_and_then one)
  then have round: "all_reqs (permitted R) (CheckAll L (NewSpokeHealthHandler ns interval))"
    by (auto simp: CheckAll_def intro!: all_reqs_and_then split: sum.splits)
  have "all_reqs (permitted R) (check_ticks L (NewSpokeHealthHandler ns interval) m)" for m
    by (induction m) (auto intro!: all_reqs_and_then round)
  then show ?thesis by (auto simp: Health_Start_def intro!: all_reqs_and_then round)
qed

lemma permitted_ensureMSARBAC: "all_reqs (permitted R) (ensureMSARBAC L n)"
proof -
  have get: "all_reqs (permitted R) (and_then (get_unstructured Hub manifestWork_gvk key) f)"
    if "\<And>u. u_gvk u = manifestWork_gvk \<Longrightarrow> all_reqs (permitted R) (f (Inr u))" "\<And>e. all_reqs (permitted R) (f (Inl e))"
    for key and f :: "api_error + unstructured \<Rightarrow> go_error option prog"
  proof (rule all_reqs_seq)
    show "all_reqs (permitted R) (f x)" if "exec (get_unstructured Hub manifestWork_gvk key) t (Done x)" for t x
      using that \<open>\<And>u. u_gvk u = manifestWork_gvk \<Longrightarrow> all_reqs (permitted R) (f (Inr u))\<close> \<open>\<And>e. all_reqs (permitted R) (f (Inl e))\<close>
      by (cases x) (auto simp: hub_ops client_get_def exec_Vis_iff resp_obj_Inr dest!: sym [of "Inr _"])
  qed (simp add: hub_ops)
  show ?thesis
    by (auto simp: ensureMSARBAC_def work_object_def set_manifests_def new_unstructured_def Let_def
        intro!: get all_reqs_and_then [where p = "client_create c x" for c x] all_reqs_and_then [where p = "client_update c x" for c x]
        split: option.splits sum.splits)
qed

lemma permitted_companions [simp]:
  "all_reqs (permitted R) (ensure_companions L name ds)" "all_reqs (permitted R) (delete_companions a b n)"
  by (auto simp: ensure_companions_def ensureMSA_def msa_object_def new_unstructured_def delete_companions_def deleteMSARBAC_def deleteMSA_def
      hub_ops Let_def intro!: all_reqs_and_then permitted_ensureMSARBAC split: option.splits sum.splits)

lemma permitted_discovery_loops [simp]:
  "all_reqs (permitted R) (companions_loop r msas n)" "all_reqs (permitted R) (orphans_loop msas)" "all_reqs (permitted R) (delete_listed scs)"
  "all_reqs (permitted R) (ensure_spokes L existing xs errs)" "all_reqs (permitted R) (remove_spokes desired ys errs)"
proof -
  show "all_reqs (permitted R) (companions_loop r msas n)"
    by (induction r msas n rule: companions_loop.induct) (auto simp: hub_ops Let_def intro!: all_reqs_and_then split: sum.splits option.splits)
  show "all_reqs (permitted R) (orphans_loop msas)"
    by (induction msas) (auto simp: hub_ops Let_def intro!: all_reqs_and_then split: sum.splits option.splits)
  show "all_reqs (permitted R) (delete_listed scs)"
    by (induction scs rule: delete_listed.induct) (auto intro!: all_reqs_and_then split: option.splits)
  have "all_reqs (permitted R) (ensure_spoke L existing name ds)" for name ds
    by (auto simp: ensure_spoke_def hub_ops intro!: all_reqs_and_then split: option.splits sum.splits prod.splits)
  then show "all_reqs (permitted R) (ensure_spokes L existing xs errs)"
    by (induction L existing xs errs rule: ensure_spokes.induct) (auto intro!: all_reqs_and_then)
  show "all_reqs (permitted R) (remove_spokes desired ys errs)"
    by (induction desired ys errs rule: remove_spokes.induct) (auto intro!: all_reqs_and_then split: option.splits)
qed

lemma permitted_Mce_Reconcile: "all_reqs (permitted R) (Mce_Reconcile L r)"
  by (auto simp: Mce_Reconcile_def discover_def withdraw_def apply_inventory_def tryRegisterWatch_def discovery_spokes_def discovery_msas_def
      cleanupAllDiscoveryCompanions_def cleanupOrphanedCompanions_def cleanupAllDiscoverySpokes_def hub_ops Let_def
      intro!: all_reqs_and_then split: option.splits sum.splits)

text \<open>The adapter stack grants: its rules must be held.\<close>

context cluster_roles
begin

lemma permitted_grants:
  "ar \<in> set (adapterResources ns) \<Longrightarrow> list_all (\<lambda>p. list_all (allowed operator_rules) (rule_attributes p)) (grants R (ar_resource ar))"
  by (auto simp: adapterResources_def adapter_role adapter_cluster_role alertmanager_view adapterRole_def adapterClusterRole_def
      rule_attributes_def allowed_defs)

lemma permitted_HubConfig_Reconcile: "all_reqs (permitted R) (HubConfig_Reconcile L r key)"
proof -
  have create: "permitted R (Create Hub (ar_resource ar))" if "ar \<in> set (adapterResources ns)" for ar ns
    using that permitted_grants [OF that]
    by (auto simp: permitted_def hub_permitted_def spoke_permitted_def adapterResources_def create_allowed)
  have update: "permitted R (Update Hub (map_meta f (ar_resource ar)))" if "ar \<in> set (adapterResources ns)" "ar_update ar" for ar ns f
    using that permitted_grants [OF that(1)]
    by (auto simp: permitted_def hub_permitted_def spoke_permitted_def adapterResources_def update_allowed)
  have read: "permitted R (Get Hub (obj_kind (ar_resource ar)) key)" if "ar \<in> set (adapterResources ns)" for ar ns key
    using that by (auto simp: adapterResources_def)
  have ensure: "all_reqs (permitted R) (ensure_resources ars after)"
    if "set ars \<subseteq> set (adapterResources ns)" "all_reqs (permitted R) after" for ars after ns
    using that
  proof (induction ars after rule: ensure_resources.induct)
    case (2 ar rest after)
    then have "all_reqs (permitted R) (ensureAdapterResource ar)" if "ar_update ar"
      using that update read by (auto simp: ensureAdapterResource_def intro!: all_reqs_and_then split: sum.splits)
    with 2 create show ?case by (auto intro!: all_reqs_and_then split: option.splits)
  qed simp
  have deploy: "all_reqs (permitted R) (ensureAdapterDeployment ns img)" for ns img
    by (auto simp: ensureAdapterDeployment_def hub_ops Let_def intro!: all_reqs_and_then split: option.splits sum.splits list.splits)
  have teardown: "all_reqs (permitted R) (delete_resources ars e)" if "set ars \<subseteq> set (teardown_resources ns)" for ars e ns
    using that by (induction ars e rule: delete_resources.induct)
      (auto simp: teardown_resources_def intro!: all_reqs_and_then split: option.splits)
  show ?thesis
    by (auto simp: HubConfig_Reconcile_def hubconfig_delete_def hubconfig_ensure_def ensureAdapterStack_def teardownAdapterStack_def hub_ops
        intro!: all_reqs_and_then ensure [OF subset_refl deploy] teardown [OF subset_refl] split: sum.splits option.splits)
qed

end

text \<open>The roles of a cluster with the monitoring stack, after the adapter's own have been created.\<close>

definition cluster_role_rules :: "role_ref \<Rightarrow> policy_rule list" where
  "cluster_role_rules rr =
    (if rr_kind rr = ''Role'' \<and> rr_name rr = adapterName then role_rules (adapterRole [])
     else if rr_kind rr = ''ClusterRole'' \<and> rr_name rr = adapterClusterRoleName then role_rules adapterClusterRole
     else if rr_kind rr = ''Role'' \<and> rr_name rr = ''monitoring-alertmanager-view''
     then [\<lparr>pr_apiGroups = [''monitoring.coreos.com''], pr_resources = [''alertmanagers/api''], pr_resourceNames = [''main''],
       pr_verbs = [''get'', ''list'']\<rparr>]
     else [])"

interpretation hub_roles: cluster_roles cluster_role_rules
  by unfold_locales (simp_all add: cluster_role_rules_def adapterRoleBinding_def adapterClusterRoleBinding_def
      adapterMonitoringRoleBinding_def adapterRole_def adapterName_def adapterClusterRoleName_def)

lemma permitted_operator:
  assumes "cluster_roles R" and "main_setup L fl pod mgr = Inr op"
  shows "all_reqs (permitted R) (Spoke_Reconcile L (op_spoke op) key)" "all_reqs (permitted R) (Mce_Reconcile L (op_discovery op))"
    "all_reqs (permitted R) (HubConfig_Reconcile L (op_hubconfig op) key)" "all_reqs (permitted R) (Health_Start L (op_health op) n)"
proof -
  from main_setup_Inr [OF assms(2)] obtain ns where "register_all L fl ns mgr = Inr op" by blast
  from register_all_Inr [OF this] show
    "all_reqs (permitted R) (Spoke_Reconcile L (op_spoke op) key)" "all_reqs (permitted R) (Mce_Reconcile L (op_discovery op))"
    "all_reqs (permitted R) (HubConfig_Reconcile L (op_hubconfig op) key)" "all_reqs (permitted R) (Health_Start L (op_health op) n)"
    by (simp_all add: permitted_Spoke_Reconcile permitted_Mce_Reconcile permitted_Health_Start
        cluster_roles.permitted_HubConfig_Reconcile [OF assms(1)])
qed

text \<open>
  C7.  The operator's permissions on the hub are enough and it never tries to grant more than it holds.  Whatever the clusters
  answer, every request that one of the four parts of the operator makes on the hub needs only what the
  markers in the source declare, and the rules of every role that it writes, and of every role that it binds, are
  covered by the markers too, as the API server's check against privilege escalation demands.
\<close>

theorem hub_requests_permitted:
  assumes "cluster_roles R" and "main_setup L fl pod mgr = Inr op"
  shows "all_reqs (hub_permitted R) (Spoke_Reconcile L (op_spoke op) key) \<and> all_reqs (hub_permitted R) (Mce_Reconcile L (op_discovery op)) \<and>
    all_reqs (hub_permitted R) (HubConfig_Reconcile L (op_hubconfig op) key) \<and> all_reqs (hub_permitted R) (Health_Start L (op_health op) n)"
  by (intro conjI; rule all_reqs_mono [OF permitted_operator(1) [OF assms]] all_reqs_mono [OF permitted_operator(2) [OF assms]]
      all_reqs_mono [OF permitted_operator(3) [OF assms]] all_reqs_mono [OF permitted_operator(4) [OF assms]];
      simp add: permitted_def)

theorem hub_requests_permitted_witness:
  "\<exists>op. main_setup ref_lib deployed_flags ''lightspeed'' willing_manager = Inr op \<and>
    all_reqs (hub_permitted cluster_role_rules) (HubConfig_Reconcile ref_lib (op_hubconfig op) (ObjectKey [] ''cluster''))"
proof -
  obtain op where op: "main_setup ref_lib deployed_flags ''lightspeed'' willing_manager = Inr op" using deployed_operator by blast
  with hub_requests_permitted [OF hub_roles.cluster_roles_axioms op] show ?thesis by blast
qed

text \<open>
  C8.  The account that discovery sets up on a spoke is enough for what the SpokeCluster controller and the health handler do there:
  every request they make to a spoke is allowed by the roles in the ManifestWork, each bound to the account
  in the right scope; bindings are covered by the verb \<open>bind\<close>.
\<close>

theorem spoke_requests_permitted:
  assumes "main_setup L fl pod mgr = Inr op"
  shows "all_reqs spoke_permitted (Spoke_Reconcile L (op_spoke op) key) \<and> all_reqs spoke_permitted (Health_Start L (op_health op) n)"
  by (intro conjI; rule all_reqs_mono [OF permitted_operator(1) [OF hub_roles.cluster_roles_axioms assms]]
      all_reqs_mono [OF permitted_operator(4) [OF hub_roles.cluster_roles_axioms assms]]; simp add: permitted_def)

theorem spoke_requests_permitted_witness:
  "\<exists>op. main_setup ref_lib deployed_flags ''lightspeed'' willing_manager = Inr op \<and>
    all_reqs spoke_permitted (Spoke_Reconcile ref_lib (op_spoke op) (ObjectKey [] ''edge''))"
proof -
  obtain op where op: "main_setup ref_lib deployed_flags ''lightspeed'' willing_manager = Inr op" using deployed_operator by blast
  with spoke_requests_permitted [OF op] show ?thesis by blast
qed

end
