(* ===== verification/Concurrency.thy ===== *)
theory Concurrency
  imports Permissions
begin

text \<open>
  The operator as a whole.  Any number of reconciles and of health-check rounds run at the same time, their requests interleave in
  any order, and the rest of the cluster changes objects in between.  The system is a step relation; its
  invariants are proved by induction over the steps.
\<close>

section \<open>Servers that keep requests apart\<close>

text \<open>The object, or for the deletion of a namespace the objects, that a request may change.\<close>

fun touches :: "req \<Rightarrow> target \<Rightarrow> kind \<Rightarrow> object_key \<Rightarrow> bool" where
  "touches (Create c x) c' k key \<longleftrightarrow> c' = c \<and> k = obj_kind x \<and> key = okey x"
| "touches (Update c x) c' k key \<longleftrightarrow> c' = c \<and> k = obj_kind x \<and> key = okey x"
| "touches (Delete c k key) c' k' key' \<longleftrightarrow> c' = c \<and> \<not> outside k key k' key'"
| "touches (StatusPatch b n) c' k key \<longleftrightarrow> c' = Hub \<and> k = KSpokeCluster \<and> key = okey (OSpokeCluster n)"
| "touches q c' k key \<longleftrightarrow> False"

locale isolated_server = api_server H store for H :: "'w \<Rightarrow> req \<Rightarrow> resp \<times> 'w" and store :: "'w \<Rightarrow> store" +
  assumes request_local: "store (snd (H w q)) c k key \<noteq> store w c k key \<Longrightarrow> touches q c k key"

text \<open>The reference server keeps them apart.\<close>

lemma okey_updates [simp]:
  "okey (map_meta (m_deletion_update f) x) = okey x" "okey (map_meta (m_generation_update h) x) = okey x" "okey (OSpokeCluster (sc_conditions_update g sc)) = okey (OSpokeCluster sc)"
  by (simp_all add: ObjectKeyFromObject_def)

interpretation ref_isolated: isolated_server ref_server ref_store
proof
  fix w q c k key
  assume changed: "ref_store (snd (ref_server w q)) c k key \<noteq> ref_store w c k key"
  show "touches q c k key"
  proof (cases q)
    case (Create c' x)
    with changed show ?thesis
      by (auto simp: ref_server_def store_put_apply dest!: lookup_put split: option.splits prod.splits if_splits)
  next
    case (Update c' x)
    with changed show ?thesis
      by (auto simp: ref_server_calls ref_update_def lookup_remove store_put_apply dest!: lookup_put split: option.splits prod.splits if_splits)
  next
    case (Delete c' k' key')
    show ?thesis
    proof (cases "ref_store w c' k' key'")
      case None
      from ref.delete_missing [OF this] changed Delete show ?thesis by auto
    next
      case (Some x)
      from ref.delete_present [OF this] obtain r w' where "ref_server w (Delete c' k' key') = (r, w')" and
        "\<forall>c1 k1 key1. ref_store w' c1 k1 key1 = ref_store w c1 k1 key1 \<or>
          (c1 = c' \<and> \<not> outside k' key' k1 key1 \<and> deleted (ref_store w' c1 k1 key1))" by blast
      with changed Delete show ?thesis by (metis snd_conv touches.simps(3))
    qed
  next
    case (StatusPatch b n)
    with changed show ?thesis
      by (auto simp: ref_server_def store_put_apply dest!: lookup_put lookup_wf split: option.splits prod.splits obj.splits if_splits)
  qed (use changed ref.other_requests [of q w] in simp_all)
qed

text \<open>A get that is answered with an object is answered with the one that was asked for.\<close>

definition honest :: "event \<Rightarrow> bool" where
  "honest ev = (case ev of (Get c k key, RObj x) \<Rightarrow> obj_kind x = k \<and> okey x = key | _ \<Rightarrow> True)"

lemma honest_get [simp]: "honest (Get c k key, RObj x) \<longleftrightarrow> obj_kind x = k \<and> okey x = key"
  by (simp add: honest_def)

context api_server
begin

lemma answers_honest: "honest (q, fst (H w q))"
proof (cases "\<exists>c k key. q = Get c k key")
  case True
  then obtain c k key where q: "q = Get c k key" by blast
  show ?thesis
  proof (cases "store w c k key")
    case None
    from get_missing [OF this] q show ?thesis by (auto simp: honest_def)
  next
    case (Some x)
    from get_found [OF this] store_wf [OF this] q show ?thesis by auto
  qed
next
  case False
  then show ?thesis by (auto simp: honest_def split: req.split)
qed

end

section \<open>The system\<close>

text \<open>
  A thread is the events it has seen and what is left of its program.  A step is a request of some thread with its answer,
  the start of a new thread, or a change made by something else in the cluster.
\<close>

type_synonym thread = "event list \<times> unit prog"

inductive step :: "('w \<Rightarrow> req \<Rightarrow> resp \<times> 'w) \<Rightarrow> unit prog set \<Rightarrow> ('w \<Rightarrow> 'w \<Rightarrow> bool) \<Rightarrow> 'w \<times> thread list \<Rightarrow> 'w \<times> thread list \<Rightarrow> bool"
  for H :: "'w \<Rightarrow> req \<Rightarrow> resp \<times> 'w" and starts :: "unit prog set" and other :: "'w \<Rightarrow> 'w \<Rightarrow> bool" where
  issue: "i < length ts \<Longrightarrow> ts ! i = (t, Vis q k) \<Longrightarrow> H w q = (r, w') \<Longrightarrow>
    step H starts other (w, ts) (w', ts[i := (t @ [(q, r)], k r)])"
| begin_run: "p \<in> starts \<Longrightarrow> step H starts other (w, ts) (w, ts @ [([], p)])"
| elsewhere: "other w w' \<Longrightarrow> step H starts other (w, ts) (w', ts)"

abbreviation steps :: "('w \<Rightarrow> req \<Rightarrow> resp \<times> 'w) \<Rightarrow> unit prog set \<Rightarrow> ('w \<Rightarrow> 'w \<Rightarrow> bool) \<Rightarrow> 'w \<times> thread list \<Rightarrow> 'w \<times> thread list \<Rightarrow> bool" where
  "steps H starts other \<equiv> (step H starts other)\<^sup>*\<^sup>*"

inductive_cases stepE: "step H starts other (w, ts) s"

text \<open>What is justified in every run of each program is justified in every thread of the system.\<close>

definition thread_ok :: "(event set \<Rightarrow> req \<Rightarrow> bool) \<Rightarrow> (event \<Rightarrow> bool) \<Rightarrow> thread \<Rightarrow> bool" where
  "thread_ok ok A th \<longleftrightarrow> guarded ok (set (fst th)) (snd th) \<and> list_all A (fst th)"

lemma steps_thread_ok:
  assumes "\<And>p. p \<in> starts \<Longrightarrow> guarded ok {} p" and "\<And>w q. A (q, fst (H w q))"
    and "steps H starts other (w0, []) (w, ts)"
  shows "\<forall>th \<in> set ts. thread_ok ok A th"
  using assms(3)
proof (induction "(w, ts)" arbitrary: w ts rule: rtranclp_induct)
  case (step s)
  obtain w1 ts1 where s: "s = (w1, ts1)" by (cases s)
  with step have IH: "\<forall>th \<in> set ts1. thread_ok ok A th" by blast
  from step(2) [unfolded s] show ?case
  proof (cases rule: step.cases)
    case (issue i t q k r)
    then have "thread_ok ok A (t, Vis q k)" using IH nth_mem by metis
    with issue(4) assms(2) [of q w1] have "thread_ok ok A (t @ [(q, r)], k r)" by (auto simp: thread_ok_def)
    then show ?thesis using issue(1) IH set_update_subset_insert by fastforce
  next
    case (begin_run p)
    with IH assms(1) show ?thesis by (auto simp: thread_ok_def)
  next
    case elsewhere
    with IH show ?thesis by simp
  qed
qed simp

section \<open>The footprint of the operator\<close>

text \<open>
  The objects the operator manages: on the hub SpokeClusters and HubConfigs, the Secrets it derives for spokes, the adapter
  stack, and the companions of discovered spokes; on a spoke what it provisions, and the content of its namespace there.
\<close>

definition hub_footprint :: "string \<Rightarrow> kind \<Rightarrow> object_key \<Rightarrow> bool" where
  "hub_footprint ns k key \<longleftrightarrow> k = KSpokeCluster \<or> k = KHubConfig \<or>
     (k = KSecret \<and> k_namespace key = ns \<and>
       (HasPrefix (k_name key) StandingKubeconfigPrefix \<or> HasPrefix (k_name key) AdapterCredentialPrefix)) \<or>
     (k, key) \<in> set (map (\<lambda>ar. okid (ar_resource ar)) (teardown_resources ns)) \<or>
     (k = KUnstructured msa_gvk \<and> k_name key = MSAName) \<or> (k = KUnstructured manifestWork_gvk \<and> k_name key = msaRBACWorkName)"

definition spoke_footprint :: "kind \<Rightarrow> object_key \<Rightarrow> bool" where
  "spoke_footprint k key \<longleftrightarrow> (k, key) \<in> set (map (\<lambda>(x, w). okid x) (provision_calls @ provision_adapter_calls)) \<or>
     k_namespace key = ManagedNamespace"

definition footprint :: "string \<Rightarrow> target \<Rightarrow> kind \<Rightarrow> object_key \<Rightarrow> bool" where
  "footprint ns c k key = (case c of Hub \<Rightarrow> hub_footprint ns k key | Spoke cfg \<Rightarrow> spoke_footprint k key)"

definition within :: "string \<Rightarrow> event set \<Rightarrow> req \<Rightarrow> bool" where
  "within ns E q \<longleftrightarrow> ((\<forall>ev \<in> E. honest ev) \<longrightarrow> (\<forall>c k key. touches q c k key \<longrightarrow> footprint ns c k key))"

lemma within_reads [simp]: "\<not> is_write q \<Longrightarrow> within ns E q"
  by (cases q) (simp_all add: within_def)

lemma within_neutral [simp]: "within ns E (CreateToken cfg n sa s)" "within ns E (Eventf x1 x2 x3 x4)" "within ns E (StatusPatch b sc)"
  by (simp_all add: within_def footprint_def hub_footprint_def)

lemma within_free [simp]:
  "obj_kind x \<in> {KSpokeCluster, KHubConfig} \<Longrightarrow> within ns E (Create Hub x)"
  "obj_kind x \<in> {KSpokeCluster, KHubConfig} \<Longrightarrow> within ns E (Update Hub x)"
  "within ns E (Delete Hub KSpokeCluster key)"
  by (auto simp: within_def footprint_def hub_footprint_def outside_def)

lemma within_put:
  "footprint ns c (obj_kind x) (okey x) \<Longrightarrow> within ns E (Create c x)" "footprint ns c (obj_kind x) (okey x) \<Longrightarrow> within ns E (Update c x)"
  by (simp_all add: within_def)

lemma within_delete: "footprint ns c k key \<Longrightarrow> k \<noteq> KNamespace \<Longrightarrow> within ns E (Delete c k key)"
  by (auto simp: within_def outside_def)

lemma within_update_fetched:
  "(Get c k key, RObj x) \<in> E \<Longrightarrow> obj_kind y = obj_kind x \<Longrightarrow> okey y = okey x \<Longrightarrow> footprint ns c k key \<Longrightarrow> within ns E (Update c y)"
  by (force simp: within_def)

lemma guarded_and_then:
  "guarded ok E p \<Longrightarrow> (\<And>x E'. guarded ok E' (f x)) \<Longrightarrow> guarded ok E (and_then p f)"
  by (rule guarded_seq)

lemma guarded_client [simp]:
  "guarded ok E (client_get c k dec key) \<longleftrightarrow> ok E (Get c k key)" "guarded ok E (client_list k dec' ls) \<longleftrightarrow> ok E (ListObjs k ls)"
  "guarded ok E (client_create c x) \<longleftrightarrow> ok E (Create c x)" "guarded ok E (client_delete c k key) \<longleftrightarrow> ok E (Delete c k key)"
  "guarded ok E (client_update c x) \<longleftrightarrow> ok E (Update c x)" "guarded ok E (client_status_patch b n) \<longleftrightarrow> ok E (StatusPatch b n)"
  "guarded ok E get_now \<longleftrightarrow> ok E Now"
  by (simp_all add: client_ops)

lemma within_read_only [simp]: "read_only p \<Longrightarrow> guarded (within ns) E p"
  by (erule guarded_all_reqs) simp

subsection \<open>The adapter stack\<close>

lemma footprint_teardown: "ar \<in> set (teardown_resources ns) \<Longrightarrow> footprint ns Hub (obj_kind (ar_resource ar)) (okey (ar_resource ar))"
  by (force simp: footprint_def hub_footprint_def)

lemma stack_objects: "ar_resource ` set (adapterResources ns) \<subseteq> ar_resource ` set (teardown_resources ns)"
  by (simp add: adapterResources_def teardown_resources_def)

lemma footprint_stack: "ar \<in> set (adapterResources ns) \<Longrightarrow> footprint ns Hub (obj_kind (ar_resource ar)) (okey (ar_resource ar))"
proof -
  assume "ar \<in> set (adapterResources ns)"
  then obtain ar' where "ar' \<in> set (teardown_resources ns)" "ar_resource ar' = ar_resource ar" using stack_objects by (metis imageE imageI subsetD)
  with footprint_teardown [of ar' ns] show ?thesis by simp
qed

lemma okey_adapterDeployment [simp]: "okey (ODeployment (adapterDeployment ns img)) = ObjectKey ns adapterName"
  by (simp add: adapterDeployment_def ObjectKeyFromObject_def)

lemma footprint_deployment: "footprint ns Hub KDeployment (ObjectKey ns adapterName)"
  using footprint_teardown [of "adapterResource ''Deployment'' (ODeployment (adapterDeployment ns [])) False" ns]
  by (simp add: teardown_resources_def)

lemma within_update_deployment:
  "resp_obj as_deployment r = Inr d \<Longrightarrow> (Get Hub KDeployment (ObjectKey ns adapterName), r) \<in> E \<Longrightarrow> d_meta d' = d_meta d \<Longrightarrow>
    within ns E (Update Hub (ODeployment d'))"
  by (rule within_update_fetched [where x = "ODeployment d", OF _ _ _ footprint_deployment])
    (auto simp: resp_obj_Inr ObjectKeyFromObject_def)

lemma within_ensure_deployment [simp]: "guarded (within ns) E (ensureAdapterDeployment ns img)"
  by (auto simp: ensureAdapterDeployment_def hub_ops Let_def
      intro!: within_put(1) within_update_deployment footprint_deployment guarded_and_then [where p = "client_update c x" for c x]
      split: option.split sum.split list.split)

lemma within_restart [simp]: "guarded (within ns) E (restartAdapterDeployment ns)"
  by (auto simp: restartAdapterDeployment_def hub_ops Let_def map_put_def get_now_def
      intro!: within_update_deployment guarded_and_then [where p = "client_update c x" for c x]
      split: option.split sum.split)

lemma within_HubConfig_Reconcile: "guarded (within (hcr_operatorNamespace r)) E (HubConfig_Reconcile L r key)"
proof -
  let ?ns = "hcr_operatorNamespace r"
  have update: "guarded (within ?ns) E (ensureAdapterResource ar)" if "ar \<in> set (adapterResources ?ns)" for ar E
    using footprint_stack [OF that]
    by (auto simp: ensureAdapterResource_def ObjectKeyFromObject_def intro!: guarded_and_then within_put(2) split: sum.split)
  have ensure: "guarded (within ?ns) E (ensure_resources ars (ensureAdapterDeployment ?ns img))" if "set ars \<subseteq> set (adapterResources ?ns)" for ars img E
    using that footprint_stack [of _ ?ns]
    by (induction ars "ensureAdapterDeployment ?ns img" arbitrary: E rule: ensure_resources.induct)
      (auto intro!: guarded_and_then update within_put(1) split: option.split)
  have "obj_kind (ar_resource ar) \<noteq> KNamespace" if "ar \<in> set (teardown_resources ?ns)" for ar using that by (auto simp: teardown_resources_def)
  then have teardown: "guarded (within ?ns) E (delete_resources ars e)" if "set ars \<subseteq> set (teardown_resources ?ns)" for ars e E
    using that footprint_teardown [of _ ?ns]
    by (induction ars e arbitrary: E rule: delete_resources.induct) (auto intro!: guarded_and_then within_delete split: option.split)
  show ?thesis
    by (auto simp: HubConfig_Reconcile_def hubconfig_delete_def hubconfig_ensure_def ensureAdapterStack_def teardownAdapterStack_def hub_ops
        intro!: guarded_and_then ensure [OF subset_refl] teardown [OF subset_refl] split: sum.splits option.splits)
qed

subsection \<open>Spokes\<close>

lemma footprint_secrets:
  "footprint ns Hub KSecret (ObjectKey ns (StandingKubeconfigName n))" "footprint ns Hub KSecret (ObjectKey ns (AdapterCredentialName n))"
  by (simp_all add: footprint_def hub_footprint_def HasPrefix_def StandingKubeconfigName_def AdapterCredentialName_def)

lemma built_secret_keys:
  assumes "controller_references L"
  shows "BuildStandingKubeconfig L cfg sc url ns = Inr s \<Longrightarrow> okey (OSecret s) = ObjectKey ns (StandingKubeconfigName (sc_name sc))"
    "BuildAdapterCredentialSecret L sc u tk ex ca ns = Inr s \<Longrightarrow> okey (OSecret s) = ObjectKey ns (AdapterCredentialName (sc_name sc))"
proof -
  have "m_name m' = m_name m \<and> m_namespace m' = m_namespace m" if "lib_SetControllerReference L sc m = Inr m'" for m m'
    using controller_references.owner_frame [OF assms that, of "[]"] by (cases m; cases m') simp
  then show "BuildStandingKubeconfig L cfg sc url ns = Inr s \<Longrightarrow> okey (OSecret s) = ObjectKey ns (StandingKubeconfigName (sc_name sc))"
    "BuildAdapterCredentialSecret L sc u tk ex ca ns = Inr s \<Longrightarrow> okey (OSecret s) = ObjectKey ns (AdapterCredentialName (sc_name sc))"
    by (auto simp: BuildStandingKubeconfig_def BuildAdapterCredentialSecret_def ObjectKeyFromObject_def Let_def split: sum.splits)
qed

lemma within_update_secret:
  "resp_obj as_secret r = Inr s \<Longrightarrow> (Get Hub KSecret key, r) \<in> E \<Longrightarrow> footprint ns Hub KSecret key \<Longrightarrow>
    okey (OSecret s') = okey (OSecret s) \<Longrightarrow> within ns E (Update Hub (OSecret s'))"
  by (rule within_update_fetched [where x = "OSecret s"]) (auto simp: resp_obj_Inr)

lemma within_secrets:
  assumes "controller_references L"
  shows "guarded (within (sr_operatorNamespace r)) E (ensureStandingKubeconfig L r cfg sc)"
    "guarded (within (sr_operatorNamespace r)) E (ensureAdapterCredentialSecret L r sc url token expiry ca)"
proof -
  have k: "ObjectKey (m_namespace (s_meta s)) (m_name (s_meta s)) = okey (OSecret s)" for s by (simp add: ObjectKeyFromObject_def)
  have o: "okey (OSecret (s\<lparr>s_data := d, s_meta := (s_meta s)\<lparr>m_owners := ow\<rparr>\<rparr>)) = okey (OSecret s)" for s d ow
    by (simp add: ObjectKeyFromObject_def)
  show "guarded (within (sr_operatorNamespace r)) E (ensureStandingKubeconfig L r cfg sc)"
    by (auto simp: ensureStandingKubeconfig_def hub_ops Let_def k built_secret_keys(1) [OF assms] o footprint_secrets
        intro!: within_put(1) within_update_secret guarded_and_then [where p = "client_update c x" for c x] split: sum.split option.split)
  show "guarded (within (sr_operatorNamespace r)) E (ensureAdapterCredentialSecret L r sc url token expiry ca)"
    by (auto simp: ensureAdapterCredentialSecret_def hub_ops Let_def k built_secret_keys(2) [OF assms] o footprint_secrets
        intro!: within_put(1) within_update_secret guarded_and_then [where p = "client_update c x" for c x] split: sum.split option.split)
qed

lemma within_provisioner [simp]:
  "guarded (within ns) E (Provision (Spoke cfg))" "guarded (within ns) E (ProvisionAdapter (Spoke cfg))"
  "guarded (within ns) E (Deprovision (Spoke cfg))" "guarded (within ns) E (DeprovisionAdapter (Spoke cfg))"
proof -
  have create: "guarded (within ns) E (create_each (Spoke cfg) calls)" if "set calls \<subseteq> set (provision_calls @ provision_adapter_calls)" for calls
  proof (rule guarded_all_reqs [OF all_reqs_create_each])
    show "\<forall>(x, w) \<in> set calls. \<forall>E. within ns E (Create (Spoke cfg) x)"
      using that by (force simp: within_def footprint_def spoke_footprint_def)
  qed simp
  have delete: "guarded (within ns) E (delete_each (Spoke cfg) calls errs)"
    if "\<forall>(k, key) \<in> set calls. \<forall>k' key'. \<not> outside k key k' key' \<longrightarrow> spoke_footprint k' key'" for calls errs
  proof (rule guarded_all_reqs [OF all_reqs_delete_each])
    show "\<forall>(k, key) \<in> set calls. \<forall>E. within ns E (Delete (Spoke cfg) k key)"
      using that by (force simp: within_def footprint_def)
  qed simp
  show "guarded (within ns) E (Provision (Spoke cfg))" "guarded (within ns) E (ProvisionAdapter (Spoke cfg))"
    by (auto simp: provisioner_ops intro!: create)
  show "guarded (within ns) E (Deprovision (Spoke cfg))" "guarded (within ns) E (DeprovisionAdapter (Spoke cfg))"
    unfolding provisioner_ops
    by (rule delete, (auto simp: deprovision_calls_def deprovision_adapter_calls_def outside_def spoke_footprint_def provision_calls_def
        provision_adapter_calls_def crb_for_def adapter_rb_def ObjectKeyFromObject_def)[1])+
qed

lemma within_status [simp]:
  "guarded (within ns) E (patchStatus L sc)" "guarded (within ns) E (failWithCondition L sc ty rs e)"
  "guarded (within ns) E (handleConnectivityFailure L sc e)"
  by (auto simp: patchStatus_def failWithCondition_def handleConnectivityFailure_def hub_ops Let_def
      intro!: guarded_and_then split: sum.splits option.splits)

lemma within_label [simp]: "guarded (within (sr_operatorNamespace r)) E (label_and_restart r sc)"
  by (auto simp: label_and_restart_def ensureAdapterLabel_def hub_ops map_put_def Let_def intro!: guarded_and_then split: sum.splits option.splits)

context spoke_fields
begin

lemma within_adapters:
  assumes "controller_references L"
  shows "guarded (within (sr_operatorNamespace r)) E (reconcileAdapters L r sc (Spoke cfg) cfg')"
proof -
  have "guarded (within (sr_operatorNamespace r)) E (sr_RequestSAToken r cfg sa n)" for E cfg sa n
    by (rule guarded_all_reqs [OF token_requests(1)]) (metis within_neutral(1) within_reads)
  then have token: "guarded (within (sr_operatorNamespace r)) E (resolveAdapterToken r sc cfg')" for E
    by (auto simp: resolveAdapterToken_def readExistingTokenAndExpiry_def hub_ops Let_def intro!: guarded_and_then split: sum.splits option.splits)
  have ca: "read_only (readIngressCA (Spoke cfg))" by (auto simp: readIngressCA_def intro!: all_reqs_and_then split: sum.splits option.splits)
  show ?thesis unfolding reconcileAdapters_def
    by (auto intro!: guarded_and_then token within_secrets [OF assms] within_read_only [OF discover_reads(1)] within_read_only [OF ca] split: sum.splits option.splits)
qed

lemma within_manage:
  assumes "controller_references L"
  shows "guarded (within (sr_operatorNamespace r)) E (manage_spoke L r sc)"
proof -
  let ?ok = "within (sr_operatorNamespace r)"
  have finish: "guarded ?ok E (finish_adapters L r sc (Spoke cfg) cfg')" for E sc cfg cfg'
    by (auto simp: finish_adapters_def Let_def intro!: guarded_and_then within_adapters [OF assms] split: option.splits)
  have connect: "guarded ?ok E (connect_and_provision L r sc cfg)" for E sc cfg
    unfolding connect_and_provision_def Let_def
    by (auto intro!: guarded_and_then [OF within_read_only [OF connectivity_reads(1)]] guarded_seq [OF within_read_only [OF client_reads(1)]]
        guarded_and_then [OF within_provisioner(1)] finish split: option.splits sum.splits dest!: client_target)
  have load: "read_only (loadStandingKubeconfig L r sc)"
    by (auto simp: loadStandingKubeconfig_def hub_ops intro!: all_reqs_and_then split: sum.splits option.splits)
  show ?thesis unfolding manage_spoke_def Let_def
    by (auto intro!: guarded_and_then within_read_only [OF credential_source.source_read_only [OF source]] within_read_only [OF load]
        within_secrets [OF assms] connect split: option.splits sum.splits)
qed

lemma within_cleanup: "guarded (within (sr_operatorNamespace r)) E (cleanupSpokeResources L r sc)"
proof -
  have "guarded (within (sr_operatorNamespace r)) E (cleanup_spoke_side L r sc)" for E
    unfolding cleanup_spoke_side_def hub_ops
    by (auto intro!: guarded_seq [OF within_read_only [OF client_reads(1)]] guarded_and_then [OF within_provisioner(4)]
        guarded_and_then [OF within_provisioner(3)] split: option.splits sum.splits dest!: client_target)
  then show ?thesis
    by (auto simp: cleanupSpokeResources_def standing_key_def adapter_key_def intro!: guarded_and_then within_delete footprint_secrets)
qed

lemma within_Spoke_Reconcile:
  assumes "controller_references L"
  shows "guarded (within (sr_operatorNamespace r)) E (Spoke_Reconcile L r key)"
  by (auto simp: Spoke_Reconcile_def unmanageSpoke_def reconcileDelete_def hub_ops Let_def
      intro!: guarded_and_then within_manage [OF assms] within_cleanup split: option.splits sum.splits)

end

subsection \<open>Discovery and the health handler\<close>

lemma within_discovery: "discovery_ok opns E q \<Longrightarrow> within ns E q"
proof -
  assume ok: "discovery_ok opns E q"
  have f: "m_name (u_meta u) = k_name key" if "\<forall>ev \<in> E. honest ev" "fetched E g key u" for g key u
    using that by (force simp: fetched_def ObjectKeyFromObject_def)
  show ?thesis
  proof (cases q)
    case (Create c x)
    with ok show ?thesis
      by (cases x) (auto simp: create_ok_def within_def footprint_def hub_footprint_def ObjectKeyFromObject_def)
  next
    case (Update c x)
    with ok f show ?thesis
      by (cases x) (auto simp: update_ok_def within_def footprint_def hub_footprint_def ObjectKeyFromObject_def work_key_def)
  next
    case (Delete c k key)
    with ok f show ?thesis
      by (auto simp: delete_ok_def within_def footprint_def hub_footprint_def outside_def work_key_def msa_key_def ObjectKeyFromObject_def)
  qed (use ok in \<open>simp_all add: discovery_ok_def\<close>)
qed

lemma within_Mce_Reconcile: "guarded (within ns) {} (Mce_Reconcile L r)"
  by (rule guarded_weaken [OF guarded_Mce_Reconcile within_discovery])

lemma within_Health_Start: "guarded (within ns) E (Health_Start L (NewSpokeHealthHandler n interval) m)"
proof -
  have np: "all_reqs (\<lambda>q. is_write q \<longrightarrow> (\<exists>b sc. q = StatusPatch b sc)) p \<Longrightarrow> guarded (within ns) E p" for p :: "unit prog"
    by (erule guarded_all_reqs) (metis within_neutral(3) within_reads)
  let ?P = "\<lambda>q. is_write q \<longrightarrow> (\<exists>b sc. q = StatusPatch b sc)"
  let ?h = "NewSpokeHealthHandler n interval"
  have dial: "all_reqs ?P (defaultCheckConnectivity cfg)" for cfg by (rule all_reqs_mono [OF defaultCheckConnectivity_safe(1)]) simp
  have one: "all_reqs ?P (checkSpoke L ?h sc)" for sc
    by (auto simp: checkSpoke_def report_connected_def NewSpokeHealthHandler_def hub_ops Let_def intro!: all_reqs_and_then dial
        split: sum.splits option.splits prod.splits)
  have "all_reqs ?P (check_spokes L ?h scs)" for scs by (induction scs) (auto intro!: all_reqs_and_then one)
  then have round: "all_reqs ?P (CheckAll L ?h)" by (auto simp: CheckAll_def intro!: all_reqs_and_then split: sum.splits)
  have "all_reqs ?P (check_ticks L ?h m)" for m by (induction m) (auto intro!: all_reqs_and_then round)
  then show ?thesis by (intro np) (auto simp: Health_Start_def intro!: all_reqs_and_then round)
qed

section \<open>The operator leaves the rest of the clusters alone\<close>

definition discard :: "'a prog \<Rightarrow> unit prog" where
  "discard p = and_then p (\<lambda>_. Ret ())"

text \<open>
  What the manager starts: a reconcile of any SpokeCluster or HubConfig, an inventory before or after the watch on
  ManagedClusters was registered, the health handler with any number of ticks.
\<close>

definition operator_runs :: "k8s_lib \<Rightarrow> operator \<Rightarrow> unit prog set" where
  "operator_runs L op =
    range (\<lambda>key. discard (Spoke_Reconcile L (op_spoke op) key)) \<union>
    range (\<lambda>b. discard (Mce_Reconcile L ((op_discovery op)\<lparr>dr_watchRegistered := b\<rparr>))) \<union>
    range (\<lambda>key. discard (HubConfig_Reconcile L (op_hubconfig op) key)) \<union>
    range (\<lambda>n. discard (Health_Start L (op_health op) n))"

lemma within_operator_runs:
  assumes "controller_references L" and "main_setup L fl pod mgr = Inr op" and "p \<in> operator_runs L op"
  shows "guarded (within (sr_operatorNamespace (op_spoke op))) {} p"
proof -
  have d: "guarded ok E q \<Longrightarrow> guarded ok E (discard q)" for ok E and q :: "'a prog"
    unfolding discard_def by (rule guarded_and_then) simp_all
  from main_setup_Inr [OF assms(2)] obtain ns where "register_all L fl ns mgr = Inr op" by blast
  note op = register_all_Inr [OF this]
  then have ns: "sr_operatorNamespace (op_spoke op) = ns" "hcr_operatorNamespace (op_hubconfig op) = ns"
    by (simp_all add: NewHubConfigReconciler_def)
  have "guarded (within ns) {} (Spoke_Reconcile L (op_spoke op) key)" for key
    using spoke_fields.within_Spoke_Reconcile [OF spoke_fields_recorder [OF default_fields.spoke_fields_axioms] assms(1)] op ns(1) by metis
  moreover have "guarded (within ns) {} (HubConfig_Reconcile L (op_hubconfig op) key)" for key
    using within_HubConfig_Reconcile ns(2) by metis
  moreover have "guarded (within ns) {} (Health_Start L (op_health op) n)" for n using op by (simp add: within_Health_Start)
  ultimately show ?thesis
    using assms(3) unfolding operator_runs_def ns by (auto intro!: d within_Mce_Reconcile)
qed

text \<open>
  C1.  The operator leaves the rest of the clusters alone.  Let any number of its reconciles and health checks run at the same time, with their
  requests interleaved in any order and with any changes by others in between.  An object outside the operator's footprint
  that the others do not change is never changed: neither another Secret of the operator's own namespace, nor a workload, a role or
  a ManagedServiceAccount of someone else on the hub, nor anything on a spoke but what was provisioned there.
\<close>

theorem foreign_objects_untouched:
  assumes "isolated_server H store" and "controller_references L" and "main_setup L fl pod mgr = Inr op"
    and "\<not> footprint (sr_operatorNamespace (op_spoke op)) c k key"
    and "\<And>w w'. other w w' \<Longrightarrow> store w' c k key = store w c k key"
    and "steps H (operator_runs L op) other (w0, []) (w, ts)"
  shows "store w c k key = store w0 c k key"
  using assms(6)
proof (induction "(w, ts)" arbitrary: w ts rule: rtranclp_induct)
  case (step s)
  let ?ok = "within (sr_operatorNamespace (op_spoke op))"
  obtain w1 ts1 where s: "s = (w1, ts1)" by (cases s)
  with step have IH: "store w1 c k key = store w0 c k key" by blast
  have threads: "\<forall>th \<in> set ts1. thread_ok ?ok honest th"
  proof (rule steps_thread_ok [where A = honest])
    show "steps H (operator_runs L op) other (w0, []) (w1, ts1)" using step(1) s by simp
    show "honest (q, fst (H w q))" for w q by (rule api_server.answers_honest [OF isolated_server.axioms(1) [OF assms(1)]])
  qed (rule within_operator_runs [OF assms(2,3)])
  from step(2) [unfolded s] show ?case
  proof (cases rule: step.cases)
    case (issue i t q k' r)
    then have "thread_ok ?ok honest (t, Vis q k')" using threads nth_mem by metis
    then have "\<not> touches q c k key" using assms(4) by (auto simp: thread_ok_def within_def list_all_iff)
    with isolated_server.request_local [OF assms(1), of w1 q c k key] issue(4) IH show ?thesis by auto
  qed (use IH assms(5) in auto)
qed simp

text \<open>A hub with a Secret of the user beside the operator.\<close>

definition shared_hub :: cluster where
  "shared_hub = \<lparr>objects = [(Hub, OSecret \<lparr>s_meta = new_meta ''lightspeed'' ''mine'', s_data = []\<rparr>)], serial = 1, clock = 0\<rparr>"

theorem foreign_objects_untouched_witness:
  "\<exists>op w t p. main_setup ref_lib deployed_flags ''lightspeed'' willing_manager = Inr op \<and>
    steps ref_server (operator_runs ref_lib op) (\<lambda>w w'. False) (shared_hub, []) (w, [(t, p)]) \<and> t \<noteq> [] \<and>
    ref_store w Hub KSecret (ObjectKey ''lightspeed'' ''mine'') = ref_store shared_hub Hub KSecret (ObjectKey ''lightspeed'' ''mine'')"
proof -
  obtain op where op: "main_setup ref_lib deployed_flags ''lightspeed'' willing_manager = Inr op" using deployed_operator by blast
  let ?run = "discard (HubConfig_Reconcile ref_lib (op_hubconfig op) (ObjectKey [] ''cluster''))"
  obtain q k where v: "?run = Vis q k"
    by (simp add: discard_def HubConfig_Reconcile_def get_hubconfig_def client_get_def)
  obtain r w where h: "ref_server shared_hub q = (r, w)" by (cases "ref_server shared_hub q")
  have "?run \<in> operator_runs ref_lib op" by (auto simp: operator_runs_def)
  then have "step ref_server (operator_runs ref_lib op) (\<lambda>w w'. False) (shared_hub, []) (shared_hub, [([], ?run)])"
    using step.begin_run [of ?run "operator_runs ref_lib op" ref_server "\<lambda>w w'. False" shared_hub "[]"] by simp
  moreover have "step ref_server (operator_runs ref_lib op) (\<lambda>w w'. False) (shared_hub, [([], ?run)]) (w, [([(q, r)], k r)])"
    using step.issue [of 0 "[([], ?run)]" "[]" q k ref_server shared_hub r w "operator_runs ref_lib op" "\<lambda>w w'. False"] v h by simp
  ultimately have s: "steps ref_server (operator_runs ref_lib op) (\<lambda>w w'. False) (shared_hub, []) (w, [([(q, r)], k r)])"
    by (meson rtranclp.rtrancl_into_rtrancl rtranclp.rtrancl_refl)
  have "sr_operatorNamespace (op_spoke op) = ''lightspeed''"
    using op by (auto simp: main_setup_def deployed_flags_def default_flags_def willing_manager_def operator_namespace_def hub_consts
        dest!: register_all_Inr split: if_splits)
  then have "\<not> footprint (sr_operatorNamespace (op_spoke op)) Hub KSecret (ObjectKey ''lightspeed'' ''mine'')"
    by (auto simp: footprint_def hub_footprint_def HasPrefix_def hub_consts teardown_resources_def)
  from foreign_objects_untouched [OF ref_isolated.isolated_server_axioms ref_library.controller_references_axioms op this _ s] op s
  show ?thesis by blast
qed

end
