(* ===== verification/Progress.thy ===== *)
theory Progress
  imports Concurrency
begin

text \<open>
  What the operator brings about on a documented hub, whatever happens to the spokes: a SpokeCluster that is being deleted goes away.
\<close>

section \<open>A hub whose spokes may fail\<close>

text \<open>
  What a deletion relies on of the hub: reading, deleting, and the update that removes the last finalizer, as documented.  Nothing at all is
  assumed of the answers to the requests that go to a spoke, nor of what they do to it: it may be out of reach, refuse
  requests, or fail half way.  They only cannot change the objects of the hub.
\<close>

locale hub_server =
  fixes H :: "'w \<Rightarrow> req \<Rightarrow> resp \<times> 'w"
    and store :: "'w \<Rightarrow> store"
  assumes hub_wf: "store w Hub k key = Some x \<Longrightarrow> obj_kind x = k \<and> okey x = key"
    and hub_get: "store w Hub k key = Some x \<Longrightarrow> \<exists>w'. H w (Get Hub k key) = (RObj x, w') \<and> store w' = store w"
    and hub_delete: "deleted (store (snd (H w (Delete Hub k key))) Hub k key)"
    and hub_last_finalizer: "store w Hub (obj_kind x) (okey x) = Some y \<Longrightarrow>
      m_version (obj_meta x) \<in> {[], m_version (obj_meta y)} \<Longrightarrow>
      m_deletion (obj_meta y) \<noteq> None \<Longrightarrow> m_finalizers (obj_meta x) = [] \<Longrightarrow> immutable_kept y x \<Longrightarrow>
      resp_error (fst (H w (Update Hub x))) = None \<and> store (snd (H w (Update Hub x))) Hub (obj_kind x) (okey x) = None"
    and hub_local: "store (snd (H w q)) Hub k key \<noteq> store w Hub k key \<Longrightarrow> touches q Hub k key"
begin

lemma run_keeps:
  "all_reqs (\<lambda>q. \<not> touches q Hub k key) p \<Longrightarrow> store (snd (run H p w)) Hub k key = store w Hub k key"
proof (induction p arbitrary: w)
  case (Vis q f)
  obtain r w1 where h: "H w q = (r, w1)" by (cases "H w q")
  have "store w1 Hub k key = store w Hub k key" using hub_local [of w q k key] Vis.prems h by auto
  moreover have "store (snd (run H (f r) w1)) Hub k key = store w1 Hub k key"
    by (rule Vis.IH [OF rangeI]) (use Vis.prems in simp)
  ultimately show ?case by (simp add: h)
qed simp_all

lemma run_done:
  assumes "never_panics p"
  obtains x w' where "run H p w = (Done x, w')" "\<And>k key. all_reqs (\<lambda>q. \<not> touches q Hub k key) p \<Longrightarrow> store w' Hub k key = store w Hub k key"
  using never_panics_run [OF assms, of H w] run_keeps by (metis snd_conv)

lemma run_hub_delete:
  assumes "k \<noteq> KNamespace"
  obtains e w' where "run H (client_delete Hub k key) w = (Done e, w')" "deleted (store w' Hub k key)"
    "\<And>k' key'. (k', key') \<noteq> (k, key) \<Longrightarrow> store w' Hub k' key' = store w Hub k' key'"
proof -
  obtain r w' where h: "H w (Delete Hub k key) = (r, w')" by (cases "H w (Delete Hub k key)")
  show thesis
  proof (rule that [of "resp_error r" w'])
    show "run H (client_delete Hub k key) w = (Done (resp_error r), w')" by (simp add: client_delete_def h)
    show "deleted (store w' Hub k key)" using hub_delete [of w k key] by (simp add: h)
    fix k' key'
    assume other: "(k', key') \<noteq> (k, key)"
    show "store w' Hub k' key' = store w Hub k' key'"
    proof (rule ccontr)
      assume "store w' Hub k' key' \<noteq> store w Hub k' key'"
      then have "touches (Delete Hub k key) Hub k' key'" by (intro hub_local [of w]) (simp add: h)
      with other assms show False by (simp add: outside_def)
    qed
  qed
qed

end

sublocale isolated_server \<subseteq> hub_server H store
proof
  fix w k key
  show "deleted (store (snd (H w (Delete Hub k key))) Hub k key)"
  proof (cases "store w Hub k key")
    case None
    from delete_missing [OF None] None show ?thesis by auto
  next
    case (Some x)
    from delete_present [OF Some] show ?thesis by auto
  qed
next
  fix w x y
  assume "store w Hub (obj_kind x) (okey x) = Some y" "m_version (obj_meta x) \<in> {[], m_version (obj_meta y)}"
    "m_deletion (obj_meta y) \<noteq> None" "m_finalizers (obj_meta x) = []" "immutable_kept y x"
  from update_last_finalizer [OF this] show "resp_error (fst (H w (Update Hub x))) = None \<and>
      store (snd (H w (Update Hub x))) Hub (obj_kind x) (okey x) = None"
    by auto
qed (fact store_wf get_found request_local)+

text \<open>A hub that cannot reach any of its spokes: every request to one times out.\<close>

definition to_spoke :: "req \<Rightarrow> bool" where
  "to_spoke q = (case q of
     Get (Spoke cfg) k key \<Rightarrow> True | Create (Spoke cfg) x \<Rightarrow> True | Update (Spoke cfg) x \<Rightarrow> True | Delete (Spoke cfg) k key \<Rightarrow> True
   | ServerVersion cfg \<Rightarrow> True | CreateToken cfg ns sa n \<Rightarrow> True | _ \<Rightarrow> False)"

definition offline_server :: "cluster \<Rightarrow> req \<Rightarrow> resp \<times> cluster" where
  "offline_server w q = (if to_spoke q then (server_error OtherReason ''i/o timeout'', w) else ref_server w q)"

lemma offline_hub [simp]:
  "offline_server w (Get Hub k key) = ref_server w (Get Hub k key)"
  "offline_server w (Update Hub x) = ref_server w (Update Hub x)"
  "offline_server w (Delete Hub k key) = ref_server w (Delete Hub k key)"
  by (simp_all add: offline_server_def to_spoke_def)

interpretation offline: hub_server offline_server ref_store
proof
  fix w q k key
  assume "ref_store (snd (offline_server w q)) Hub k key \<noteq> ref_store w Hub k key"
  then show "touches q Hub k key"
    by (intro ref_isolated.request_local [of w q]) (simp add: offline_server_def split: if_splits)
qed (simp_all add: ref_isolated.hub_delete ref_isolated.hub_last_finalizer ref_isolated.hub_get ref_isolated.hub_wf)

section \<open>What a run leaves as it is\<close>

lemma touches_reads [simp]: "\<not> is_write q \<Longrightarrow> \<not> touches q c k key"
  by (cases q) simp_all

lemma keeps_read_only: "read_only p \<Longrightarrow> all_reqs (\<lambda>q. \<not> touches q c k key) p"
  by (erule all_reqs_mono) simp

text \<open>The cleanup of a spoke changes, on the hub, its two Secrets and the adapter, but no SpokeCluster.\<close>

lemma keeps_restart: "k \<noteq> KDeployment \<Longrightarrow> all_reqs (\<lambda>q. \<not> touches q c k key) (restartAdapterDeployment ns)"
  by (rule all_reqs_restart) simp_all

lemma keeps_spoke_side:
  assumes "spoke_fields r"
  shows "all_reqs (\<lambda>q. \<not> touches q Hub k key) (cleanup_spoke_side L r sc)"
proof -
  have gone: "all_reqs (\<lambda>q. \<not> touches q Hub k key) (DeprovisionAdapter (Spoke cfg))"
    "all_reqs (\<lambda>q. \<not> touches q Hub k key) (Deprovision (Spoke cfg))" for cfg
    by (auto simp: DeprovisionAdapter_def Deprovision_def intro!: all_reqs_delete_each)
  show ?thesis unfolding cleanup_spoke_side_def hub_ops
    by (auto intro!: all_reqs_and_then [where p = "client_get c k dec key" for c k dec key] all_reqs_and_then [OF gone(1)] all_reqs_and_then [OF gone(2)]
        all_reqs_seq [OF keeps_read_only [OF spoke_fields.client_reads(1) [OF assms]]]
        dest!: spoke_fields.client_target [OF assms] split: sum.splits option.splits)
qed

section \<open>A SpokeCluster that is deleted goes away\<close>

lemma keys_differ: "standing_key r sc \<noteq> adapter_key r sc"
  by (simp add: standing_key_def adapter_key_def StandingKubeconfigName_def AdapterCredentialName_def hub_consts)

context hub_server
begin

lemma run_cleanup:
  assumes "spoke_fields r"
  shows "\<exists>w'. run H (cleanupSpokeResources L r sc) w = (Done (), w') \<and>
    deleted (store w' Hub KSecret (standing_key r sc)) \<and> deleted (store w' Hub KSecret (adapter_key r sc)) \<and>
    (\<forall>key. store w' Hub KSpokeCluster key = store w Hub KSpokeCluster key)"
proof -
  let ?event = "\<lambda>failed. if failed \<and> sr_recorder r
      then Vis (Eventf (sc_name sc) ''Warning'' ''SpokeCleanupFailed''
        ''Spoke-side cleanup failed (check operator logs for details); hub-side cleanup proceeded'') (\<lambda>_. Ret ())
      else Ret ()"
  have np: "never_panics (cleanup_spoke_side L r sc)"
    using spoke_fields.client_reads(2) [OF assms]
    by (auto simp: cleanup_spoke_side_def DeprovisionAdapter_def Deprovision_def hub_ops intro!: never_panics_and_then split: sum.splits option.splits)
  obtain failed w1 where 1: "run H (cleanup_spoke_side L r sc) w = (Done failed, w1)"
      "\<And>key. store w1 Hub KSpokeCluster key = store w Hub KSpokeCluster key"
    by (rule run_done [OF np, of w]) (use keeps_spoke_side [OF assms] in blast)
  obtain w2 where 2: "run H (?event failed) w1 = (Done (), w2)" "\<And>key. store w2 Hub KSpokeCluster key = store w1 Hub KSpokeCluster key"
    by (rule run_done [of "?event failed" w1]) auto
  obtain e3 w3 where 3: "run H (client_delete Hub KSecret (standing_key r sc)) w2 = (Done e3, w3)"
      "deleted (store w3 Hub KSecret (standing_key r sc))" "\<And>key. store w3 Hub KSpokeCluster key = store w2 Hub KSpokeCluster key"
    by (rule run_hub_delete [of KSecret "standing_key r sc" w2]) simp_all
  obtain e4 w4 where 4: "run H (client_delete Hub KSecret (adapter_key r sc)) w3 = (Done e4, w4)"
      "deleted (store w4 Hub KSecret (adapter_key r sc))" "\<And>key. store w4 Hub KSpokeCluster key = store w3 Hub KSpokeCluster key"
      "store w4 Hub KSecret (standing_key r sc) = store w3 Hub KSecret (standing_key r sc)"
    by (rule run_hub_delete [of KSecret "adapter_key r sc" w3]) (use keys_differ in simp_all)
  obtain e5 w5 where 5: "run H (restartAdapterDeployment (sr_operatorNamespace r)) w4 = (Done e5, w5)"
      "\<And>k key. k \<noteq> KDeployment \<Longrightarrow> store w5 Hub k key = store w4 Hub k key"
    by (rule run_done [OF never_panics_restart, of "sr_operatorNamespace r" w4]) (use keeps_restart in blast)
  have "run H (cleanupSpokeResources L r sc) w = (Done (), w5)"
    by (simp add: cleanupSpokeResources_def run_and_then 1(1) 2(1) 3(1) 4(1) 5(1))
  then show ?thesis using 1(2) 2(2) 3(2,3) 4(2-4) 5(2) by simp
qed

end

text \<open>
  C9.  A SpokeCluster that is being deleted goes away.  When the finalizer of the operator is the last one, a single reconcile
  succeeds and afterwards the SpokeCluster is gone and its two Secrets are deleted, whatever the spoke answers, since nothing is assumed of the answers
  to requests that go to a spoke: a spoke that cannot be reached or refuses the deletes, a kubeconfig that is missing or damaged, a failed
  restart of the adapter do not hold it up.
\<close>

theorem deleted_spoke_goes_away:
  assumes "hub_server H store" and "finalizers L" and "spoke_fields r"
    and "store w Hub KSpokeCluster key = Some (OSpokeCluster sc)"
    and "\<not> IsZero (m_deletion (sc_meta sc))" and "set (m_finalizers (sc_meta sc)) = {spokeClusterFinalizer}"
  shows "\<exists>w'. run H (Spoke_Reconcile L r key) w = (Done (no_requeue, None), w') \<and>
    store w' Hub KSpokeCluster key = None \<and>
    deleted (store w' Hub KSecret (standing_key r sc)) \<and> deleted (store w' Hub KSecret (adapter_key r sc))"
proof -
  let ?m = "lib_RemoveFinalizer L (sc_meta sc) spokeClusterFinalizer"
  let ?new = "OSpokeCluster (sc\<lparr>sc_meta := ?m\<rparr>)"
  have frame: "?m\<lparr>m_finalizers := []\<rparr> = (sc_meta sc)\<lparr>m_finalizers := []\<rparr>" by (rule finalizers.remove_finalizer_frame [OF assms(2)])
  have none: "m_finalizers ?m = []" using finalizers.remove_finalizer [OF assms(2), of "sc_meta sc" spokeClusterFinalizer] assms(6) by simp
  have same: "m_name ?m = m_name (sc_meta sc)" "m_namespace ?m = m_namespace (sc_meta sc)" "m_version ?m = m_version (sc_meta sc)"
    using frame by (cases ?m; cases "sc_meta sc"; simp)+
  have key: "okey ?new = key"
    using hub_server.hub_wf [OF assms(1,4)] same by (simp add: ObjectKeyFromObject_def)
  obtain w1 where get: "H w (Get Hub KSpokeCluster key) = (RObj (OSpokeCluster sc), w1)" "store w1 = store w"
    using hub_server.hub_get [OF assms(1,4)] by blast
  obtain w2 where cleanup: "run H (cleanupSpokeResources L r sc) w1 = (Done (), w2)"
      "deleted (store w2 Hub KSecret (standing_key r sc))" "deleted (store w2 Hub KSecret (adapter_key r sc))"
      "store w2 Hub KSpokeCluster key = Some (OSpokeCluster sc)"
    using hub_server.run_cleanup [OF assms(1,3), of L sc w1] get(2) assms(4) by auto
  have del: "m_deletion (sc_meta sc) \<noteq> None" using assms(5) by (cases "m_deletion (sc_meta sc)") (simp_all add: IsZero_def)
  obtain a w3 where update: "H w2 (Update Hub ?new) = (a, w3)" "resp_error a = None"
      "store w3 Hub KSpokeCluster key = None"
    using hub_server.hub_last_finalizer [OF assms(1), of w2 ?new "OSpokeCluster sc"] cleanup(4) del same none key
    by (cases "H w2 (Update Hub ?new)") auto
  have secrets: "store w3 Hub KSecret key' = store w2 Hub KSecret key'" for key'
    using hub_server.hub_local [OF assms(1), of w2 "Update Hub ?new" KSecret key'] update(1) by auto
  have "run H (Spoke_Reconcile L r key) w = (Done (no_requeue, None), w3)"
    using update(2) assms(5,6)
    by (auto simp: Spoke_Reconcile_def reconcileDelete_def hub_ops client_get_def client_update_def run_and_then get cleanup(1) update(1)
        finalizers.contains_finalizer [OF assms(2)] resp_obj_def resp_error_None split: resp.splits)
  with update(3) cleanup(2,3) show ?thesis by (simp add: secrets)
qed

text \<open>A hub with a SpokeCluster that is being deleted and its standing kubeconfig; the spoke is out of reach, so that its cleanup fails.\<close>

definition leaving_hub :: cluster where
  "leaving_hub = \<lparr>objects = [(Hub, OSpokeCluster deleted_spoke), (Hub, OSecret standing_secret)], serial = 2, clock = 0\<rparr>"

lemma offline_cleanup_fails:
  "\<exists>w'. run offline_server (cleanup_spoke_side ref_lib fixed_reconciler deleted_spoke) leaving_hub = (Done True, w')"
proof -
  have "\<exists>cfg. ref_RESTConfig standing_bytes = Inr cfg"
    by (simp add: standing_bytes_def ref_RESTConfig_def ref_Write_def ref_wf_config_def buildKubeconfigAPI_def ref_load_def client_config_def Let_def)
  then obtain cfg where cfg: "ref_RESTConfig standing_bytes = Inr cfg" ..
  have key: "standing_key fixed_reconciler deleted_spoke = ObjectKey ''hub'' ''spoke-kubeconfig-edge''"
    by (simp add: standing_key_def StandingKubeconfigName_def deleted_spoke_def finalized_spoke_def edge_spoke_def hub_consts)
  have get: "ref_server leaving_hub (Get Hub KSecret (ObjectKey ''hub'' ''spoke-kubeconfig-edge'')) =
      (RObj (OSecret standing_secret), leaving_hub)"
    by (simp add: ref_server_def leaving_hub_def lookup_def standing_secret_def ObjectKeyFromObject_def)
  have client: "ref_server w (NewClient c) = (ROk, w)" for w c by (simp add: ref_server_def)
  show ?thesis
    by (simp add: cleanup_spoke_side_def key hub_ops client errors_Join_def deprovision_adapter_calls_def deprovision_calls_def client_get_def get run_and_then standing_secret_def cfg defaultNewSpokeClient_def
        DeprovisionAdapter_def Deprovision_def client_delete_def offline_server_def to_spoke_def server_error_def)
qed

theorem deleted_spoke_goes_away_witness:
  "(\<exists>w'. run offline_server (cleanup_spoke_side ref_lib fixed_reconciler deleted_spoke) leaving_hub = (Done True, w')) \<and>
   (\<exists>w'. run offline_server (Spoke_Reconcile ref_lib fixed_reconciler (ObjectKey [] ''edge'')) leaving_hub = (Done (no_requeue, None), w') \<and>
    ref_store w' Hub KSpokeCluster (ObjectKey [] ''edge'') = None \<and>
    deleted (ref_store w' Hub KSecret (ObjectKey ''hub'' (StandingKubeconfigName ''edge''))) \<and>
    deleted (ref_store w' Hub KSecret (ObjectKey ''hub'' (AdapterCredentialName ''edge''))))"
proof (rule conjI [OF offline_cleanup_fails])
  have "okey (OSpokeCluster deleted_spoke) = ObjectKey [] ''edge''"
    by (simp add: deleted_spoke_def finalized_spoke_def edge_spoke_def ObjectKeyFromObject_def)
  then have s: "ref_store leaving_hub Hub KSpokeCluster (ObjectKey [] ''edge'') = Some (OSpokeCluster deleted_spoke)"
    by (simp add: leaving_hub_def lookup_def)
  show "\<exists>w'. run offline_server (Spoke_Reconcile ref_lib fixed_reconciler (ObjectKey [] ''edge'')) leaving_hub = (Done (no_requeue, None), w') \<and>
    ref_store w' Hub KSpokeCluster (ObjectKey [] ''edge'') = None \<and>
    deleted (ref_store w' Hub KSecret (ObjectKey ''hub'' (StandingKubeconfigName ''edge''))) \<and>
    deleted (ref_store w' Hub KSecret (ObjectKey ''hub'' (AdapterCredentialName ''edge'')))"
    using deleted_spoke_goes_away [OF offline.hub_server_axioms ref_library.finalizers_axioms spoke_fields_fixed s]
    by (simp add: standing_key_def adapter_key_def)
qed

end
