(* ===== verification/Deep_Copy.thy ===== *)
theory Deep_Copy
  imports Ref_Library "HOL-Library.Monad_Syntax"
begin

text \<open>
  \<^verbatim>\<open>api/v1alpha1/zz_generated.deepcopy.go\<close>.  The other theories treat API objects as values; here they are structs in a memory
  with pointers, slices and maps, as in Go, and the generated functions are shown to make copies that share nothing
  with their originals.  This is what lets the rest of the development read \<open>base := sc.DeepCopy()\<close> as the value of \<open>sc\<close> at that time.

  A memory is a list of cells, an address is an index, allocation appends a cell.  Types that begin with \<open>p_\<close> are the structs of
  the source with their pointers; \<open>read_\<close> functions give the value that such a struct represents, or \<open>None\<close> for a pointer to
  nothing or to a cell of another type, which Go rules out.  A \<open>DeepCopyInto(out)\<close> takes the struct \<open>*in\<close> and returns the contents of \<open>*out\<close>: its first
  statement overwrites \<open>*out\<close>, and nothing reads \<open>*out\<close> before it is complete.
\<close>

section \<open>Memory\<close>

type_synonym addr = nat

text \<open>A slice that is not nil: its array, and the part of the array that it shows.\<close>

record go_slice =
  sl_array :: addr
  sl_offset :: nat
  sl_len :: nat

record type_meta =
  tm_kind :: string
  tm_apiVersion :: string

record p_object_meta =
  pm_name :: string
  pm_namespace :: string
  pm_labels :: "addr option"
  pm_finalizers :: "go_slice option"
  pm_owners :: "go_slice option"
  pm_deletion :: "addr option"
  pm_generation :: int
  pm_version :: string
  pm_uid :: string

record p_list_meta =
  plm_version :: string
  plm_continue :: string
  plm_remaining :: "addr option"

record p_credential_source =
  pcs_secret :: "addr option"
  pcs_mce :: "addr option"

record p_spokecluster_spec =
  psp_apiServer :: string
  psp_credentialSource :: p_credential_source

record p_spokecluster_status =
  pst_conditions :: "go_slice option"

record p_spokecluster =
  psc_type :: type_meta
  psc_meta :: p_object_meta
  psc_spec :: p_spokecluster_spec
  psc_status :: p_spokecluster_status

record p_spokecluster_list =
  psl_type :: type_meta
  psl_meta :: p_list_meta
  psl_items :: "go_slice option"

record p_mce_selector =
  pms_matchLabels :: "addr option"

record p_mce_config =
  pmc_selector :: "addr option"

record p_hubconfig_spec =
  phs_mode :: string
  phs_mce :: "addr option"

type_synonym p_hubconfig_status = unit

record p_hubconfig =
  phc_type :: type_meta
  phc_meta :: p_object_meta
  phc_spec :: p_hubconfig_spec
  phc_status :: p_hubconfig_status

record p_hubconfig_list =
  phl_type :: type_meta
  phl_meta :: p_list_meta
  phl_items :: "go_slice option"

text \<open>What a cell holds: a struct or number behind a pointer, the array behind a slice, or a map.\<close>

datatype cell =
    CSecret (at_secret: secret_credential_source)
  | CMce (at_mce: mce_credential_source)
  | CCredential (at_credential: p_credential_source)
  | CSpokeSpec (at_spokespec: p_spokecluster_spec)
  | CSpokeStatus (at_spokestatus: p_spokecluster_status)
  | CSpoke (at_spoke: p_spokecluster)
  | CSpokeList (at_spokelist: p_spokecluster_list)
  | CSelector (at_selector: p_mce_selector)
  | CConfig (at_config: p_mce_config)
  | CHubSpec (at_hubspec: p_hubconfig_spec)
  | CHubStatus (at_hubstatus: p_hubconfig_status)
  | CHub (at_hub: p_hubconfig)
  | CHubList (at_hublist: p_hubconfig_list)
  | CMap (at_map: "string go_map")
  | CConditions (at_conditions: "condition list")
  | CSpokes (at_spokes: "p_spokecluster list")
  | CHubs (at_hubs: "p_hubconfig list")
  | CStrings (at_strings: "string list")
  | COwners (at_owners: "owner_reference list")
  | CTime (at_time: time)
  | CInt (at_int: int)

type_synonym memory = "cell list"

text \<open>
  Reading through a pointer, with the constructor and the selector of the type of cell the pointer is for.  \<open>alloc\<close> is \<open>new\<close> or \<open>make\<close>.
\<close>

definition load :: "('a \<Rightarrow> cell) \<Rightarrow> (cell \<Rightarrow> 'a) \<Rightarrow> memory \<Rightarrow> addr \<Rightarrow> 'a option" where
  "load mk at h a = (if a < length h \<and> mk (at (h ! a)) = h ! a then Some (at (h ! a)) else None)"

definition alloc :: "cell \<Rightarrow> memory \<Rightarrow> addr \<times> memory" where
  "alloc c h = (length h, h @ [c])"

definition store :: "addr \<Rightarrow> cell \<Rightarrow> memory \<Rightarrow> memory" where
  "store a c h = h[a := c]"

definition load_elem :: "('a list \<Rightarrow> cell) \<Rightarrow> (cell \<Rightarrow> 'a list) \<Rightarrow> memory \<Rightarrow> go_slice \<Rightarrow> nat \<Rightarrow> 'a option" where
  "load_elem mk at h s i = do {
     xs \<leftarrow> load mk at h (sl_array s);
     if i < sl_len s \<and> sl_offset s + i < length xs then Some (xs ! (sl_offset s + i)) else None }"

definition store_elem :: "('a list \<Rightarrow> cell) \<Rightarrow> (cell \<Rightarrow> 'a list) \<Rightarrow> addr \<Rightarrow> nat \<Rightarrow> 'a \<Rightarrow> memory \<Rightarrow> memory option" where
  "store_elem mk at a i y h = do {
     ys \<leftarrow> load mk at h a;
     if i < length ys then Some (store a (mk (ys[i := y])) h) else None }"

text \<open>\<open>h\<close> and \<open>g\<close> have the same cells at \<open>n\<close> and above, as far as \<open>h\<close> goes.\<close>

definition agree :: "nat \<Rightarrow> memory \<Rightarrow> memory \<Rightarrow> bool" where
  "agree n h g \<longleftrightarrow> length h \<le> length g \<and> (\<forall>a. n \<le> a \<and> a < length h \<longrightarrow> g ! a = h ! a)"

lemma agree_refl [simp]: "agree n h h"
  by (simp add: agree_def)

lemma agree_trans: "agree n h h1 \<Longrightarrow> agree n h1 g \<Longrightarrow> agree n h g"
  by (auto simp: agree_def)

lemma agree_mono: "agree n h g \<Longrightarrow> n \<le> m \<Longrightarrow> agree m h g"
  by (auto simp: agree_def)

lemma agree_length: "agree n h g \<Longrightarrow> length h \<le> length g"
  by (simp add: agree_def)

lemma agree_before: "agree 0 h h1 \<Longrightarrow> agree n h1 g \<Longrightarrow> agree n h g"
  by (rule agree_trans [OF agree_mono]) auto

lemma agree_alloc: "agree 0 h (h @ [c])"
  by (auto simp: agree_def nth_append)

lemma agree_nth: "agree n h g \<Longrightarrow> n \<le> a \<Longrightarrow> a < length h \<Longrightarrow> g ! a = h ! a"
  by (simp add: agree_def)

lemma load_agree: "load mk at h a = Some x \<Longrightarrow> agree n h g \<Longrightarrow> n \<le> a \<Longrightarrow> load mk at g a = Some x"
  by (auto simp: load_def agree_def split: if_splits)

lemma load_mk: "a < length h \<Longrightarrow> h ! a = mk x \<Longrightarrow> (\<And>y. at (mk y) = y) \<Longrightarrow> load mk at h a = Some x"
  by (simp add: load_def)

lemma load_lt: "load mk at h a = Some x \<Longrightarrow> a < length h"
  by (auto simp: load_def split: if_splits)

section \<open>The statements of the generated code\<close>

text \<open>\<open>*out = new(T)\<close> followed by \<open>(*in).DeepCopyInto(*out)\<close>, or by \<open>**out = **in\<close>.\<close>

definition new_copy :: "('a \<Rightarrow> cell) \<Rightarrow> 'a \<Rightarrow> ('a \<Rightarrow> memory \<Rightarrow> ('a \<times> memory) option) \<Rightarrow> 'a \<Rightarrow> memory \<Rightarrow> (addr \<times> memory) option" where
  "new_copy mk zero into x h =
     (let (a, h1) = alloc (mk zero) h in do {
        (y, h2) \<leftarrow> into x h1;
        Some (a, store a (mk y) h2) })"

text \<open>The copy of a pointer field: \<open>if in.F != nil\<close> and a new struct for it.\<close>

definition copy_field :: "('a \<Rightarrow> cell) \<Rightarrow> (cell \<Rightarrow> 'a) \<Rightarrow> 'a \<Rightarrow> ('a \<Rightarrow> memory \<Rightarrow> ('a \<times> memory) option) \<Rightarrow>
    addr option \<Rightarrow> memory \<Rightarrow> (addr option \<times> memory) option" where
  "copy_field mk at zero into p h =
     (case p of
        None \<Rightarrow> Some (None, h)
      | Some a \<Rightarrow> do {
          x \<leftarrow> load mk at h a;
          (b, h1) \<leftarrow> new_copy mk zero into x h;
          Some (Some b, h1) })"

text \<open>A \<open>DeepCopy()\<close> method: nil for a nil receiver, otherwise a new struct.  The receiver is nil or the struct it points to.\<close>

definition copy_struct :: "('a \<Rightarrow> cell) \<Rightarrow> 'a \<Rightarrow> ('a \<Rightarrow> memory \<Rightarrow> ('a \<times> memory) option) \<Rightarrow>
    'a option \<Rightarrow> memory \<Rightarrow> (addr option \<times> memory) option" where
  "copy_struct mk zero into receiver h =
     (case receiver of
        None \<Rightarrow> Some (None, h)
      | Some x \<Rightarrow> do {
          (a, h1) \<leftarrow> new_copy mk zero into x h;
          Some (Some a, h1) })"

text \<open>\<open>for i := range *in { (*in)[i].DeepCopyInto(&(*out)[i]) }\<close>, into the array \<open>a\<close>.\<close>

fun copy_elems :: "('a list \<Rightarrow> cell) \<Rightarrow> (cell \<Rightarrow> 'a list) \<Rightarrow> ('a \<Rightarrow> memory \<Rightarrow> ('a \<times> memory) option) \<Rightarrow>
    go_slice \<Rightarrow> addr \<Rightarrow> nat list \<Rightarrow> memory \<Rightarrow> memory option" where
  "copy_elems mk at into s a [] h = Some h"
| "copy_elems mk at into s a (i # is) h = do {
     x \<leftarrow> load_elem mk at h s i;
     (y, h1) \<leftarrow> into x h;
     h2 \<leftarrow> store_elem mk at a i y h1;
     copy_elems mk at into s a is h2 }"

definition copy_slice :: "('a list \<Rightarrow> cell) \<Rightarrow> (cell \<Rightarrow> 'a list) \<Rightarrow> 'a \<Rightarrow> ('a \<Rightarrow> memory \<Rightarrow> ('a \<times> memory) option) \<Rightarrow>
    go_slice option \<Rightarrow> memory \<Rightarrow> (go_slice option \<times> memory) option" where
  "copy_slice mk at zero into p h =
     (case p of
        None \<Rightarrow> Some (None, h)
      | Some s \<Rightarrow>
          (let (a, h1) = alloc (mk (replicate (sl_len s) zero)) h in do {
             h2 \<leftarrow> copy_elems mk at into s a [0..<sl_len s] h1;
             Some (Some \<lparr>sl_array = a, sl_offset = 0, sl_len = sl_len s\<rparr>, h2) }))"

text \<open>\<open>for key, val := range *in { (*out)[key] = val }\<close>, into the map at \<open>a\<close>.\<close>

fun copy_entries :: "addr \<Rightarrow> (string \<times> string) list \<Rightarrow> memory \<Rightarrow> memory option" where
  "copy_entries a [] h = Some h"
| "copy_entries a ((key, val) # kvs) h = do {
     m \<leftarrow> load CMap at_map h a;
     copy_entries a kvs (store a (CMap (AList.update key val m)) h) }"

definition copy_map :: "k8s_lib \<Rightarrow> addr option \<Rightarrow> memory \<Rightarrow> (addr option \<times> memory) option" where
  "copy_map L p h =
     (case p of
        None \<Rightarrow> Some (None, h)
      | Some b \<Rightarrow>
          (let (a, h1) = alloc (CMap []) h in do {
             m \<leftarrow> load CMap at_map h1 b;
             h2 \<leftarrow> copy_entries a (range_map L 5 m) h1;
             Some (Some a, h2) }))"

section \<open>What a deep copy promises\<close>

text \<open>
  \<open>rdi\<close> reads the original and \<open>rdo\<close> the copy.  What is read does not depend on cells that are added later; the copy only adds
  cells; it reads as the same value; and it keeps that value whatever happens to the cells that existed before.
\<close>

locale copier =
  fixes rdi :: "memory \<Rightarrow> 'a \<Rightarrow> 'v option"
    and rdo :: "memory \<Rightarrow> 'b \<Rightarrow> 'v option"
    and same :: "'v \<Rightarrow> 'v \<Rightarrow> bool"
    and copy :: "'a \<Rightarrow> memory \<Rightarrow> ('b \<times> memory) option"
  assumes stable: "rdi h x = Some v \<Longrightarrow> agree 0 h g \<Longrightarrow> rdi g x = Some v"
    and copies: "rdi h x = Some v \<Longrightarrow> \<exists>y h' v'. copy x h = Some (y, h') \<and> agree 0 h h' \<and> same v v' \<and>
      (\<forall>g. agree (length h) h' g \<longrightarrow> rdo g y = Some v')"
begin

lemma copiesE:
  assumes "rdi h x = Some v"
  obtains y h' v' where "copy x h = Some (y, h')" "agree 0 h h'" "same v v'"
    "\<And>g. agree (length h) h' g \<Longrightarrow> rdo g y = Some v'"
  using copies [OF assms] by blast

text \<open>Whatever is written later through the original, the copy stays; whatever is written through the copy, the original stays.\<close>

lemma independent:
  assumes "rdi h x = Some v" and "copy x h = Some (y, h')"
  shows "agree 0 h h' \<and> (\<exists>v'. same v v' \<and> (\<forall>g. agree (length h) h' g \<longrightarrow> rdo g y = Some v')) \<and>
    (\<forall>g. agree 0 h g \<longrightarrow> rdi g x = Some v)"
proof (rule copiesE [OF assms(1)])
  fix y2 h2 v'
  assume "copy x h = Some (y2, h2)" "agree 0 h h2" "same v v'" "\<And>g. agree (length h) h2 g \<Longrightarrow> rdo g y2 = Some v'"
  with assms(2) stable [OF assms(1)] show ?thesis by simp blast
qed

end

text \<open>Values without pointers: the assignment \<open>*out = *in\<close> is the copy.\<close>

lemma copier_plain: "copier (\<lambda>h x. Some x) (\<lambda>h x. Some x) (=) (\<lambda>x h. Some (x, h))"
  by unfold_locales auto

text \<open>Two parts of a struct, one after the other.\<close>

lemma copier_pair:
  assumes "copier rdi1 rdo1 same1 cp1" and "copier rdi2 rdo2 same2 cp2"
  shows "copier (\<lambda>h (x1, x2). do { v1 \<leftarrow> rdi1 h x1; v2 \<leftarrow> rdi2 h x2; Some (v1, v2) })
    (\<lambda>h (y1, y2). do { v1 \<leftarrow> rdo1 h y1; v2 \<leftarrow> rdo2 h y2; Some (v1, v2) })
    (rel_prod same1 same2)
    (\<lambda>(x1, x2) h. do { (y1, h1) \<leftarrow> cp1 x1 h; (y2, h2) \<leftarrow> cp2 x2 h1; Some ((y1, y2), h2) })"
proof
  note stable1 = copier.stable [OF assms(1)] and stable2 = copier.stable [OF assms(2)]
  fix h x v
  assume "(\<lambda>(x1, x2). do { v1 \<leftarrow> rdi1 h x1; v2 \<leftarrow> rdi2 h x2; Some (v1, v2) }) x = Some v"
  then obtain x1 x2 v1 v2 where x: "x = (x1, x2)" "v = (v1, v2)" "rdi1 h x1 = Some v1" "rdi2 h x2 = Some v2"
    by (cases x) (auto split: Option.bind_splits)
  show "(\<lambda>(x1, x2). do { v1 \<leftarrow> rdi1 g x1; v2 \<leftarrow> rdi2 g x2; Some (v1, v2) }) x = Some v" if "agree 0 h g" for g
    using x stable1 [OF x(3) that] stable2 [OF x(4) that] by simp
  obtain y1 h1 w1 where 1: "cp1 x1 h = Some (y1, h1)" "agree 0 h h1" "same1 v1 w1"
      "\<And>g. agree (length h) h1 g \<Longrightarrow> rdo1 g y1 = Some w1"
    using copier.copies [OF assms(1) x(3)] by blast
  obtain y2 h2 w2 where 2: "cp2 x2 h1 = Some (y2, h2)" "agree 0 h1 h2" "same2 v2 w2"
      "\<And>g. agree (length h1) h2 g \<Longrightarrow> rdo2 g y2 = Some w2"
    using copier.copies [OF assms(2) stable2 [OF x(4) 1(2)]] by blast
  have "rdo1 g y1 = Some w1 \<and> rdo2 g y2 = Some w2" if "agree (length h) h2 g" for g
    using 1(4) [OF agree_before [OF 2(2) that]] 2(4) [OF agree_mono [OF that agree_length [OF 1(2)]]] by simp
  then show "\<exists>y h' v'. (\<lambda>(x1, x2) h. do { (y1, h1) \<leftarrow> cp1 x1 h; (y2, h2) \<leftarrow> cp2 x2 h1; Some ((y1, y2), h2) }) x h = Some (y, h') \<and>
      agree 0 h h' \<and> rel_prod same1 same2 v v' \<and>
      (\<forall>g. agree (length h) h' g \<longrightarrow> (\<lambda>(y1, y2). do { v1 \<leftarrow> rdo1 g y1; v2 \<leftarrow> rdo2 g y2; Some (v1, v2) }) y = Some v')"
    using x(1,2) 1(1,3) 2(1,3) agree_trans [OF 1(2) 2(2)]
    by (intro exI [of _ "(y1, y2)"] exI [of _ h2] exI [of _ "(w1, w2)"]) simp
qed

text \<open>A struct of which \<open>get\<close> gives the parts with pointers and \<open>put\<close> replaces them; \<open>F\<close> makes the value of the struct from theirs.\<close>

lemma copier_wrap:
  assumes "copier rdi rdo same cp"
    and "\<And>h x. rdi' h x = map_option (F x) (rdi h (get x))"
    and "\<And>h x y. rdo' h (put y x) = map_option (F x) (rdo h y)"
    and "\<And>h x. cp' x h = do { (y, h') \<leftarrow> cp (get x) h; Some (put y x, h') }"
    and "\<And>x v v'. same v v' \<Longrightarrow> same' (F x v) (F x v')"
  shows "copier rdi' rdo' same' cp'"
proof
  fix h x v
  assume "rdi' h x = Some v"
  then obtain w where w: "rdi h (get x) = Some w" "v = F x w" by (auto simp: assms(2))
  show "rdi' g x = Some v" if "agree 0 h g" for g
    using copier.stable [OF assms(1) w(1) that] w(2) by (simp add: assms(2))
  show "\<exists>y h' v'. cp' x h = Some (y, h') \<and> agree 0 h h' \<and> same' v v' \<and> (\<forall>g. agree (length h) h' g \<longrightarrow> rdo' g y = Some v')"
  proof -
    obtain y h' w' where c: "cp (get x) h = Some (y, h')" "agree 0 h h'" "same w w'"
        "\<And>g. agree (length h) h' g \<Longrightarrow> rdo g y = Some w'"
      using copier.copies [OF assms(1) w(1)] by blast
    then show ?thesis using w(2)
      by (intro exI [of _ "put y x"] exI [of _ h'] exI [of _ "F x w'"]) (simp add: assms(3,4,5))
  qed
qed

text \<open>A new struct behind a pointer.\<close>

definition read_field :: "('a \<Rightarrow> cell) \<Rightarrow> (cell \<Rightarrow> 'a) \<Rightarrow> (memory \<Rightarrow> 'a \<Rightarrow> 'v option) \<Rightarrow> memory \<Rightarrow> addr option \<Rightarrow> 'v option option" where
  "read_field mk at rd h p =
     (case p of None \<Rightarrow> Some None | Some a \<Rightarrow> do { x \<leftarrow> load mk at h a; v \<leftarrow> rd h x; Some (Some v) })"

definition read_receiver :: "(memory \<Rightarrow> 'a \<Rightarrow> 'v option) \<Rightarrow> memory \<Rightarrow> 'a option \<Rightarrow> 'v option option" where
  "read_receiver rd h p = (case p of None \<Rightarrow> Some None | Some x \<Rightarrow> do { v \<leftarrow> rd h x; Some (Some v) })"

lemma new_copy_copies:
  assumes "copier rdi rdo same cp" and "\<And>x. at (mk x) = x" and "rdi h x = Some v"
  obtains a h' v' where "new_copy mk zero cp x h = Some (a, h')" "agree 0 h h'" "same v v'"
    "\<And>g. agree (length h) h' g \<Longrightarrow> read_field mk at rdo g (Some a) = Some (Some v')"
proof -
  let ?h1 = "h @ [mk zero]"
  have "rdi ?h1 x = Some v" by (rule copier.stable [OF assms(1,3) agree_alloc])
  from copier.copies [OF assms(1) this] obtain y h2 v' where
    c: "cp x ?h1 = Some (y, h2)" "agree 0 ?h1 h2" "same v v'" "\<And>g. agree (length ?h1) h2 g \<Longrightarrow> rdo g y = Some v'"
    by blast
  let ?h' = "store (length h) (mk y) h2"
  have l: "length h < length h2" using agree_length [OF c(2)] by simp
  have new: "new_copy mk zero cp x h = Some (length h, ?h')" by (simp add: new_copy_def alloc_def c(1))
  have old: "agree 0 h ?h'" using c(2) l by (auto simp: agree_def store_def nth_append)
  have "read_field mk at rdo g (Some (length h)) = Some (Some v')" if "agree (length h) ?h' g" for g
  proof -
    have "load mk at g (length h) = Some y"
      using that l by (auto simp: agree_def store_def intro!: load_mk assms(2))
    moreover have "agree (length ?h1) h2 g" using that by (auto simp: agree_def store_def)
    ultimately show ?thesis using c(4) by (simp add: read_field_def)
  qed
  with new old c(3) that show thesis by blast
qed

lemma read_field_Some:
  "read_field mk at rd h (Some a) = Some v \<longleftrightarrow> (\<exists>x w. load mk at h a = Some x \<and> rd h x = Some w \<and> v = Some w)"
  by (auto simp: read_field_def bind_eq_Some_conv)

lemma read_receiver_Some: "read_receiver rd h (Some x) = Some v \<longleftrightarrow> (\<exists>w. rd h x = Some w \<and> v = Some w)"
  by (auto simp: read_receiver_def bind_eq_Some_conv)

lemma read_nil [simp]: "read_field mk at rd h None = Some None" "read_receiver rd h None = Some None"
  by (simp_all add: read_field_def read_receiver_def)

lemma copier_field:
  assumes "copier rdi rdo same cp" and "\<And>x. at (mk x) = x"
  shows "copier (read_field mk at rdi) (read_field mk at rdo) (rel_option same) (copy_field mk at zero cp)"
proof
  fix h p v
  assume r: "read_field mk at rdi h p = Some v"
  show "read_field mk at rdi g p = Some v" if "agree 0 h g" for g
    using r load_agree [of mk at h, OF _ that] copier.stable [OF assms(1) _ that] by (cases p) (auto simp: read_field_Some)
  show "\<exists>y h' v'. copy_field mk at zero cp p h = Some (y, h') \<and> agree 0 h h' \<and> rel_option same v v' \<and>
      (\<forall>g. agree (length h) h' g \<longrightarrow> read_field mk at rdo g y = Some v')"
  proof (cases p)
    case None
    with r show ?thesis by (auto simp: copy_field_def)
  next
    case (Some a)
    with r obtain x w where x: "load mk at h a = Some x" "rdi h x = Some w" "v = Some w"
      by (auto simp: read_field_Some)
    obtain b h' w' where "new_copy mk zero cp x h = Some (b, h')" "agree 0 h h'" "same w w'"
      "\<And>g. agree (length h) h' g \<Longrightarrow> read_field mk at rdo g (Some b) = Some (Some w')"
      by (rule new_copy_copies [OF assms x(2), of zero]) blast
    with x Some show ?thesis by (intro exI [of _ "Some b"] exI [of _ h'] exI [of _ "Some w'"]) (simp add: copy_field_def)
  qed
qed

lemma copier_struct:
  assumes "copier rdi rdo same cp" and "\<And>x. at (mk x) = x"
  shows "copier (read_receiver rdi) (read_field mk at rdo) (rel_option same) (copy_struct mk zero cp)"
proof
  fix h p v
  assume r: "read_receiver rdi h p = Some v"
  show "read_receiver rdi g p = Some v" if "agree 0 h g" for g
    using r copier.stable [OF assms(1) _ that] by (cases p) (auto simp: read_receiver_Some)
  show "\<exists>y h' v'. copy_struct mk zero cp p h = Some (y, h') \<and> agree 0 h h' \<and> rel_option same v v' \<and>
      (\<forall>g. agree (length h) h' g \<longrightarrow> read_field mk at rdo g y = Some v')"
  proof (cases p)
    case None
    with r show ?thesis by (auto simp: copy_struct_def)
  next
    case (Some x)
    with r obtain w where x: "rdi h x = Some w" "v = Some w" by (auto simp: read_receiver_Some)
    obtain b h' w' where "new_copy mk zero cp x h = Some (b, h')" "agree 0 h h'" "same w w'"
      "\<And>g. agree (length h) h' g \<Longrightarrow> read_field mk at rdo g (Some b) = Some (Some w')"
      by (rule new_copy_copies [OF assms x(1), of zero]) blast
    with x Some show ?thesis by (intro exI [of _ "Some b"] exI [of _ h'] exI [of _ "Some w'"]) (simp add: copy_struct_def)
  qed
qed

text \<open>A new array for a slice.\<close>

definition read_elems :: "(memory \<Rightarrow> 'a \<Rightarrow> 'v option) \<Rightarrow> memory \<Rightarrow> 'a list \<Rightarrow> 'v list option" where
  "read_elems rd h xs = those (map (rd h) xs)"

definition read_slice :: "('a list \<Rightarrow> cell) \<Rightarrow> (cell \<Rightarrow> 'a list) \<Rightarrow> (memory \<Rightarrow> 'a \<Rightarrow> 'v option) \<Rightarrow> memory \<Rightarrow>
    go_slice option \<Rightarrow> 'v list option option" where
  "read_slice mk at rd h p =
     (case p of
        None \<Rightarrow> Some None
      | Some s \<Rightarrow> do {
          xs \<leftarrow> load mk at h (sl_array s);
          if sl_offset s + sl_len s \<le> length xs
          then do { vs \<leftarrow> read_elems rd h (take (sl_len s) (drop (sl_offset s) xs)); Some (Some vs) }
          else None })"

lemma read_elems_Some: "read_elems rd h xs = Some vs \<longleftrightarrow> list_all2 (\<lambda>x v. rd h x = Some v) xs vs"
proof (induction xs arbitrary: vs)
  case (Cons x xs)
  then show ?case by (cases vs) (auto simp: read_elems_def split: option.splits)
qed (auto simp: read_elems_def)

lemma read_slice_Some:
  "read_slice mk at rd h (Some s) = Some v \<longleftrightarrow>
     (\<exists>xs vs. load mk at h (sl_array s) = Some xs \<and> sl_offset s + sl_len s \<le> length xs \<and> v = Some vs \<and>
       list_all2 (\<lambda>x v. rd h x = Some v) (take (sl_len s) (drop (sl_offset s) xs)) vs)"
  by (auto simp: read_slice_def bind_eq_Some_conv read_elems_Some split: if_splits)

lemma copy_elems_copies:
  assumes "copier rdi rdo same cp" and at: "\<And>x. at (mk x) = x"
    and xs: "load mk at h0 (sl_array s) = Some xs" "sl_offset s + sl_len s \<le> length xs" "length h0 \<le> a"
    and vs: "\<And>i. i < sl_len s \<Longrightarrow> rdi h0 (xs ! (sl_offset s + i)) = Some (vs i)"
    and "distinct is" "set is \<subseteq> {..< sl_len s}"
    and "agree 0 h0 h" "a < length h" "h ! a = mk ys" "length ys = sl_len s"
  shows "\<exists>h' ys'. copy_elems mk at cp s a is h = Some h' \<and> agree 0 h0 h' \<and> agree (Suc a) h h' \<and>
    h' ! a = mk ys' \<and> length ys' = sl_len s \<and> (\<forall>i. i \<notin> set is \<longrightarrow> ys' ! i = ys ! i) \<and>
    (\<forall>i \<in> set is. \<exists>v'. same (vs i) v' \<and> (\<forall>g. agree (Suc a) h' g \<longrightarrow> rdo g (ys' ! i) = Some v'))"
  using assms(7-)
proof (induction "is" arbitrary: h ys)
  case Nil
  then show ?case by auto
next
  case (Cons i "is")
  let ?x = "xs ! (sl_offset s + i)"
  have i: "i < sl_len s" using Cons.prems(2) by simp
  have le: "load_elem mk at h s i = Some ?x"
    using i xs(2) load_agree [OF xs(1) Cons.prems(3)] by (simp add: load_elem_def)
  have "rdi h ?x = Some (vs i)" by (rule copier.stable [OF assms(1) vs [OF i] Cons.prems(3)])
  from copier.copies [OF assms(1) this] obtain y h1 v' where
    c: "cp ?x h = Some (y, h1)" "agree 0 h h1" "same (vs i) v'" "\<And>g. agree (length h) h1 g \<Longrightarrow> rdo g y = Some v'" by blast
  let ?h2 = "store a (mk (ys[i := y])) h1"
  have a1: "a < length h1" "h1 ! a = mk ys"
    using c(2) Cons.prems(4,5) by (auto simp: agree_def)
  have se: "store_elem mk at a i y h1 = Some ?h2"
    using load_mk [where at = at, OF a1 at] i Cons.prems(6) by (simp add: store_elem_def)
  have "agree 0 h0 h1" by (rule agree_trans [OF Cons.prems(3) c(2)])
  then have 2: "agree 0 h0 ?h2" "agree (Suc a) h ?h2" "agree (Suc a) h1 ?h2"
    using c(2) xs(3) by (auto simp: agree_def store_def)
  obtain h' ys' where r: "copy_elems mk at cp s a is ?h2 = Some h'" "agree 0 h0 h'" "agree (Suc a) ?h2 h'"
      "h' ! a = mk ys'" "length ys' = sl_len s" "\<forall>j. j \<notin> set is \<longrightarrow> ys' ! j = ys[i := y] ! j"
      "\<forall>j \<in> set is. \<exists>v'. same (vs j) v' \<and> (\<forall>g. agree (Suc a) h' g \<longrightarrow> rdo g (ys' ! j) = Some v')"
    using Cons.IH [of ?h2 "ys[i := y]"] Cons.prems(1,2,6) 2(1) a1(1) by (auto simp: store_def)
  have "rdo g (ys' ! i) = Some v'" if "agree (Suc a) h' g" for g
  proof -
    have "agree (Suc a) h1 g" by (rule agree_trans [OF agree_trans [OF 2(3) r(3)] that])
    then have "agree (length h) h1 g" by (rule agree_mono) (use Cons.prems(4) in simp)
    then show ?thesis using c(4) r(6) Cons.prems(1,6) i by simp
  qed
  with c(3) have "\<exists>v'. same (vs i) v' \<and> (\<forall>g. agree (Suc a) h' g \<longrightarrow> rdo g (ys' ! i) = Some v')" by blast
  moreover have "copy_elems mk at cp s a (i # is) h = Some h'" by (simp add: le c(1) se r(1))
  moreover have "agree (Suc a) h h'" by (rule agree_trans [OF 2(2) r(3)])
  ultimately show ?case using r(2,4-7) by (intro exI [of _ h'] exI [of _ ys']) auto
qed

lemma copier_slice:
  assumes "copier rdi rdo same cp" and at: "\<And>x. at (mk x) = x"
  shows "copier (read_slice mk at rdi) (read_slice mk at rdo) (rel_option (list_all2 same)) (copy_slice mk at zero cp)"
proof
  fix h p v
  assume r: "read_slice mk at rdi h p = Some v"
  show "read_slice mk at rdi g p = Some v" if ag: "agree 0 h g" for g
  proof (cases p)
    case None
    with r show ?thesis by (simp add: read_slice_def)
  next
    case (Some s)
    with r show ?thesis using load_agree [of mk at h, OF _ ag] copier.stable [OF assms(1) _ ag]
      by (auto simp: read_slice_Some elim!: list_all2_mono)
  qed
  show "\<exists>y h' v'. copy_slice mk at zero cp p h = Some (y, h') \<and> agree 0 h h' \<and> rel_option (list_all2 same) v v' \<and>
      (\<forall>g. agree (length h) h' g \<longrightarrow> read_slice mk at rdo g y = Some v')"
  proof (cases p)
    case None
    with r show ?thesis by (auto simp: copy_slice_def read_slice_def)
  next
    case (Some s)
    let ?n = "sl_len s" and ?h1 = "h @ [mk (replicate (sl_len s) zero)]"
    from r Some obtain xs vs where x: "load mk at h (sl_array s) = Some xs" "sl_offset s + ?n \<le> length xs" "v = Some vs"
        "list_all2 (\<lambda>x v. rdi h x = Some v) (take ?n (drop (sl_offset s) xs)) vs"
      by (auto simp: read_slice_Some)
    then have v: "length vs = ?n" "\<And>i. i < ?n \<Longrightarrow> rdi h (xs ! (sl_offset s + i)) = Some (vs ! i)"
      by (auto simp: list_all2_conv_all_nth)
    have sub: "set [0..<?n] \<subseteq> {..<?n}" by auto
    obtain h' ys where c: "copy_elems mk at cp s (length h) [0..<?n] ?h1 = Some h'" "agree 0 h h'" "agree (Suc (length h)) ?h1 h'"
        "h' ! length h = mk ys" "length ys = ?n"
        "\<forall>i \<in> set [0..<?n]. \<exists>w. same (vs ! i) w \<and> (\<forall>g. agree (Suc (length h)) h' g \<longrightarrow> rdo g (ys ! i) = Some w)"
      using copy_elems_copies [OF assms x(1,2) le_refl v(2) distinct_upt sub agree_alloc, of "mk (replicate ?n zero)" "replicate ?n zero"]
      by auto
    then obtain w where w: "\<And>i. i < ?n \<Longrightarrow> same (vs ! i) (w i) \<and> (\<forall>g. agree (Suc (length h)) h' g \<longrightarrow> rdo g (ys ! i) = Some (w i))"
      by (metis atLeastLessThan_iff le0 set_upt)
    let ?y = "\<lparr>sl_array = length h, sl_offset = 0, sl_len = ?n\<rparr>" and ?w = "map w [0..<?n]"
    have "read_slice mk at rdo g (Some ?y) = Some (Some ?w)" if ag: "agree (length h) h' g" for g
    proof -
      have "load mk at g (length h) = Some ys"
        using agree_length [OF ag] agree_length [OF c(3)] agree_nth [OF ag] c(4) by (auto intro!: load_mk at)
      moreover have "agree (Suc (length h)) h' g" by (rule agree_mono [OF ag]) simp
      ultimately show ?thesis using w c(5) by (auto simp: read_slice_Some list_all2_conv_all_nth)
    qed
    moreover have "list_all2 same vs ?w" using w v(1) by (auto simp: list_all2_conv_all_nth)
    moreover have "copy_slice mk at zero cp p h = Some (Some ?y, h')" using Some c(1) by (simp add: copy_slice_def alloc_def)
    ultimately show ?thesis using c(2) x(3) by (intro exI [of _ "Some ?y"] exI [of _ h'] exI [of _ "Some ?w"]) simp
  qed
qed

text \<open>A new map.  A Go map has one entry for each key.\<close>

definition read_map :: "memory \<Rightarrow> addr option \<Rightarrow> string go_map option option" where
  "read_map = read_field CMap at_map (\<lambda>h m. if distinct (map fst m) then Some m else None)"

lemma copy_entries_copies:
  assumes "a < length h" and "h ! a = CMap m"
  shows "copy_entries a kvs h = Some (store a (CMap (fold (\<lambda>(k, v). AList.update k v) kvs m)) h)"
  using assms
proof (induction kvs arbitrary: h m)
  case Nil
  then show ?case by (metis copy_entries.simps(1) fold_Nil id_apply list_update_id store_def)
next
  case (Cons kv kvs)
  then show ?case by (cases kv) (simp add: load_def store_def)
qed

lemma fold_update:
  "distinct (map fst kvs) \<Longrightarrow> map_of (fold (\<lambda>(k, v). AList.update k v) kvs m) k =
     (case map_of kvs k of None \<Rightarrow> map_of m k | Some v \<Rightarrow> Some v)"
proof (induction kvs arbitrary: m)
  case (Cons kv kvs)
  obtain a b where kv: "kv = (a, b)" by force
  with Cons.prems have "map_of kvs a = None" by (simp add: map_of_eq_None_iff)
  with Cons kv show ?case by (simp split: option.split)
qed simp

lemma fold_update_distinct: "distinct (map fst m) \<Longrightarrow> distinct (map fst (fold (\<lambda>(k, v). AList.update k v) kvs m))"
  by (induction kvs arbitrary: m) (auto intro: distinct_update)

definition same_map :: "string go_map \<Rightarrow> string go_map \<Rightarrow> bool" where
  "same_map m n \<longleftrightarrow> map_of m = map_of n"

lemma copier_map:
  assumes "map_ranging L"
  shows "copier read_map read_map (rel_option same_map) (copy_map L)"
proof
  fix h p v
  assume r: "read_map h p = Some v"
  show "read_map g p = Some v" if "agree 0 h g" for g
    using r load_agree [of CMap at_map h, OF _ that] by (cases p) (auto simp: read_map_def read_field_Some split: if_splits)
  show "\<exists>y h' v'. copy_map L p h = Some (y, h') \<and> agree 0 h h' \<and> rel_option same_map v v' \<and>
      (\<forall>g. agree (length h) h' g \<longrightarrow> read_map g y = Some v')"
  proof (cases p)
    case None
    with r show ?thesis by (auto simp: copy_map_def read_map_def)
  next
    case (Some b)
    with r obtain m where m: "load CMap at_map h b = Some m" "distinct (map fst m)" "v = Some m"
      by (auto simp: read_map_def read_field_Some split: if_splits)
    let ?m = "fold (\<lambda>(k, v). AList.update k v) (range_map L 5 m) []" and ?h1 = "h @ [CMap []]"
    let ?h' = "store (length h) (CMap ?m) ?h1"
    have d: "distinct (map fst (range_map L 5 m))" by (rule map_ranging.distinct_range_map [OF assms m(2)])
    have "map_of (range_map L 5 m) = map_of m"
      by (rule map_of_eqI) (use map_ranging.set_range_map [OF assms m(2)] d m(2) in \<open>auto intro: map_of_eqI\<close>)
    then have s: "same_map m ?m" using d by (auto simp: same_map_def fold_update fun_eq_iff split: option.splits)
    have "load CMap at_map ?h1 b = Some m" by (rule load_agree [OF m(1) agree_alloc]) simp
    then have c: "copy_map L p h = Some (Some (length h), ?h')"
      using Some by (simp add: copy_map_def alloc_def copy_entries_copies)
    have ag: "agree 0 h ?h'" by (auto simp: agree_def store_def nth_append)
    have "read_map g (Some (length h)) = Some (Some ?m)" if "agree (length h) ?h' g" for g
    proof -
      have "load CMap at_map g (length h) = Some ?m" using that by (auto simp: agree_def store_def intro!: load_mk)
      then show ?thesis by (auto simp: read_map_def read_field_Some fold_update_distinct)
    qed
    then show ?thesis using c ag s m(3) by (intro exI [of _ "Some (length h)"] exI [of _ ?h'] exI [of _ "Some ?m"]) simp
  qed
qed

section \<open>The copies of the library\<close>

text \<open>
  \<open>DeepCopyInto\<close> of \<open>ObjectMeta\<close>, \<open>ListMeta\<close> and \<open>Condition\<close> belongs to \<^verbatim>\<open>k8s.io/apimachinery\<close>.
\<close>

record copy_lib =
  lib_copy_meta :: "p_object_meta \<Rightarrow> memory \<Rightarrow> (p_object_meta \<times> memory) option"
  lib_copy_list_meta :: "p_list_meta \<Rightarrow> memory \<Rightarrow> (p_list_meta \<times> memory) option"
  lib_copy_condition :: "condition \<Rightarrow> memory \<Rightarrow> (condition \<times> memory) option"

abbreviation read_plain :: "memory \<Rightarrow> 'a \<Rightarrow> 'a option" where
  "read_plain h x \<equiv> Some x"

definition nil_empty :: "'a list option \<Rightarrow> 'a list" where
  "nil_empty p = (case p of None \<Rightarrow> [] | Some xs \<Rightarrow> xs)"

definition read_meta :: "memory \<Rightarrow> p_object_meta \<Rightarrow> object_meta option" where
  "read_meta h m = do {
     labels \<leftarrow> read_map h (pm_labels m);
     fs \<leftarrow> read_slice CStrings at_strings read_plain h (pm_finalizers m);
     os \<leftarrow> read_slice COwners at_owners read_plain h (pm_owners m);
     del \<leftarrow> read_field CTime at_time read_plain h (pm_deletion m);
     Some \<lparr>m_name = pm_name m, m_namespace = pm_namespace m, m_labels = labels, m_finalizers = nil_empty fs,
       m_owners = nil_empty os, m_deletion = del, m_generation = pm_generation m, m_version = pm_version m, m_uid = pm_uid m\<rparr> }"

record list_meta =
  lm_version :: string
  lm_continue :: string
  lm_remaining :: "int option"

definition read_list_meta :: "memory \<Rightarrow> p_list_meta \<Rightarrow> list_meta option" where
  "read_list_meta h m = map_option
     (\<lambda>n. \<lparr>lm_version = plm_version m, lm_continue = plm_continue m, lm_remaining = n\<rparr>)
     (read_field CInt at_int read_plain h (plm_remaining m))"

definition same_meta :: "object_meta \<Rightarrow> object_meta \<Rightarrow> bool" where
  "same_meta m n \<longleftrightarrow> rel_option same_map (m_labels m) (m_labels n) \<and> m\<lparr>m_labels := None\<rparr> = n\<lparr>m_labels := None\<rparr>"

text \<open>They are deep copies too: nothing else is asked of them.\<close>

locale meta_copies =
  fixes C :: copy_lib
  assumes meta_copier: "copier read_meta read_meta same_meta (lib_copy_meta C)"
    and list_meta_copier: "copier read_list_meta read_list_meta (=) (lib_copy_list_meta C)"
    and condition_copier: "copier read_plain read_plain (=) (lib_copy_condition C)"

section \<open>The generated functions\<close>

definition SecretCredentialSource_DeepCopyInto :: "secret_credential_source \<Rightarrow> memory \<Rightarrow> (secret_credential_source \<times> memory) option" where
  "SecretCredentialSource_DeepCopyInto x h = Some (x, h)"

definition MCECredentialSource_DeepCopyInto :: "mce_credential_source \<Rightarrow> memory \<Rightarrow> (mce_credential_source \<times> memory) option" where
  "MCECredentialSource_DeepCopyInto x h = Some (x, h)"

text \<open>
  The zero values of Go, with which \<open>new\<close> and \<open>make\<close> fill the memory until the copy is stored there.  (The zero value of the
  status of a condition, the empty string, is not one of its three values; the copy overwrites it.)
\<close>

abbreviation zero_secret :: secret_credential_source where
  "zero_secret \<equiv> \<lparr>scs_name = [], scs_namespace = []\<rparr>"

abbreviation zero_mce :: mce_credential_source where
  "zero_mce \<equiv> \<lparr>mcs_managedClusterName = []\<rparr>"

abbreviation zero_credential :: p_credential_source where
  "zero_credential \<equiv> \<lparr>pcs_secret = None, pcs_mce = None\<rparr>"

abbreviation zero_spokespec :: p_spokecluster_spec where
  "zero_spokespec \<equiv> \<lparr>psp_apiServer = [], psp_credentialSource = zero_credential\<rparr>"

abbreviation zero_condition :: condition where
  "zero_condition \<equiv> \<lparr>c_type = [], c_status = ConditionUnknown, c_reason = [], c_message = [], c_observed = 0, c_transition = zero_time\<rparr>"

abbreviation zero_type :: type_meta where
  "zero_type \<equiv> \<lparr>tm_kind = [], tm_apiVersion = []\<rparr>"

abbreviation zero_meta :: p_object_meta where
  "zero_meta \<equiv> \<lparr>pm_name = [], pm_namespace = [], pm_labels = None, pm_finalizers = None, pm_owners = None, pm_deletion = None,
     pm_generation = 0, pm_version = [], pm_uid = []\<rparr>"

abbreviation zero_list_meta :: p_list_meta where
  "zero_list_meta \<equiv> \<lparr>plm_version = [], plm_continue = [], plm_remaining = None\<rparr>"

abbreviation zero_spoke :: p_spokecluster where
  "zero_spoke \<equiv> \<lparr>psc_type = zero_type, psc_meta = zero_meta, psc_spec = zero_spokespec, psc_status = \<lparr>pst_conditions = None\<rparr>\<rparr>"

abbreviation zero_hub :: p_hubconfig where
  "zero_hub \<equiv> \<lparr>phc_type = zero_type, phc_meta = zero_meta, phc_spec = \<lparr>phs_mode = [], phs_mce = None\<rparr>, phc_status = ()\<rparr>"

definition CredentialSource_DeepCopyInto :: "p_credential_source \<Rightarrow> memory \<Rightarrow> (p_credential_source \<times> memory) option" where
  "CredentialSource_DeepCopyInto x h = do {
     (s, h1) \<leftarrow> copy_field CSecret at_secret zero_secret SecretCredentialSource_DeepCopyInto (pcs_secret x) h;
     (m, h2) \<leftarrow> copy_field CMce at_mce zero_mce MCECredentialSource_DeepCopyInto (pcs_mce x) h1;
     Some (x\<lparr>pcs_secret := s, pcs_mce := m\<rparr>, h2) }"

definition SpokeClusterSpec_DeepCopyInto :: "p_spokecluster_spec \<Rightarrow> memory \<Rightarrow> (p_spokecluster_spec \<times> memory) option" where
  "SpokeClusterSpec_DeepCopyInto x h = do {
     (c, h1) \<leftarrow> CredentialSource_DeepCopyInto (psp_credentialSource x) h;
     Some (x\<lparr>psp_credentialSource := c\<rparr>, h1) }"

definition SpokeClusterStatus_DeepCopyInto :: "copy_lib \<Rightarrow> p_spokecluster_status \<Rightarrow> memory \<Rightarrow> (p_spokecluster_status \<times> memory) option" where
  "SpokeClusterStatus_DeepCopyInto C x h = do {
     (cs, h1) \<leftarrow> copy_slice CConditions at_conditions zero_condition (lib_copy_condition C) (pst_conditions x) h;
     Some (x\<lparr>pst_conditions := cs\<rparr>, h1) }"

definition SpokeCluster_DeepCopyInto :: "copy_lib \<Rightarrow> p_spokecluster \<Rightarrow> memory \<Rightarrow> (p_spokecluster \<times> memory) option" where
  "SpokeCluster_DeepCopyInto C x h = do {
     (m, h1) \<leftarrow> lib_copy_meta C (psc_meta x) h;
     (sp, h2) \<leftarrow> SpokeClusterSpec_DeepCopyInto (psc_spec x) h1;
     (st, h3) \<leftarrow> SpokeClusterStatus_DeepCopyInto C (psc_status x) h2;
     Some (x\<lparr>psc_type := psc_type x, psc_meta := m, psc_spec := sp, psc_status := st\<rparr>, h3) }"

definition SpokeClusterList_DeepCopyInto :: "copy_lib \<Rightarrow> p_spokecluster_list \<Rightarrow> memory \<Rightarrow> (p_spokecluster_list \<times> memory) option" where
  "SpokeClusterList_DeepCopyInto C x h = do {
     (m, h1) \<leftarrow> lib_copy_list_meta C (psl_meta x) h;
     (xs, h2) \<leftarrow> copy_slice CSpokes at_spokes zero_spoke (SpokeCluster_DeepCopyInto C) (psl_items x) h1;
     Some (x\<lparr>psl_type := psl_type x, psl_meta := m, psl_items := xs\<rparr>, h2) }"

definition MCESelector_DeepCopyInto :: "k8s_lib \<Rightarrow> p_mce_selector \<Rightarrow> memory \<Rightarrow> (p_mce_selector \<times> memory) option" where
  "MCESelector_DeepCopyInto L x h = do {
     (m, h1) \<leftarrow> copy_map L (pms_matchLabels x) h;
     Some (x\<lparr>pms_matchLabels := m\<rparr>, h1) }"

definition MCEConfig_DeepCopyInto :: "k8s_lib \<Rightarrow> p_mce_config \<Rightarrow> memory \<Rightarrow> (p_mce_config \<times> memory) option" where
  "MCEConfig_DeepCopyInto L x h = do {
     (s, h1) \<leftarrow> copy_field CSelector at_selector \<lparr>pms_matchLabels = None\<rparr> (MCESelector_DeepCopyInto L) (pmc_selector x) h;
     Some (x\<lparr>pmc_selector := s\<rparr>, h1) }"

definition HubConfigSpec_DeepCopyInto :: "k8s_lib \<Rightarrow> p_hubconfig_spec \<Rightarrow> memory \<Rightarrow> (p_hubconfig_spec \<times> memory) option" where
  "HubConfigSpec_DeepCopyInto L x h = do {
     (m, h1) \<leftarrow> copy_field CConfig at_config \<lparr>pmc_selector = None\<rparr> (MCEConfig_DeepCopyInto L) (phs_mce x) h;
     Some (x\<lparr>phs_mce := m\<rparr>, h1) }"

definition HubConfigStatus_DeepCopyInto :: "p_hubconfig_status \<Rightarrow> memory \<Rightarrow> (p_hubconfig_status \<times> memory) option" where
  "HubConfigStatus_DeepCopyInto x h = Some (x, h)"

definition HubConfig_DeepCopyInto :: "k8s_lib \<Rightarrow> copy_lib \<Rightarrow> p_hubconfig \<Rightarrow> memory \<Rightarrow> (p_hubconfig \<times> memory) option" where
  "HubConfig_DeepCopyInto L C x h = do {
     (m, h1) \<leftarrow> lib_copy_meta C (phc_meta x) h;
     (sp, h2) \<leftarrow> HubConfigSpec_DeepCopyInto L (phc_spec x) h1;
     Some (x\<lparr>phc_type := phc_type x, phc_meta := m, phc_spec := sp, phc_status := phc_status x\<rparr>, h2) }"

definition HubConfigList_DeepCopyInto :: "k8s_lib \<Rightarrow> copy_lib \<Rightarrow> p_hubconfig_list \<Rightarrow> memory \<Rightarrow> (p_hubconfig_list \<times> memory) option" where
  "HubConfigList_DeepCopyInto L C x h = do {
     (m, h1) \<leftarrow> lib_copy_list_meta C (phl_meta x) h;
     (xs, h2) \<leftarrow> copy_slice CHubs at_hubs zero_hub (HubConfig_DeepCopyInto L C) (phl_items x) h1;
     Some (x\<lparr>phl_type := phl_type x, phl_meta := m, phl_items := xs\<rparr>, h2) }"

text \<open>The \<open>DeepCopy\<close> methods.\<close>

definition SecretCredentialSource_DeepCopy :: "secret_credential_source option \<Rightarrow> memory \<Rightarrow> (addr option \<times> memory) option" where
  "SecretCredentialSource_DeepCopy = copy_struct CSecret zero_secret SecretCredentialSource_DeepCopyInto"

definition MCECredentialSource_DeepCopy :: "mce_credential_source option \<Rightarrow> memory \<Rightarrow> (addr option \<times> memory) option" where
  "MCECredentialSource_DeepCopy = copy_struct CMce zero_mce MCECredentialSource_DeepCopyInto"

definition CredentialSource_DeepCopy :: "p_credential_source option \<Rightarrow> memory \<Rightarrow> (addr option \<times> memory) option" where
  "CredentialSource_DeepCopy = copy_struct CCredential zero_credential CredentialSource_DeepCopyInto"

definition SpokeClusterSpec_DeepCopy :: "p_spokecluster_spec option \<Rightarrow> memory \<Rightarrow> (addr option \<times> memory) option" where
  "SpokeClusterSpec_DeepCopy = copy_struct CSpokeSpec zero_spokespec SpokeClusterSpec_DeepCopyInto"

definition SpokeClusterStatus_DeepCopy :: "copy_lib \<Rightarrow> p_spokecluster_status option \<Rightarrow> memory \<Rightarrow> (addr option \<times> memory) option" where
  "SpokeClusterStatus_DeepCopy C = copy_struct CSpokeStatus \<lparr>pst_conditions = None\<rparr> (SpokeClusterStatus_DeepCopyInto C)"

definition SpokeCluster_DeepCopy :: "copy_lib \<Rightarrow> p_spokecluster option \<Rightarrow> memory \<Rightarrow> (addr option \<times> memory) option" where
  "SpokeCluster_DeepCopy C = copy_struct CSpoke zero_spoke (SpokeCluster_DeepCopyInto C)"

definition SpokeClusterList_DeepCopy :: "copy_lib \<Rightarrow> p_spokecluster_list option \<Rightarrow> memory \<Rightarrow> (addr option \<times> memory) option" where
  "SpokeClusterList_DeepCopy C =
     copy_struct CSpokeList \<lparr>psl_type = zero_type, psl_meta = zero_list_meta, psl_items = None\<rparr> (SpokeClusterList_DeepCopyInto C)"

definition MCESelector_DeepCopy :: "k8s_lib \<Rightarrow> p_mce_selector option \<Rightarrow> memory \<Rightarrow> (addr option \<times> memory) option" where
  "MCESelector_DeepCopy L = copy_struct CSelector \<lparr>pms_matchLabels = None\<rparr> (MCESelector_DeepCopyInto L)"

definition MCEConfig_DeepCopy :: "k8s_lib \<Rightarrow> p_mce_config option \<Rightarrow> memory \<Rightarrow> (addr option \<times> memory) option" where
  "MCEConfig_DeepCopy L = copy_struct CConfig \<lparr>pmc_selector = None\<rparr> (MCEConfig_DeepCopyInto L)"

definition HubConfigSpec_DeepCopy :: "k8s_lib \<Rightarrow> p_hubconfig_spec option \<Rightarrow> memory \<Rightarrow> (addr option \<times> memory) option" where
  "HubConfigSpec_DeepCopy L = copy_struct CHubSpec \<lparr>phs_mode = [], phs_mce = None\<rparr> (HubConfigSpec_DeepCopyInto L)"

definition HubConfigStatus_DeepCopy :: "p_hubconfig_status option \<Rightarrow> memory \<Rightarrow> (addr option \<times> memory) option" where
  "HubConfigStatus_DeepCopy = copy_struct CHubStatus () HubConfigStatus_DeepCopyInto"

definition HubConfig_DeepCopy :: "k8s_lib \<Rightarrow> copy_lib \<Rightarrow> p_hubconfig option \<Rightarrow> memory \<Rightarrow> (addr option \<times> memory) option" where
  "HubConfig_DeepCopy L C = copy_struct CHub zero_hub (HubConfig_DeepCopyInto L C)"

definition HubConfigList_DeepCopy :: "k8s_lib \<Rightarrow> copy_lib \<Rightarrow> p_hubconfig_list option \<Rightarrow> memory \<Rightarrow> (addr option \<times> memory) option" where
  "HubConfigList_DeepCopy L C =
     copy_struct CHubList \<lparr>phl_type = zero_type, phl_meta = zero_list_meta, phl_items = None\<rparr> (HubConfigList_DeepCopyInto L C)"

text \<open>
  A \<open>runtime.Object\<close> that is not nil: a pointer with its dynamic type.  A nil pointer becomes the nil interface.
\<close>

datatype runtime_object =
    RSpokeCluster addr
  | RSpokeClusterList addr
  | RHubConfig addr
  | RHubConfigList addr

definition SpokeCluster_DeepCopyObject :: "copy_lib \<Rightarrow> p_spokecluster option \<Rightarrow> memory \<Rightarrow> (runtime_object option \<times> memory) option" where
  "SpokeCluster_DeepCopyObject C p h = do {
     (c, h1) \<leftarrow> SpokeCluster_DeepCopy C p h;
     case c of Some a \<Rightarrow> Some (Some (RSpokeCluster a), h1) | None \<Rightarrow> Some (None, h1) }"

definition SpokeClusterList_DeepCopyObject :: "copy_lib \<Rightarrow> p_spokecluster_list option \<Rightarrow> memory \<Rightarrow> (runtime_object option \<times> memory) option" where
  "SpokeClusterList_DeepCopyObject C p h = do {
     (c, h1) \<leftarrow> SpokeClusterList_DeepCopy C p h;
     case c of Some a \<Rightarrow> Some (Some (RSpokeClusterList a), h1) | None \<Rightarrow> Some (None, h1) }"

definition HubConfig_DeepCopyObject :: "k8s_lib \<Rightarrow> copy_lib \<Rightarrow> p_hubconfig option \<Rightarrow> memory \<Rightarrow> (runtime_object option \<times> memory) option" where
  "HubConfig_DeepCopyObject L C p h = do {
     (c, h1) \<leftarrow> HubConfig_DeepCopy L C p h;
     case c of Some a \<Rightarrow> Some (Some (RHubConfig a), h1) | None \<Rightarrow> Some (None, h1) }"

definition HubConfigList_DeepCopyObject :: "k8s_lib \<Rightarrow> copy_lib \<Rightarrow> p_hubconfig_list option \<Rightarrow> memory \<Rightarrow> (runtime_object option \<times> memory) option" where
  "HubConfigList_DeepCopyObject L C p h = do {
     (c, h1) \<leftarrow> HubConfigList_DeepCopy L C p h;
     case c of Some a \<Rightarrow> Some (Some (RHubConfigList a), h1) | None \<Rightarrow> Some (None, h1) }"

section \<open>Every one of them is a deep copy\<close>

definition read_credential :: "memory \<Rightarrow> p_credential_source \<Rightarrow> credential_source_spec option" where
  "read_credential h x = do {
     s \<leftarrow> read_field CSecret at_secret read_plain h (pcs_secret x);
     m \<leftarrow> read_field CMce at_mce read_plain h (pcs_mce x);
     Some \<lparr>cs_secret = s, cs_mce = m\<rparr> }"

definition read_spokespec :: "memory \<Rightarrow> p_spokecluster_spec \<Rightarrow> spokecluster_spec option" where
  "read_spokespec h x = map_option
     (\<lambda>c. \<lparr>sp_apiServer = psp_apiServer x, sp_credentialSource = c\<rparr>) (read_credential h (psp_credentialSource x))"

definition read_spokestatus :: "memory \<Rightarrow> p_spokecluster_status \<Rightarrow> condition list option" where
  "read_spokestatus h x = map_option nil_empty (read_slice CConditions at_conditions read_plain h (pst_conditions x))"

definition read_spoke :: "memory \<Rightarrow> p_spokecluster \<Rightarrow> (type_meta \<times> spokecluster) option" where
  "read_spoke h x = do {
     m \<leftarrow> read_meta h (psc_meta x);
     sp \<leftarrow> read_spokespec h (psc_spec x);
     cs \<leftarrow> read_spokestatus h (psc_status x);
     Some (psc_type x, \<lparr>sc_meta = m, sc_spec = sp, sc_conditions = cs\<rparr>) }"

definition read_spokelist :: "memory \<Rightarrow> p_spokecluster_list \<Rightarrow> (type_meta \<times> list_meta \<times> (type_meta \<times> spokecluster) list option) option" where
  "read_spokelist h x = do {
     m \<leftarrow> read_list_meta h (psl_meta x);
     xs \<leftarrow> read_slice CSpokes at_spokes read_spoke h (psl_items x);
     Some (psl_type x, m, xs) }"

definition read_selector :: "memory \<Rightarrow> p_mce_selector \<Rightarrow> mce_selector option" where
  "read_selector h x = map_option (\<lambda>m. \<lparr>ms_matchLabels = m\<rparr>) (read_map h (pms_matchLabels x))"

definition read_config :: "memory \<Rightarrow> p_mce_config \<Rightarrow> mce_config option" where
  "read_config h x = map_option (\<lambda>s. \<lparr>mc_selector = s\<rparr>) (read_field CSelector at_selector read_selector h (pmc_selector x))"

definition read_hubspec :: "memory \<Rightarrow> p_hubconfig_spec \<Rightarrow> hubconfig_spec option" where
  "read_hubspec h x = map_option
     (\<lambda>m. \<lparr>hs_mode = phs_mode x, hs_mce = m\<rparr>) (read_field CConfig at_config read_config h (phs_mce x))"

definition read_hub :: "memory \<Rightarrow> p_hubconfig \<Rightarrow> (type_meta \<times> hubconfig) option" where
  "read_hub h x = do {
     m \<leftarrow> read_meta h (phc_meta x);
     sp \<leftarrow> read_hubspec h (phc_spec x);
     Some (phc_type x, \<lparr>hc_meta = m, hc_spec = sp\<rparr>) }"

definition read_hublist :: "memory \<Rightarrow> p_hubconfig_list \<Rightarrow> (type_meta \<times> list_meta \<times> (type_meta \<times> hubconfig) list option) option" where
  "read_hublist h x = do {
     m \<leftarrow> read_list_meta h (phl_meta x);
     xs \<leftarrow> read_slice CHubs at_hubs read_hub h (phl_items x);
     Some (phl_type x, m, xs) }"

text \<open>The same value, up to the order in which the association list of a map holds its entries.\<close>

definition same_spoke :: "spokecluster \<Rightarrow> spokecluster \<Rightarrow> bool" where
  "same_spoke a b \<longleftrightarrow> same_meta (sc_meta a) (sc_meta b) \<and> sc_spec a = sc_spec b \<and> sc_conditions a = sc_conditions b"

definition same_selector :: "mce_selector \<Rightarrow> mce_selector \<Rightarrow> bool" where
  "same_selector a b \<longleftrightarrow> rel_option same_map (ms_matchLabels a) (ms_matchLabels b)"

definition same_config :: "mce_config \<Rightarrow> mce_config \<Rightarrow> bool" where
  "same_config a b \<longleftrightarrow> rel_option same_selector (mc_selector a) (mc_selector b)"

definition same_hubspec :: "hubconfig_spec \<Rightarrow> hubconfig_spec \<Rightarrow> bool" where
  "same_hubspec a b \<longleftrightarrow> hs_mode a = hs_mode b \<and> rel_option same_config (hs_mce a) (hs_mce b)"

definition same_hub :: "hubconfig \<Rightarrow> hubconfig \<Rightarrow> bool" where
  "same_hub a b \<longleftrightarrow> same_meta (hc_meta a) (hc_meta b) \<and> same_hubspec (hc_spec a) (hc_spec b)"

lemma copier_secret: "copier read_plain read_plain (=) SecretCredentialSource_DeepCopyInto"
  using copier_plain by (simp add: SecretCredentialSource_DeepCopyInto_def [abs_def])

lemma copier_mce: "copier read_plain read_plain (=) MCECredentialSource_DeepCopyInto"
  using copier_plain by (simp add: MCECredentialSource_DeepCopyInto_def [abs_def])

lemma copier_hubstatus: "copier read_plain read_plain (=) HubConfigStatus_DeepCopyInto"
  by unfold_locales (auto simp: HubConfigStatus_DeepCopyInto_def)

lemmas copy_rel = option.rel_eq list.rel_eq prod.rel_eq rel_prod_inject

lemma copier_credential: "copier read_credential read_credential (=) CredentialSource_DeepCopyInto"
  by (rule copier_wrap [where get = "\<lambda>x. (pcs_secret x, pcs_mce x)" and put = "\<lambda>(s, m) x. x\<lparr>pcs_secret := s, pcs_mce := m\<rparr>"
        and F = "\<lambda>x (s, m). \<lparr>cs_secret = s, cs_mce = m\<rparr>",
        OF copier_pair [OF copier_field [where zero = zero_secret, OF copier_secret cell.sel(1)] copier_field [where zero = zero_mce, OF copier_mce cell.sel(2)]]])
    (auto simp: read_credential_def CredentialSource_DeepCopyInto_def copy_rel split: Option.bind_splits)

lemma copier_spokespec: "copier read_spokespec read_spokespec (=) SpokeClusterSpec_DeepCopyInto"
  by (rule copier_wrap [where get = psp_credentialSource and put = "\<lambda>c x. x\<lparr>psp_credentialSource := c\<rparr>"
        and F = "\<lambda>x c. \<lparr>sp_apiServer = psp_apiServer x, sp_credentialSource = c\<rparr>", OF copier_credential])
    (auto simp: read_spokespec_def SpokeClusterSpec_DeepCopyInto_def)

lemma copier_spokestatus:
  assumes "meta_copies C"
  shows "copier read_spokestatus read_spokestatus (=) (SpokeClusterStatus_DeepCopyInto C)"
  by (rule copier_wrap [where get = pst_conditions and put = "\<lambda>c x. x\<lparr>pst_conditions := c\<rparr>" and F = "\<lambda>x. nil_empty",
        OF copier_slice [OF meta_copies.condition_copier [OF assms] cell.sel(15)]])
    (auto simp: read_spokestatus_def SpokeClusterStatus_DeepCopyInto_def copy_rel)

lemma copier_spoke:
  assumes "meta_copies C"
  shows "copier read_spoke read_spoke (rel_prod (=) same_spoke) (SpokeCluster_DeepCopyInto C)"
  by (rule copier_wrap [where get = "\<lambda>x. (psc_meta x, psc_spec x, psc_status x)"
        and put = "\<lambda>(m, sp, st) x. x\<lparr>psc_meta := m, psc_spec := sp, psc_status := st\<rparr>"
        and F = "\<lambda>x (m, sp, cs). (psc_type x, \<lparr>sc_meta = m, sc_spec = sp, sc_conditions = cs\<rparr>)",
        OF copier_pair [OF meta_copies.meta_copier [OF assms] copier_pair [OF copier_spokespec copier_spokestatus [OF assms]]]])
    (auto simp: read_spoke_def SpokeCluster_DeepCopyInto_def same_spoke_def copy_rel split: Option.bind_splits)

lemma copier_spokelist:
  assumes "meta_copies C"
  shows "copier read_spokelist read_spokelist (rel_prod (=) (rel_prod (=) (rel_option (list_all2 (rel_prod (=) same_spoke)))))
    (SpokeClusterList_DeepCopyInto C)"
  by (rule copier_wrap [where get = "\<lambda>x. (psl_meta x, psl_items x)"
        and put = "\<lambda>(m, xs) x. x\<lparr>psl_meta := m, psl_items := xs\<rparr>" and F = "\<lambda>x (m, xs). (psl_type x, m, xs)",
        OF copier_pair [OF meta_copies.list_meta_copier [OF assms] copier_slice [where zero = zero_spoke, OF copier_spoke [OF assms] cell.sel(16)]]])
    (auto simp: read_spokelist_def SpokeClusterList_DeepCopyInto_def split: Option.bind_splits)

lemma copier_selector:
  assumes "map_ranging L"
  shows "copier read_selector read_selector same_selector (MCESelector_DeepCopyInto L)"
  by (rule copier_wrap [where get = pms_matchLabels and put = "\<lambda>m x. x\<lparr>pms_matchLabels := m\<rparr>"
        and F = "\<lambda>x m. \<lparr>ms_matchLabels = m\<rparr>", OF copier_map [OF assms]])
    (auto simp: read_selector_def MCESelector_DeepCopyInto_def same_selector_def)

lemma copier_config:
  assumes "map_ranging L"
  shows "copier read_config read_config same_config (MCEConfig_DeepCopyInto L)"
  by (rule copier_wrap [where get = pmc_selector and put = "\<lambda>s x. x\<lparr>pmc_selector := s\<rparr>"
        and F = "\<lambda>x s. \<lparr>mc_selector = s\<rparr>", OF copier_field [OF copier_selector [OF assms] cell.sel(8)]])
    (auto simp: read_config_def MCEConfig_DeepCopyInto_def same_config_def)

lemma copier_hubspec:
  assumes "map_ranging L"
  shows "copier read_hubspec read_hubspec same_hubspec (HubConfigSpec_DeepCopyInto L)"
  by (rule copier_wrap [where get = phs_mce and put = "\<lambda>m x. x\<lparr>phs_mce := m\<rparr>"
        and F = "\<lambda>x m. \<lparr>hs_mode = phs_mode x, hs_mce = m\<rparr>", OF copier_field [OF copier_config [OF assms] cell.sel(9)]])
    (auto simp: read_hubspec_def HubConfigSpec_DeepCopyInto_def same_hubspec_def)

lemma copier_hub:
  assumes "map_ranging L" and "meta_copies C"
  shows "copier read_hub read_hub (rel_prod (=) same_hub) (HubConfig_DeepCopyInto L C)"
  by (rule copier_wrap [where get = "\<lambda>x. (phc_meta x, phc_spec x)"
        and put = "\<lambda>(m, sp) x. x\<lparr>phc_meta := m, phc_spec := sp\<rparr>" and F = "\<lambda>x (m, sp). (phc_type x, \<lparr>hc_meta = m, hc_spec = sp\<rparr>)",
        OF copier_pair [OF meta_copies.meta_copier [OF assms(2)] copier_hubspec [OF assms(1)]]])
    (auto simp: read_hub_def HubConfig_DeepCopyInto_def same_hub_def split: Option.bind_splits)

lemma copier_hublist:
  assumes "map_ranging L" and "meta_copies C"
  shows "copier read_hublist read_hublist (rel_prod (=) (rel_prod (=) (rel_option (list_all2 (rel_prod (=) same_hub)))))
    (HubConfigList_DeepCopyInto L C)"
  by (rule copier_wrap [where get = "\<lambda>x. (phl_meta x, phl_items x)"
        and put = "\<lambda>(m, xs) x. x\<lparr>phl_meta := m, phl_items := xs\<rparr>" and F = "\<lambda>x (m, xs). (phl_type x, m, xs)",
        OF copier_pair [OF meta_copies.list_meta_copier [OF assms(2)] copier_slice [where zero = zero_hub, OF copier_hub [OF assms] cell.sel(17)]]])
    (auto simp: read_hublist_def HubConfigList_DeepCopyInto_def split: Option.bind_splits)

section \<open>Copies that exist\<close>

text \<open>An executable instance of the library's copies, built like the generated ones.\<close>

definition ref_copy_meta :: "p_object_meta \<Rightarrow> memory \<Rightarrow> (p_object_meta \<times> memory) option" where
  "ref_copy_meta x h = do {
     (l, h1) \<leftarrow> copy_map ref_lib (pm_labels x) h;
     (f, h2) \<leftarrow> copy_slice CStrings at_strings [] (\<lambda>x h. Some (x, h)) (pm_finalizers x) h1;
     (r, h3) \<leftarrow> copy_slice COwners at_owners \<lparr>or_kind = [], or_name = [], or_uid = [], or_controller = False\<rparr>
       (\<lambda>x h. Some (x, h)) (pm_owners x) h2;
     (d, h4) \<leftarrow> copy_field CTime at_time zero_time (\<lambda>x h. Some (x, h)) (pm_deletion x) h3;
     Some (x\<lparr>pm_labels := l, pm_finalizers := f, pm_owners := r, pm_deletion := d\<rparr>, h4) }"

definition ref_copy_list_meta :: "p_list_meta \<Rightarrow> memory \<Rightarrow> (p_list_meta \<times> memory) option" where
  "ref_copy_list_meta x h = do {
     (n, h1) \<leftarrow> copy_field CInt at_int 0 (\<lambda>x h. Some (x, h)) (plm_remaining x) h;
     Some (x\<lparr>plm_remaining := n\<rparr>, h1) }"

definition ref_copies :: copy_lib where
  "ref_copies = \<lparr>lib_copy_meta = ref_copy_meta, lib_copy_list_meta = ref_copy_list_meta, lib_copy_condition = (\<lambda>c h. Some (c, h))\<rparr>"

lemma copier_ref_meta: "copier read_meta read_meta same_meta ref_copy_meta"
  by (rule copier_wrap [where get = "\<lambda>x. (pm_labels x, pm_finalizers x, pm_owners x, pm_deletion x)"
        and put = "\<lambda>(l, f, r, d) x. x\<lparr>pm_labels := l, pm_finalizers := f, pm_owners := r, pm_deletion := d\<rparr>"
        and F = "\<lambda>m (l, f, r, d). \<lparr>m_name = pm_name m, m_namespace = pm_namespace m, m_labels = l, m_finalizers = nil_empty f,
           m_owners = nil_empty r, m_deletion = d, m_generation = pm_generation m, m_version = pm_version m, m_uid = pm_uid m\<rparr>",
        OF copier_pair [OF copier_map [OF ref_library.map_ranging_axioms]
          copier_pair [OF copier_slice [where zero = "[]", OF copier_plain cell.sel(18)]
            copier_pair [OF copier_slice [where zero = "\<lparr>or_kind = [], or_name = [], or_uid = [], or_controller = False\<rparr>",
                  OF copier_plain cell.sel(19)]
              copier_field [where zero = zero_time, OF copier_plain cell.sel(20)]]]]])
    (auto simp: read_meta_def ref_copy_meta_def same_meta_def copy_rel split: Option.bind_splits)

lemma copier_ref_list_meta: "copier read_list_meta read_list_meta (=) ref_copy_list_meta"
  by (rule copier_wrap [where get = plm_remaining and put = "\<lambda>n x. x\<lparr>plm_remaining := n\<rparr>"
        and F = "\<lambda>m n. \<lparr>lm_version = plm_version m, lm_continue = plm_continue m, lm_remaining = n\<rparr>",
        OF copier_field [where zero = 0, OF copier_plain cell.sel(21)]])
    (auto simp: read_list_meta_def ref_copy_list_meta_def copy_rel)

interpretation ref_copies: meta_copies ref_copies
  by (rule meta_copies.intro) (simp_all add: ref_copies_def copier_ref_meta copier_ref_list_meta copier_plain)

interpretation credential_copy: copier read_credential read_credential "(=)" CredentialSource_DeepCopyInto
  by (rule copier_credential)

interpretation spokespec_copy: copier read_spokespec read_spokespec "(=)" SpokeClusterSpec_DeepCopyInto
  by (rule copier_spokespec)

interpretation config_copy: copier read_config read_config same_config "MCEConfig_DeepCopyInto ref_lib"
  by (rule copier_config [OF ref_library.map_ranging_axioms])

interpretation spoke_copy: copier read_spoke read_spoke "rel_prod (=) same_spoke" "SpokeCluster_DeepCopyInto ref_copies"
  by (rule copier_spoke [OF ref_copies.meta_copies_axioms])

interpretation hub_copy: copier read_hub read_hub "rel_prod (=) same_hub" "HubConfig_DeepCopyInto ref_lib ref_copies"
  by (rule copier_hub [OF ref_library.map_ranging_axioms ref_copies.meta_copies_axioms])

section \<open>Properties\<close>

text \<open>
  C39.  \<open>DeepCopy\<close> of a SpokeCluster, as taken before a status patch, returns a pointer to a new struct with the same value.  The copy keeps
  this value whatever is later written to memory that existed before, so the assignments to the conditions of the original do not reach
  it; and the original keeps its value whatever is written through the copy.  A nil receiver gives nil.
\<close>

theorem spokecluster_copy_isolated:
  assumes "meta_copies C" and "read_spoke h x = Some (t, sc)"
  shows "SpokeCluster_DeepCopy C None h = Some (None, h) \<and>
    (\<exists>a h' sc'. SpokeCluster_DeepCopy C (Some x) h = Some (Some a, h') \<and> length h \<le> a \<and> same_spoke sc sc' \<and>
      (\<forall>g. agree (length h) h' g \<longrightarrow> read_field CSpoke at_spoke read_spoke g (Some a) = Some (Some (t, sc'))) \<and>
      agree 0 h h' \<and> (\<forall>g. agree 0 h g \<longrightarrow> read_spoke g x = Some (t, sc)))"
proof -
  note spoke = copier_spoke [OF assms(1)]
  obtain a h' v where c: "new_copy CSpoke zero_spoke (SpokeCluster_DeepCopyInto C) x h = Some (a, h')" "agree 0 h h'"
      "rel_prod (=) same_spoke (t, sc) v"
      "\<And>g. agree (length h) h' g \<Longrightarrow> read_field CSpoke at_spoke read_spoke g (Some a) = Some (Some v)"
    using new_copy_copies [OF spoke cell.sel(6) assms(2)] by metis
  moreover obtain sc' where "v = (t, sc')" "same_spoke sc sc'" using c(3) by (cases v) auto
  moreover have "length h \<le> a" using c(1) by (auto simp: new_copy_def alloc_def bind_eq_Some_conv)
  ultimately show ?thesis using copier.stable [OF spoke assms(2)]
    by (simp add: SpokeCluster_DeepCopy_def copy_struct_def) blast
qed

text \<open>A SpokeCluster in memory: two conditions in an array of three, a Secret as the source of credentials, labels and a finalizer.\<close>

definition example_memory :: memory where
  "example_memory =
    [CConditions [zero_condition, zero_condition\<lparr>c_type := ''Ready''\<rparr>, zero_condition\<lparr>c_type := ''Connected''\<rparr>],
     CSecret \<lparr>scs_name = ''s'', scs_namespace = ''n''\<rparr>, CMap [(''env'', ''prod'')], CStrings [''f'']]"

definition example_spoke :: p_spokecluster where
  "example_spoke = zero_spoke
    \<lparr>psc_meta := zero_meta\<lparr>pm_name := ''spoke'', pm_labels := Some 2, pm_finalizers := Some \<lparr>sl_array = 3, sl_offset = 0, sl_len = 1\<rparr>\<rparr>,
     psc_spec := \<lparr>psp_apiServer = ''https://a'', psp_credentialSource = \<lparr>pcs_secret = Some 1, pcs_mce = None\<rparr>\<rparr>,
     psc_status := \<lparr>pst_conditions = Some \<lparr>sl_array = 0, sl_offset = 1, sl_len = 2\<rparr>\<rparr>\<rparr>"

definition example_value :: spokecluster where
  "example_value =
    \<lparr>sc_meta = (new_meta [] ''spoke'')\<lparr>m_labels := Some [(''env'', ''prod'')], m_finalizers := [''f'']\<rparr>,
     sc_spec = \<lparr>sp_apiServer = ''https://a'',
       sp_credentialSource = \<lparr>cs_secret = Some \<lparr>scs_name = ''s'', scs_namespace = ''n''\<rparr>, cs_mce = None\<rparr>\<rparr>,
     sc_conditions = [zero_condition\<lparr>c_type := ''Ready''\<rparr>, zero_condition\<lparr>c_type := ''Connected''\<rparr>]\<rparr>"

lemma read_example: "read_spoke example_memory example_spoke = Some (zero_type, example_value)"
  by (simp add: read_spoke_def read_meta_def read_map_def read_field_def read_slice_def read_elems_def read_spokespec_def read_credential_def
      read_spokestatus_def load_def nil_empty_def new_meta_def example_memory_def example_spoke_def example_value_def)

theorem spokecluster_copy_isolated_witness:
  "SpokeCluster_DeepCopy ref_copies None example_memory = Some (None, example_memory) \<and>
    (\<exists>a h' sc'. SpokeCluster_DeepCopy ref_copies (Some example_spoke) example_memory = Some (Some a, h') \<and>
      length example_memory \<le> a \<and> same_spoke example_value sc' \<and>
      (\<forall>g. agree (length example_memory) h' g \<longrightarrow> read_field CSpoke at_spoke read_spoke g (Some a) = Some (Some (zero_type, sc'))) \<and>
      agree 0 example_memory h' \<and> (\<forall>g. agree 0 example_memory g \<longrightarrow> read_spoke g example_spoke = Some (zero_type, example_value)))"
  by (rule spokecluster_copy_isolated [OF ref_copies.meta_copies_axioms read_example])

text \<open>
  C40.  \<open>DeepCopyObject\<close> of a list of HubConfigs, with which the client copies what it hands out, returns the nil interface for a
  nil list, and otherwise a \<open>*HubConfigList\<close> that shows the same items in the same order, with the same selectors, whatever order
  Go visits their labels in.  The copy and the original share no memory.
\<close>

theorem hubconfig_list_copy_isolated:
  assumes "map_ranging L" and "meta_copies C" and "read_receiver read_hublist h p = Some v"
  shows "\<exists>r h' v'. HubConfigList_DeepCopyObject L C p h = Some (r, h') \<and> agree 0 h h' \<and>
    (\<forall>g. agree 0 h g \<longrightarrow> read_receiver read_hublist g p = Some v) \<and>
    (case r of
       None \<Rightarrow> p = None
     | Some x \<Rightarrow> (\<exists>a t m is is'. x = RHubConfigList a \<and> v = Some (t, m, is) \<and> rel_option (list_all2 (rel_prod (=) same_hub)) is is' \<and>
         (\<forall>g. agree (length h) h' g \<longrightarrow> read_field CHubList at_hublist read_hublist g (Some a) = Some (Some (t, m, is')))))"
proof -
  note hubs = copier_struct [where mk = CHubList and at = at_hublist and
      zero = "\<lparr>phl_type = zero_type, phl_meta = zero_list_meta, phl_items = None\<rparr>", OF copier_hublist [OF assms(1,2)] cell.sel(13)]
  obtain y h' v' where c: "HubConfigList_DeepCopy L C p h = Some (y, h')" "agree 0 h h'"
      "rel_option (rel_prod (=) (rel_prod (=) (rel_option (list_all2 (rel_prod (=) same_hub))))) v v'"
      "\<And>g. agree (length h) h' g \<Longrightarrow> read_field CHubList at_hublist read_hublist g y = Some v'"
    using copier.copies [OF hubs assms(3)] unfolding HubConfigList_DeepCopy_def by blast
  note stable = copier.stable [OF hubs assms(3)]
  show ?thesis
  proof (cases p)
    case None
    with assms(3) have "HubConfigList_DeepCopyObject L C p h = Some (None, h)"
      by (simp add: HubConfigList_DeepCopyObject_def HubConfigList_DeepCopy_def copy_struct_def)
    with None stable show ?thesis by (intro exI [of _ None] exI [of _ h]) simp
  next
    case (Some x)
    with assms(3) obtain t m "is" where v: "v = Some (t, m, is)" by (auto simp: read_receiver_Some)
    with c(3) obtain is' where v': "v' = Some (t, m, is')" "rel_option (list_all2 (rel_prod (=) same_hub)) is is'"
      by (auto simp: option_rel_Some1)
    from c(1) Some obtain a where "y = Some a"
      by (auto simp: HubConfigList_DeepCopy_def copy_struct_def bind_eq_Some_conv)
    with c(1,2,4) v v' stable show ?thesis
      by (intro exI [of _ "Some (RHubConfigList a)"] exI [of _ h']) (auto simp: HubConfigList_DeepCopyObject_def)
  qed
qed

text \<open>A list of one HubConfig whose selector has two labels.\<close>

definition example_hubs :: memory where
  "example_hubs =
    [CMap [(''a'', ''1''), (''b'', ''2'')], CSelector \<lparr>pms_matchLabels = Some 0\<rparr>, CConfig \<lparr>pmc_selector = Some 1\<rparr>,
     CHubs [zero_hub\<lparr>phc_spec := \<lparr>phs_mode = ''mce'', phs_mce = Some 2\<rparr>\<rparr>]]"

definition example_hublist :: p_hubconfig_list where
  "example_hublist = \<lparr>phl_type = zero_type, phl_meta = zero_list_meta, phl_items = Some \<lparr>sl_array = 3, sl_offset = 0, sl_len = 1\<rparr>\<rparr>"

abbreviation example_hub :: hubconfig where
  "example_hub \<equiv> \<lparr>hc_meta = new_meta [] [], hc_spec = \<lparr>hs_mode = ''mce'',
     hs_mce = Some \<lparr>mc_selector = Some \<lparr>ms_matchLabels = Some [(''a'', ''1''), (''b'', ''2'')]\<rparr>\<rparr>\<rparr>\<rparr>"

lemma read_example_hubs:
  "read_receiver read_hublist example_hubs (Some example_hublist) =
     Some (Some (zero_type, \<lparr>lm_version = [], lm_continue = [], lm_remaining = None\<rparr>, Some [(zero_type, example_hub)]))"
  by (simp add: read_receiver_def read_hublist_def read_hub_def read_hubspec_def read_config_def read_selector_def read_list_meta_def
      read_meta_def read_map_def read_field_def read_slice_def read_elems_def load_def nil_empty_def new_meta_def
      example_hubs_def example_hublist_def)

theorem hubconfig_list_copy_isolated_witness:
  "\<exists>r h' a is'. HubConfigList_DeepCopyObject ref_lib ref_copies (Some example_hublist) example_hubs = Some (r, h') \<and>
    r = Some (RHubConfigList a) \<and> list_all2 (rel_prod (=) same_hub) [(zero_type, example_hub)] is' \<and>
    read_field CHubList at_hublist read_hublist (store 0 (CMap []) h') (Some a) =
      Some (Some (zero_type, \<lparr>lm_version = [], lm_continue = [], lm_remaining = None\<rparr>, Some is'))"
proof -
  obtain r h' v' where c: "HubConfigList_DeepCopyObject ref_lib ref_copies (Some example_hublist) example_hubs = Some (r, h')"
      "agree 0 example_hubs h'"
      "case r of None \<Rightarrow> False
     | Some x \<Rightarrow> (\<exists>a is'. x = RHubConfigList a \<and> rel_option (list_all2 (rel_prod (=) same_hub)) (Some [(zero_type, example_hub)]) is' \<and>
         (\<forall>g. agree (length example_hubs) h' g \<longrightarrow> read_field CHubList at_hublist read_hublist g (Some a) =
            Some (Some (zero_type, \<lparr>lm_version = [], lm_continue = [], lm_remaining = None\<rparr>, is'))))"
    using hubconfig_list_copy_isolated [OF ref_library.map_ranging_axioms ref_copies.meta_copies_axioms read_example_hubs]
    by (auto split: option.splits)
  have "agree (length example_hubs) h' (store 0 (CMap []) h')"
    by (auto simp: agree_def store_def example_hubs_def nth_list_update)
  with c show ?thesis by (fastforce split: option.splits simp: option_rel_Some1)
qed

end
