(* ===== verification/Spec2Isabelle.thy ===== *)
theory Spec2Isabelle
  imports Progress Deep_Copy
begin

text \<open>
  \<^bold>\<open>The program.\<close>  lightspeed-hub is a Kubernetes operator that runs on a hub cluster and manages a fleet of spoke
  clusters.  It has four active parts, built and started by \<^verbatim>\<open>cmd/main.go\<close>:

  \<^item> the SpokeCluster controller (\<^verbatim>\<open>internal/controller/spokecluster_controller.go\<close>) turns the credentials of a spoke into a standing
    kubeconfig, checks the connection, provisions accounts on the spoke, obtains and rotates the token of the alerts adapter, and reports
    conditions; it undoes all of this when the spoke is deleted or no longer to be managed;
  \<^item> the HubConfig controller (\<^verbatim>\<open>hubconfig_controller.go\<close>, \<^verbatim>\<open>adapter_deployment.go\<close>) keeps the adapter stack on the hub;
  \<^item> the discovery controller (\<^verbatim>\<open>mce_discovery_controller.go\<close>) enrols ManagedClusters as SpokeClusters and gives
    each one the two companions (a ManagedServiceAccount and a ManifestWork) through which the hub gets its access;
  \<^item> the health handler (\<^verbatim>\<open>spoke_health_handler.go\<close>) dials every spoke periodically and flips the condition \<open>Connected\<close>.

  They share no memory; they interact through the objects on the hub.  They use two libraries of their own,
  \<^verbatim>\<open>internal/credential\<close> and \<^verbatim>\<open>internal/provisioner\<close>, and the types of \<^verbatim>\<open>api/v1alpha1\<close>.

  \<^bold>\<open>How code is modelled.\<close>  A Go function that talks to a cluster is a program (\<open>prog\<close>, Kube_Interaction): a tree of requests, each continued by a
  function of the response, ending in a result or a panic (a write to a nil map, a nil pointer, a ticker with a bad
  interval).  Errors are values of \<open>go_error\<close> (Go_Errors), with the texts and the wrapping of the source, so that \<open>errors.Is\<close> and \<open>errors.Join\<close> are
  functions on them.  Structs are records, fields and constants keep their names where possible, nil maps and pointers are
  \<open>None\<close>.  Loops over slices and maps are recursive functions; the order in which Go visits a map is a parameter.  Loops over what a server
  returned are bounded by that list, so every function is total and no fuel is needed; only the number of ticks of the health handler is a
  parameter, since that loop ends when the process is stopped.  A run is either any trace of requests and
  responses (\<open>exec\<close>: the responses are unconstrained, so it covers every failure at every point) or the run against a given server
  (\<open>run\<close>).

  \<^bold>\<open>The theories.\<close>

  \<^item> Hub_Prelude: the collections \<open>hub_consts\<close> and \<open>hub_ops\<close>, Go maps, strings and durations.  Go_Time: instants and RFC 3339, with the round
    trip of formatting and parsing.  Go_Errors: errors and the sentinel errors of the three packages.
  \<^item> Kube_Objects: the API types and the Kubernetes objects in use.  Kube_Interaction: requests, programs, runs, and the reasoning about
    them: \<open>all_reqs\<close> (every request satisfies a predicate), \<open>never_panics\<close>, \<open>guarded\<close> (every request is justified by the events before it).
  \<^item> Kube_Library: the third-party functions the code calls are fields of the record \<open>k8s_lib\<close>, and their documented behaviour is stated in the locales
    \<open>status_conditions\<close>, \<open>finalizers\<close>, \<open>map_ranging\<close>, \<open>kubeconfig_codec\<close>, \<open>controller_references\<close>, \<open>nested_fields\<close> and \<open>event_predicates\<close>.
    Kube_Server: the locale \<open>api_server\<close> is what is documented of an API server that can be reached, the refusal to change immutable fields (the
    \<open>roleRef\<close> of a binding) included.  Ref_Library and Ref_Server interpret them on an executable
    library and an executable cluster, which also serve the witnesses.
  \<^item> Credential: \<^verbatim>\<open>internal/credential\<close>.  The Go interface of a credential source is the locale \<open>credential_source\<close>,
    interpreted for its three implementations.  Provisioner: \<^verbatim>\<open>internal/provisioner\<close>.
  \<^item> Adapter_Deployment and HubConfig_Controller: the HubConfig controller.
  \<^item> Spoke_Status, Spoke_Adapters, Spoke_Controller: the SpokeCluster controller.  The function fields of its struct, which tests replace,
    have their contract in the locale \<open>spoke_fields\<close>.
  \<^item> Mce_Discovery: the discovery controller.  Health_Handler: the health handler.  Cmd_Main: flags and construction.
  \<^item> Deep_Copy: the generated deep copies of \<^verbatim>\<open>api/v1alpha1/zz_generated.deepcopy.go\<close>, on an explicit memory with pointers, slices
    and maps.  The locale \<open>copier\<close> is what a deep copy promises; it is interpreted for the generated functions.
  \<^item> Permissions: the RBAC markers of the source and the manifests pushed to a spoke, as rules.  Concurrency: all parts
    running at the same time, as a step relation.  Progress: a deletion is carried through on a documented hub; its locale \<open>hub_server\<close> leaves the answers of
    the spokes open, and is interpreted both on the reference server and on one that reaches no spoke.

  \<^bold>\<open>What is proved.\<close>  For each operation its behaviour in every run, errors included (which requests in which order, which error comes back), and,
  on a server as documented, what is stored afterwards, as a refinement of a specification (kept or created, ensured, cleaned up).  For the
  controllers: a spoke is managed, cleaned up and reported ready only when the events of the reconcile justify it (ready: it answered, everything was
  provisioned, its adapter credential was stored and announced); finalizers come first and
  go last; discovery writes only what it owns, and deletes the account of a spoke only after it has dealt with the ManifestWork.  For the whole: every run returns; the permissions on the hub
  and on the spokes suffice and nothing is granted that is not held; no interleaving touches an object outside
  the footprint; a SpokeCluster that is deleted goes away, whatever its spoke answers; a patch of the health handler wakes the controller exactly when it changes the
  stored \<open>Connected\<close> status.  For the generated code: a deep copy has the value of its original
  and shares no memory with it.  Where the code does something else than its comments say, loses an update, or is stuck (on a binding whose
  \<open>roleRef\<close> was changed), a theorem says so.

  \<^bold>\<open>Not modelled.\<close>  Log lines; metrics; contexts and their cancellation (a request that is cut short is a request that failed); the parsing of
  flags; the construction of the manager and of the watches by builder calls (the predicates and mapping functions passed to them are modelled);
  registration of the types with the runtime scheme; the transition times of conditions, which the library fills in; fields of
  Kubernetes objects that the code neither reads nor writes; TypeMeta and ListMeta, but for their copies.  The mutex of the discovery controller guards one flag and is not needed for its
  single reconcile key.  Tests, deployment manifests and documentation are not part of the program.
\<close>

section \<open>Composition\<close>

lemma all_reqs_report_connected:
  assumes "status_conditions L" and "\<And>st new. connected_set st sc new \<Longrightarrow> P (StatusPatch sc new)"
  shows "all_reqs P (report_connected L sc e)"
  by (cases e; cases "condition_of conditionTypeConnected (sc_conditions sc)")
    (auto simp: report_connected_def connected_verdict_def Let_def client_status_patch_def status_conditions.find_is_condition_of [OF assms(1)]
      intro!: assms(2) [OF connected_set_new [OF assms(1)]])

text \<open>What a patch that changes \<open>Connected\<close> does to the stored object, and to the controllers that watch it.\<close>

definition patch_effect :: "k8s_lib \<Rightarrow> spokecluster \<Rightarrow> spokecluster \<Rightarrow> spokecluster \<Rightarrow> bool" where
  "patch_effect L new before after \<longleftrightarrow> connected_status after = connected_status new \<and>
    spoke_update_event L before after = (connected_status before \<noteq> connected_status new) \<and> mce_spoke_update L before after = []"

lemma run_connected_patch:
  assumes "api_server H objs" and "status_conditions L" and "event_predicates L" and "connected_set st old new"
    and "objs w Hub KSpokeCluster (okey (OSpokeCluster new)) = Some (OSpokeCluster before)"
  shows "\<exists>r after w'. H w (StatusPatch old new) = (r, w') \<and> resp_error r = None \<and>
    objs w' Hub KSpokeCluster (okey (OSpokeCluster new)) = Some (OSpokeCluster after) \<and> patch_effect L new before after"
proof -
  have differ: "sc_conditions old \<noteq> sc_conditions new" and same: "sc_meta old = sc_meta new" "sc_spec old = sc_spec new"
    using assms(4) by (auto simp: connected_set_def)
  from api_server.status_patch [OF assms(1,5) same] obtain r z w' where
    h: "H w (StatusPatch old new) = (r, w')" "resp_error r = None" and
    a: "admits (OSpokeCluster (before\<lparr>sc_conditions := merge_conditions old new (sc_conditions before)\<rparr>)) z" and
    g: "m_generation (obj_meta z) = m_generation (sc_meta before)" and
    st: "objs w' = store_put (objs w) Hub KSpokeCluster (okey (OSpokeCluster new)) (Some z)" by blast
  from a differ obtain after where z: "z = OSpokeCluster after" and c: "sc_conditions after = sc_conditions new"
    and d: "m_deletion (sc_meta after) = m_deletion (sc_meta before)"
    by (auto simp: admits_def merge_conditions_def)
  have "patch_effect L new before after"
    using g z c d by (auto simp: patch_effect_def connected_status_def spoke_update_event_iff [OF assms(2,3)] mce_spoke_update_def
        event_predicates.generation_changed [OF assms(3)])
  with h st z show ?thesis by (intro exI [of _ r] exI [of _ after] exI [of _ w']) simp
qed

definition woken :: "('w \<Rightarrow> req \<Rightarrow> resp \<times> 'w) \<Rightarrow> ('w \<Rightarrow> store) \<Rightarrow> k8s_lib \<Rightarrow> req \<Rightarrow> bool" where
  "woken H objs L q \<longleftrightarrow> (is_write q \<longrightarrow> (\<exists>old new. q = StatusPatch old new \<and> connected_status old \<noteq> connected_status new \<and>
    (\<forall>w before. objs w Hub KSpokeCluster (okey (OSpokeCluster new)) = Some (OSpokeCluster before) \<longrightarrow>
      (\<exists>r after w'. H w q = (r, w') \<and> resp_error r = None \<and>
        objs w' Hub KSpokeCluster (okey (OSpokeCluster new)) = Some (OSpokeCluster after) \<and> patch_effect L new before after))))"

lemma woken_read [simp]: "\<not> is_write q \<Longrightarrow> woken H objs L q"
  by (simp add: woken_def)

lemma woken_patch:
  assumes "api_server H objs" and "status_conditions L" and "event_predicates L" and "connected_set st old new"
  shows "woken H objs L (StatusPatch old new)"
proof -
  have "connected_status old \<noteq> connected_status new" using assms(4) by (auto simp: connected_set_def connected_status_def)
  with run_connected_patch [OF assms] show ?thesis unfolding woken_def by blast
qed

text \<open>
  C25.  The health handler and the SpokeCluster controller fit together.  Whatever the clusters answer and however often the
  handler ticks, the only writes it makes are status patches of SpokeClusters, each computed from a copy whose \<open>Connected\<close> status it changes.
  When such a patch reaches a SpokeCluster as it is stored at that moment, the stored \<open>Connected\<close> status becomes the one of the patch, and
  the update from the object stored before to the object stored after passes the event filter of the SpokeCluster controller exactly when
  the stored status really changed: a spoke that was lost or that recovers is reconciled, as long as the stored status was still the one the handler
  had listed; a patch that only repeats what somebody else has stored meanwhile triggers nothing.  It never starts an inventory.
\<close>

theorem health_handler_wakes_controller:
  assumes "api_server H objs" and "status_conditions L" and "event_predicates L"
  shows "all_reqs (\<lambda>q. is_write q \<longrightarrow> (\<exists>old new. q = StatusPatch old new \<and> connected_status old \<noteq> connected_status new \<and>
      (\<forall>w before. objs w Hub KSpokeCluster (okey (OSpokeCluster new)) = Some (OSpokeCluster before) \<longrightarrow>
        (\<exists>r after w'. H w q = (r, w') \<and> resp_error r = None \<and>
          objs w' Hub KSpokeCluster (okey (OSpokeCluster new)) = Some (OSpokeCluster after) \<and>
          connected_status after = connected_status new \<and>
          spoke_update_event L before after = (connected_status before \<noteq> connected_status new) \<and>
          mce_spoke_update L before after = []))))
    (Health_Start L (NewSpokeHealthHandler ns interval) n)"
proof -
  let ?P = "woken H objs L"
  let ?h = "NewSpokeHealthHandler ns interval"
  have "connected_set st sc new \<Longrightarrow> ?P (StatusPatch sc new)" for st sc new by (rule woken_patch [OF assms])
  then have report: "all_reqs ?P (report_connected L sc e)" for sc e by (rule all_reqs_report_connected [OF assms(2)])
  have dial: "all_reqs ?P (defaultCheckConnectivity cfg)" for cfg
    by (rule all_reqs_mono [OF defaultCheckConnectivity_safe(1)]) simp
  have one: "all_reqs ?P (checkSpoke L ?h sc)" for sc
    by (auto simp: checkSpoke_def NewSpokeHealthHandler_def hub_ops intro!: all_reqs_and_then report dial split: sum.splits option.splits)
  have "all_reqs ?P (check_spokes L ?h scs)" for scs by (induction scs) (auto intro!: all_reqs_and_then one)
  then have round: "all_reqs ?P (CheckAll L ?h)" by (auto simp: CheckAll_def intro!: all_reqs_and_then split: sum.splits)
  have "all_reqs ?P (check_ticks L ?h m)" for m by (induction m) (auto intro!: all_reqs_and_then round)
  then have "all_reqs ?P (Health_Start L ?h n)" by (auto simp: Health_Start_def intro!: all_reqs_and_then round)
  then show ?thesis unfolding woken_def [abs_def] patch_effect_def .
qed

text \<open>A hub with a spoke that has never been checked, and the first round of the handler on it.\<close>

definition unchecked_hub :: cluster where
  "unchecked_hub = \<lparr>objects = [(Hub, OSpokeCluster edge_spoke)], serial = 8, clock = 0\<rparr>"

theorem health_handler_wakes_controller_witness:
  "\<exists>t new a r after w'. exec (Health_Start ref_lib (NewSpokeHealthHandler ''hub'' 1) 0) (t @ [(StatusPatch edge_spoke new, a)]) (Done ()) \<and>
    ref_server unchecked_hub (StatusPatch edge_spoke new) = (r, w') \<and>
    ref_store w' Hub KSpokeCluster (ObjectKey [] ''edge'') = Some (OSpokeCluster after) \<and> spoke_update_event ref_lib edge_spoke after"
proof -
  let ?h = "NewSpokeHealthHandler ''hub'' 1"
  have "\<exists>cfg. ref_RESTConfig standing_bytes = Inr cfg"
    by (simp add: standing_bytes_def ref_RESTConfig_def ref_Write_def ref_wf_config_def buildKubeconfigAPI_def ref_load_def client_config_def Let_def)
  then obtain cfg where cfg: "ref_RESTConfig standing_bytes = Inr cfg" ..
  let ?c = "cfg\<lparr>rc_Timeout := spokeDialTimeout\<rparr>"
  let ?t = "[(ListObjs KSpokeCluster [], RList [OSpokeCluster edge_spoke]),
    (Get Hub KSecret (ObjectKey ''hub'' (StandingKubeconfigName (sc_name edge_spoke))), RObj (OSecret standing_secret)),
    (NewDiscoveryClient ?c, ROk), (ServerVersion ?c, ROk)]"
  have "\<exists>new. exec (Health_Start ref_lib ?h 0) (?t @ [(StatusPatch edge_spoke new, ROk)]) (Done ()) \<and>
      okey (OSpokeCluster new) = ObjectKey [] ''edge'' \<and> sc_meta new = sc_meta edge_spoke"
    using cfg by (auto simp: Health_Start_def CheckAll_def checkSpoke_def NewSpokeHealthHandler_def hub_ops exec_simps standing_secret_def
        defaultCheckConnectivity_def exec_Vis_iff report_connected_def connected_verdict_def edge_spoke_def ObjectKeyFromObject_def Let_def)
  then obtain new where e: "exec (Health_Start ref_lib ?h 0) (?t @ [(StatusPatch edge_spoke new, ROk)]) (Done ())"
    and k: "okey (OSpokeCluster new) = ObjectKey [] ''edge''" by blast
  have s: "ref_store unchecked_hub Hub KSpokeCluster (okey (OSpokeCluster new)) = Some (OSpokeCluster edge_spoke)"
    unfolding k by (simp add: unchecked_hub_def lookup_def edge_spoke_def ObjectKeyFromObject_def)
  note q = all_reqs_exec [OF e health_handler_wakes_controller [OF ref.api_server_axioms ref_library.status_conditions_axioms
    ref_library.event_predicates_axioms]]
  from q [of "StatusPatch edge_spoke new" ROk] have changed: "connected_status edge_spoke \<noteq> connected_status new"
    and effect: "\<exists>r after w'. ref_server unchecked_hub (StatusPatch edge_spoke new) = (r, w') \<and>
      ref_store w' Hub KSpokeCluster (okey (OSpokeCluster new)) = Some (OSpokeCluster after) \<and>
      spoke_update_event ref_lib edge_spoke after = (connected_status edge_spoke \<noteq> connected_status new)"
    using s by simp_all blast
  then obtain r after w' where
    "ref_server unchecked_hub (StatusPatch edge_spoke new) = (r, w')"
    "ref_store w' Hub KSpokeCluster (ObjectKey [] ''edge'') = Some (OSpokeCluster after)" "spoke_update_event ref_lib edge_spoke after"
    unfolding k by blast
  with e show ?thesis by blast
qed

end
